theory Spec2Isabelle
  imports Complex_Main "HOL-Library.Product_Lexorder"
begin

section \<open>Common pandas primitives\<close>

text \<open>
  Float columns are modelled over the reals with \<open>None\<close> for NaN; a
  \<open>datetime64[ns]\<close> value is its number of nanoseconds since the epoch, with
  \<open>None\<close> for NaT.  Comparisons with a missing value are false, as in pandas.
\<close>

datatype error = FileNotFoundError | KeyError | OverflowError | ValueError | ZeroDivisionError
  | TypeError | AttributeError

type_synonym num = "real option"
type_synonym datetime = "int option"

definition gt_num :: "num \<Rightarrow> num \<Rightarrow> bool" where
  "gt_num a b = (case (a, b) of (Some x, Some y) \<Rightarrow> x > y | _ \<Rightarrow> False)"

definition ge_num :: "num \<Rightarrow> num \<Rightarrow> bool" where
  "ge_num a b = (case (a, b) of (Some x, Some y) \<Rightarrow> x \<ge> y | _ \<Rightarrow> False)"

definition lt_num :: "num \<Rightarrow> num \<Rightarrow> bool" where
  "lt_num a b = (case (a, b) of (Some x, Some y) \<Rightarrow> x < y | _ \<Rightarrow> False)"

text \<open>\<open>Series.clip(lower=lo)\<close>: missing values stay missing.\<close>

definition clip_lower :: "real \<Rightarrow> num \<Rightarrow> num" where
  "clip_lower lo v = map_option (\<lambda>x. max lo x) v"


text \<open>
  Subtraction of two \<open>datetime64[ns]\<close> values gives a \<open>timedelta64[ns]\<close>, an int64
  count of nanoseconds; pandas raises when the difference leaves the int64 range.
\<close>

definition sub_datetime :: "datetime \<Rightarrow> datetime \<Rightarrow> error + int option" where
  "sub_datetime a b =
     (case (a, b) of
        (Some x, Some y) \<Rightarrow>
          (if - (2 ^ 63) < x - y \<and> x - y < 2 ^ 63 then Inr (Some (x - y)) else Inl OverflowError)
      | _ \<Rightarrow> Inr None)"

text \<open>\<open>.dt.total_seconds() / 3600\<close> on a timedelta.\<close>

definition total_hours :: "int option \<Rightarrow> num" where
  "total_hours d = map_option (\<lambda>n. real_of_int n / 1000000000 / 3600) d"

section \<open>Delay metrics (final_analysis_report.load_and_prepare_data,
  LogisticsAnalyzer.calculate_delivery_metrics)\<close>

record shipment_dates =
  ship_date :: datetime
  planned_delivery :: datetime
  actual_delivery :: datetime

text \<open>
  Both scripts compute, per shipment,
  \<open>delay_hours = ((actual_delivery - planned_delivery).dt.total_seconds() / 3600).clip(lower=0)\<close>.
\<close>

definition delay_hours_of :: "shipment_dates \<Rightarrow> error + num" where
  "delay_hours_of s =
     (case sub_datetime (actual_delivery s) (planned_delivery s) of
        Inl e \<Rightarrow> Inl e
      | Inr d \<Rightarrow> Inr (clip_lower 0 (total_hours d)))"

text \<open>The column assignment over the whole frame: any row that raises aborts the step.\<close>

fun delay_hours_column :: "shipment_dates list \<Rightarrow> error + num list" where
  "delay_hours_column [] = Inr []"
| "delay_hours_column (s # ss) =
     (case delay_hours_of s of
        Inl e \<Rightarrow> Inl e
      | Inr v \<Rightarrow> (case delay_hours_column ss of Inl e \<Rightarrow> Inl e | Inr vs \<Rightarrow> Inr (v # vs)))"

definition example_shipments :: "shipment_dates list" where
  "example_shipments =
     [\<lparr>ship_date = Some 0, planned_delivery = Some 7200000000000, actual_delivery = Some 3600000000000\<rparr>,
      \<lparr>ship_date = Some 0, planned_delivery = Some 3600000000000, actual_delivery = Some 10800000000000\<rparr>,
      \<lparr>ship_date = Some 0, planned_delivery = Some 3600000000000, actual_delivery = None\<rparr>]"


section \<open>Aggregation primitives\<close>

text \<open>\<open>Series.mean()\<close> skips missing values and is missing on an all-missing series.\<close>

definition present :: "'a option list \<Rightarrow> 'a list" where
  "present xs = List.map_filter id xs"

definition mean_skipna :: "num list \<Rightarrow> num" where
  "mean_skipna xs =
     (let vs = present xs
      in if vs = [] then None else Some (sum_list vs / real (length vs)))"

text \<open>\<open>groupby(key)\<close> with the defaults \<open>sort=True, dropna=True\<close>: the groups are the
  distinct non-missing keys in ascending order.\<close>

definition group_keys :: "int option list \<Rightarrow> int list" where
  "group_keys ks = sort (remdups (present ks))"

definition group_rows :: "('r \<Rightarrow> int option) \<Rightarrow> 'r list \<Rightarrow> int \<Rightarrow> 'r list" where
  "group_rows key rows k = filter (\<lambda>r. key r = Some k) rows"

definition groupby_mean :: "(int option \<times> num) list \<Rightarrow> (int \<times> num) list" where
  "groupby_mean rows =
     map (\<lambda>k. (k, mean_skipna (map snd (group_rows fst rows k)))) (group_keys (map fst rows))"

text \<open>
  \<open>Series.quantile(q)\<close> with linear interpolation: the missing values are dropped, the
  rest sorted, and the value at position \<open>(n - 1) * q\<close> interpolated between its two
  neighbours.  An empty series gives NaN.
\<close>

definition quantile :: "real \<Rightarrow> num list \<Rightarrow> num" where
  "quantile q xs =
     (let vs = sort (present xs); n = length vs
      in if n = 0 then None
         else let pos = real (n - 1) * q;
                  lo = nat \<lfloor>pos\<rfloor>;
                  hi = min (lo + 1) (n - 1);
                  frac = pos - real lo
              in Some (vs ! lo + (vs ! hi - vs ! lo) * frac))"

text \<open>\<open>round(2)\<close>: NumPy rounds half to even.\<close>

definition round_half_even :: "real \<Rightarrow> int" where
  "round_half_even y =
     (let f = \<lfloor>y\<rfloor>; d = y - of_int f
      in if d < 1 / 2 then f else if d > 1 / 2 then f + 1 else if even f then f else f + 1)"

definition round2 :: "real \<Rightarrow> real" where
  "round2 x = of_int (round_half_even (x * 100)) / 100"

text \<open>Descending sort key with missing values last (\<open>ascending=False, na_position='last'\<close>).\<close>

definition desc_key :: "num \<Rightarrow> nat \<times> real" where
  "desc_key v = (case v of None \<Rightarrow> (1, 0) | Some x \<Rightarrow> (0, - x))"

section \<open>advanced_analysis.inefficient_routes\<close>

record route_agg =
  route_id :: int
  avg_cost :: num
  avg_delay :: num

definition lookup_agg :: "(int \<times> num) list \<Rightarrow> int \<Rightarrow> num" where
  "lookup_agg tab k = (case map_of tab k of None \<Rightarrow> None | Some v \<Rightarrow> v)"

text \<open>\<open>pd.concat([cost_agg, delay_agg], axis=1)\<close>: outer join on the route index.\<close>

definition concat_axis1 :: "(int \<times> num) list \<Rightarrow> (int \<times> num) list \<Rightarrow> route_agg list" where
  "concat_axis1 cost_agg delay_agg =
     map (\<lambda>k. \<lparr>route_id = k, avg_cost = lookup_agg cost_agg k, avg_delay = lookup_agg delay_agg k\<rparr>)
       (sort (remdups (map fst cost_agg @ map fst delay_agg)))"

definition dropna_agg :: "route_agg list \<Rightarrow> route_agg list" where
  "dropna_agg rs = filter (\<lambda>r. avg_cost r \<noteq> None \<and> avg_delay r \<noteq> None) rs"

text \<open>The table \<open>combined\<close>; the arguments are the (route_id, cost) column pair of the
  shipments and the (route_id, delay_hours) pair of the delays.\<close>

definition combined :: "(int option \<times> num) list \<Rightarrow> (int option \<times> num) list \<Rightarrow> route_agg list" where
  "combined shipments_df delays_df =
     dropna_agg (concat_axis1 (groupby_mean shipments_df) (groupby_mean delays_df))"

definition inefficient_routes ::
  "(int option \<times> num) list \<Rightarrow> (int option \<times> num) list \<Rightarrow> route_agg list" where
  "inefficient_routes shipments_df delays_df =
     (let comb = combined shipments_df delays_df;
          cost_thresh = quantile (3 / 4) (map avg_cost comb);
          delay_thresh = quantile (3 / 4) (map avg_delay comb);
          ineff = filter (\<lambda>r. gt_num (avg_cost r) cost_thresh \<and> gt_num (avg_delay r) delay_thresh) comb
      in sort_key (\<lambda>r. (desc_key (avg_cost r), desc_key (avg_delay r))) ineff)"

section \<open>final_analysis_report: route efficiency\<close>

text \<open>The columns of the shipment, route and carrier tables that the report reads.\<close>

record shipment =
  s_shipment_id :: "int option"
  s_route_id :: "int option"
  s_carrier_id :: "int option"
  s_delay_hours :: num
  s_delivery_cost :: num
  s_status :: "nat list"

record route =
  r_route_id :: "int option"
  r_distance_km :: num

text \<open>\<open>left.merge(right, on=key)\<close>: inner join, in the order of the left rows; pandas
  matches a missing key with a missing key.\<close>

definition merge_on :: "('a \<Rightarrow> int option) \<Rightarrow> ('b \<Rightarrow> int option) \<Rightarrow> 'a list \<Rightarrow> 'b list \<Rightarrow> ('a \<times> 'b) list" where
  "merge_on kl kr ls rs = concat (map (\<lambda>l. map (\<lambda>r. (l, r)) (filter (\<lambda>r. kr r = kl l) rs)) ls)"

text \<open>Group-by \<open>first\<close> and \<open>count\<close> skip missing values.\<close>

definition first_skipna :: "num list \<Rightarrow> num" where
  "first_skipna xs = (case present xs of [] \<Rightarrow> None | x # _ \<Rightarrow> Some x)"

definition count_notna :: "'a option list \<Rightarrow> nat" where
  "count_notna xs = length (present xs)"

definition div_num :: "num \<Rightarrow> num \<Rightarrow> num" where
  "div_num a b = (case (a, b) of (Some x, Some y) \<Rightarrow> (if y = 0 then None else Some (x / y)) | _ \<Rightarrow> None)"

record route_metric =
  rm_route_id :: int
  rm_avg_delay :: num
  rm_shipment_count :: nat
  rm_avg_cost :: num
  rm_distance :: num
  rm_cost_per_km :: num
  rm_efficiency_score :: num

text \<open>
  \<open>route_metrics\<close>: one row per route of the merged table, the aggregates rounded to two
  decimals, then the two derived columns.  (The columns \<open>max_delay\<close>, \<open>start\<close>,
  \<open>end\<close> and \<open>planned_time\<close>, which nothing below reads, are left out.  The model has
  no infinities: a zero distance, where the float division gives \<open>inf\<close> or NaN, makes
  \<open>cost_per_km\<close> missing.)
\<close>

definition route_metrics :: "shipment list \<Rightarrow> route list \<Rightarrow> route_metric list" where
  "route_metrics shipments routes =
     (let shipments_routes = merge_on s_route_id r_route_id shipments routes
      in map (\<lambda>k.
           let g = group_rows (\<lambda>p. s_route_id (fst p)) shipments_routes k;
               avg_delay = map_option round2 (mean_skipna (map (\<lambda>p. s_delay_hours (fst p)) g));
               cnt = count_notna (map (\<lambda>p. s_delay_hours (fst p)) g);
               avg_c = map_option round2 (mean_skipna (map (\<lambda>p. s_delivery_cost (fst p)) g));
               dist = map_option round2 (first_skipna (map (\<lambda>p. r_distance_km (snd p)) g))
           in \<lparr>rm_route_id = k, rm_avg_delay = avg_delay, rm_shipment_count = cnt,
               rm_avg_cost = avg_c, rm_distance = dist,
               rm_cost_per_km = div_num avg_c dist,
               rm_efficiency_score = div_num (Some (real cnt)) (map_option (\<lambda>d. d + 1) avg_delay)\<rparr>)
         (group_keys (map (\<lambda>p. s_route_id (fst p)) shipments_routes)))"

definition problematic_routes :: "route_metric list \<Rightarrow> route_metric list" where
  "problematic_routes rms =
     filter (\<lambda>r. gt_num (rm_avg_delay r) (quantile (4 / 5) (map rm_avg_delay rms))
              \<or> gt_num (rm_cost_per_km r) (quantile (4 / 5) (map rm_cost_per_km rms))) rms"

definition analyze_route_efficiency :: "shipment list \<Rightarrow> route list \<Rightarrow> route_metric list \<times> route_metric list" where
  "analyze_route_efficiency shipments routes =
     (let rms = route_metrics shipments routes in (rms, problematic_routes rms))"

text \<open>Two routes of equal length: route 1 is late but cheap, route 2 punctual but dear.\<close>

definition ex_shipments :: "shipment list" where
  "ex_shipments =
     [\<lparr>s_shipment_id = Some 1, s_route_id = Some 1, s_carrier_id = Some 1,
        s_delay_hours = Some 10, s_delivery_cost = Some 100, s_status = []\<rparr>,
      \<lparr>s_shipment_id = Some 2, s_route_id = Some 2, s_carrier_id = Some 1,
        s_delay_hours = Some 0, s_delivery_cost = Some 200, s_status = []\<rparr>]"

definition ex_routes :: "route list" where
  "ex_routes =
     [\<lparr>r_route_id = Some 1, r_distance_km = Some 100\<rparr>,
      \<lparr>r_route_id = Some 2, r_distance_km = Some 100\<rparr>]"

definition ex_costs :: "(int option \<times> num) list" where
  "ex_costs = [(Some 1, Some 10), (Some 2, Some 20), (Some 3, Some 30), (Some 1, None), (None, Some 3)]"

definition ex_delays :: "(int option \<times> num) list" where
  "ex_delays = [(Some 1, Some 1), (Some 2, Some 5), (Some 3, Some 9), (Some 4, Some 9)]"

section \<open>final_analysis_report.generate_clustering_insights\<close>

text \<open>\<open>np.select(conditions, choices, default)\<close>: the choice of the first condition that
  holds, the default when none does.\<close>

fun np_select :: "(bool \<times> 'a) list \<Rightarrow> 'a \<Rightarrow> 'a" where
  "np_select [] dflt = dflt"
| "np_select ((c, v) # cvs) dflt = (if c then v else np_select cvs dflt)"

definition cluster_choices :: "string list" where
  "cluster_choices =
     [''High Cost + High Delay'', ''High Cost + Low Delay'',
      ''Low Cost + High Delay'', ''Low Cost + Low Delay'']"

definition cluster_of :: "num \<Rightarrow> num \<Rightarrow> route_metric \<Rightarrow> string" where
  "cluster_of cost_threshold delay_threshold r =
     np_select
       (zip [ge_num (rm_avg_cost r) cost_threshold \<and> ge_num (rm_avg_delay r) delay_threshold,
             ge_num (rm_avg_cost r) cost_threshold \<and> lt_num (rm_avg_delay r) delay_threshold,
             lt_num (rm_avg_cost r) cost_threshold \<and> ge_num (rm_avg_delay r) delay_threshold,
             lt_num (rm_avg_cost r) cost_threshold \<and> lt_num (rm_avg_delay r) delay_threshold]
            cluster_choices)
       ''Other''"

text \<open>The \<open>cluster\<close> column that the function writes into \<open>route_metrics\<close>.\<close>

definition cluster_column :: "route_metric list \<Rightarrow> string list" where
  "cluster_column rms =
     (let cost_threshold = quantile (3 / 4) (map rm_avg_cost rms);
          delay_threshold = quantile (3 / 4) (map rm_avg_delay rms)
      in map (cluster_of cost_threshold delay_threshold) rms)"

record cluster_summary =
  cs_cluster :: string
  cs_route_count :: nat
  cs_avg_delay :: num
  cs_avg_cost :: num
  cs_shipment_count :: nat

text \<open>
  \<open>groupby('cluster').agg(...)\<close>: one row per label that occurs, in ascending label order
  (which is the order of the list below).  The aggregation counts the column \<open>route_id\<close>;
  on a frame that carries the route id as its index only, as the one \<open>analyze_route_efficiency\<close>
  returns, pandas raises \<open>KeyError\<close> here, after the \<open>cluster\<close> column has been written.
\<close>

definition summarize_clusters :: "(route_metric \<times> string) list \<Rightarrow> cluster_summary list" where
  "summarize_clusters labelled =
     map (\<lambda>c. let g = map fst (filter (\<lambda>p. snd p = c) labelled)
              in \<lparr>cs_cluster = c, cs_route_count = length g,
                  cs_avg_delay = map_option round2 (mean_skipna (map rm_avg_delay g)),
                  cs_avg_cost = map_option round2 (mean_skipna (map rm_avg_cost g)),
                  cs_shipment_count = sum_list (map rm_shipment_count g)\<rparr>)
       (filter (\<lambda>c. c \<in> set (map snd labelled)) (cluster_choices @ [''Other'']))"

definition generate_clustering_insights ::
  "bool \<Rightarrow> route_metric list \<Rightarrow> (route_metric \<times> string) list \<times> (error + cluster_summary list)" where
  "generate_clustering_insights has_route_id_column rms =
     (let labelled = zip rms (cluster_column rms)
      in (labelled, if has_route_id_column then Inr (summarize_clusters labelled) else Inl KeyError))"

section \<open>route_clustering\<close>

record clean_route =
  distance :: num
  avg_time :: num
  cr_avg_cost :: num

definition sqdist :: "real list \<Rightarrow> real list \<Rightarrow> real" where
  "sqdist x c = sum_list (map2 (\<lambda>a b. (a - b) ^ 2) x c)"

text \<open>The label of a sample is the index of the nearest cluster centre (the first one
  among equals).\<close>

definition nearest :: "real list list \<Rightarrow> real list \<Rightarrow> nat" where
  "nearest centers x =
     (if centers = [] then 0 else arg_min_list (\<lambda>i. sqdist x (centers ! i)) [0..<length centers])"

text \<open>
  \<open>KMeans(n_clusters=k).fit_predict(X)\<close>.  The search for the centres is scikit-learn's and
  is passed in as \<open>fit\<close>; fewer samples than clusters is a \<open>ValueError\<close>.
\<close>

definition kmeans_fit_predict ::
  "(real list list \<Rightarrow> real list list) \<Rightarrow> nat \<Rightarrow> real list list \<Rightarrow> error + nat list" where
  "kmeans_fit_predict fit k X =
     (if length X < k then Inl ValueError else Inr (map (nearest (fit X)) X))"

definition N_CLUSTERS :: nat where
  "N_CLUSTERS = 3"

text \<open>The script after loading: rows with a missing feature are dropped, the features
  standardised (\<open>scale\<close> is scikit-learn's \<open>StandardScaler.fit_transform\<close>) and clustered.\<close>

definition route_clustering ::
  "(real list list \<Rightarrow> real list list) \<Rightarrow> (real list list \<Rightarrow> real list list) \<Rightarrow>
   clean_route list \<Rightarrow> error + (clean_route \<times> nat) list" where
  "route_clustering scale fit routes_df =
     (let rows = filter (\<lambda>r. distance r \<noteq> None \<and> avg_time r \<noteq> None \<and> cr_avg_cost r \<noteq> None) routes_df;
          scaled_features = scale (map (\<lambda>r. present [distance r, avg_time r, cr_avg_cost r]) rows)
      in case kmeans_fit_predict fit N_CLUSTERS scaled_features of
           Inl e \<Rightarrow> Inl e
         | Inr labels \<Rightarrow> Inr (zip rows labels))"

text \<open>Route 1 has no recorded delay at all.\<close>

definition ex_undelivered :: "shipment list" where
  "ex_undelivered =
     [\<lparr>s_shipment_id = Some 1, s_route_id = Some 1, s_carrier_id = Some 1,
        s_delay_hours = None, s_delivery_cost = Some 100, s_status = []\<rparr>,
      \<lparr>s_shipment_id = Some 2, s_route_id = Some 2, s_carrier_id = Some 1,
        s_delay_hours = Some 0, s_delivery_cost = Some 200, s_status = []\<rparr>]"

definition ex_centers :: "real list list" where
  "ex_centers = [[0, 0, 0], [1, 1, 1], [5, 5, 5]]"

definition ex_clean_routes :: "clean_route list" where
  "ex_clean_routes =
     [\<lparr>distance = Some 0, avg_time = Some 0, cr_avg_cost = Some 1\<rparr>,
      \<lparr>distance = Some 1, avg_time = Some 1, cr_avg_cost = Some 2\<rparr>,
      \<lparr>distance = Some 1, avg_time = None, cr_avg_cost = Some 2\<rparr>,
      \<lparr>distance = Some 5, avg_time = Some 6, cr_avg_cost = Some 5\<rparr>]"

section \<open>final_analysis_report.analyze_carrier_performance\<close>















section \<open>advanced_analysis.hypothesis_testing\<close>

text \<open>The distinct values of a list in the order of their first occurrence.\<close>

definition unique :: "'a list \<Rightarrow> 'a list" where
  "unique xs = rev (remdups (rev xs))"

text \<open>\<open>Series.value_counts()\<close>: the non-missing values with their frequencies, most frequent
  first.  (pandas does not fix the order of values of equal frequency; the model keeps the
  order of first occurrence.)\<close>

definition value_counts :: "int option list \<Rightarrow> (int \<times> nat) list" where
  "value_counts ks =
     sort_key (\<lambda>p. - int (snd p)) (map (\<lambda>k. (k, count_list ks (Some k))) (unique (present ks)))"

record hyp_row =
  h_carrier_id :: "int option"
  h_ship_date :: datetime
  h_delivery_date :: datetime

text \<open>What the step prints, one constructor per \<open>print\<close> call of the source, and the summary
  it writes to \<open>outputs/delivery_time_hypothesis_test.txt\<close>.\<close>

datatype message =
    CarrierColumnMissing
  | NotEnoughCarriers
  | TestHeader
  | NullHypothesis
  | StatisticAndPValue num num
  | Result string
  | SummarySaved

record summary =
  statistic :: num
  p_value :: num
  decision :: string

record test_outcome =
  printed :: "message list"
  summary_file :: "summary option"

definition dropna_dates :: "hyp_row list \<Rightarrow> hyp_row list" where
  "dropna_dates rows =
     filter (\<lambda>r. h_carrier_id r \<noteq> None \<and> h_ship_date r \<noteq> None \<and> h_delivery_date r \<noteq> None) rows"

fun transit_hours :: "hyp_row list \<Rightarrow> error + num list" where
  "transit_hours [] = Inr []"
| "transit_hours (r # rs) =
     (case sub_datetime (h_delivery_date r) (h_ship_date r) of
        Inl e \<Rightarrow> Inl e
      | Inr d \<Rightarrow> (case transit_hours rs of Inl e \<Rightarrow> Inl e | Inr ts \<Rightarrow> Inr (total_hours d # ts)))"

text \<open>Carriers with at least 30 shipments.\<close>

definition valid_carriers :: "hyp_row list \<Rightarrow> int list" where
  "valid_carriers df = map fst (filter (\<lambda>p. snd p \<ge> 30) (value_counts (map h_carrier_id df)))"

definition carrier_samples :: "hyp_row list \<Rightarrow> num list \<Rightarrow> int list \<Rightarrow> num list list" where
  "carrier_samples df ts valid =
     map (\<lambda>cid. map snd (filter (\<lambda>p. h_carrier_id (fst p) = Some cid) (zip df ts))) valid"

text \<open>
  The step itself.  \<open>kruskal\<close> is \<open>scipy.stats.kruskal\<close>, which returns the statistic and the
  p-value or raises; \<open>has_carrier_id\<close> says whether the frame has a \<open>carrier_id\<close> column.
\<close>

definition hypothesis_testing ::
  "(num list list \<Rightarrow> error + num \<times> num) \<Rightarrow> bool \<Rightarrow> hyp_row list \<Rightarrow> error + test_outcome" where
  "hypothesis_testing kruskal has_carrier_id shipments_df =
     (if \<not> has_carrier_id then Inr \<lparr>printed = [CarrierColumnMissing], summary_file = None\<rparr>
      else
        let df = dropna_dates shipments_df
        in case transit_hours df of
             Inl e \<Rightarrow> Inl e
           | Inr ts \<Rightarrow>
               let data = carrier_samples df ts (valid_carriers df)
               in if length data < 2
                  then Inr \<lparr>printed = [NotEnoughCarriers], summary_file = None\<rparr>
                  else case kruskal data of
                         Inl e \<Rightarrow> Inl e
                       | Inr (stat, pval) \<Rightarrow>
                           let interpretation =
                                 (if lt_num pval (Some (5 / 100)) then ''Reject H0'' else ''Fail to reject H0'')
                           in Inr \<lparr>printed = [TestHeader, NullHypothesis, StatisticAndPValue stat pval,
                                              Result interpretation, SummarySaved],
                                   summary_file = Some \<lparr>statistic = stat, p_value = pval,
                                                         decision = interpretation\<rparr>\<rparr>)"

text \<open>Sample frames: \<open>n\<close> shipments of a carrier, each shipped at 0 and delivered after
  \<open>h\<close> hours.\<close>

definition carrier_rows :: "int \<Rightarrow> nat \<Rightarrow> int \<Rightarrow> hyp_row list" where
  "carrier_rows cid n h =
     replicate n \<lparr>h_carrier_id = Some cid, h_ship_date = Some 0, h_delivery_date = Some (h * 3600000000000)\<rparr>"

definition ex_kruskal :: "num list list \<Rightarrow> error + num \<times> num" where
  "ex_kruskal data = Inr (Some 12, Some (1 / 100))"

section \<open>data_generator.generate_warehouses\<close>








section \<open>data_cleaning: frames\<close>

text \<open>
  A cell of a raw or cleaned frame: a number, a string (a list of code points), a timestamp
  in nanoseconds, or one of the two missing values.  A frame has its column names and its
  rows, each row with its index label.
\<close>

datatype cell = Num real | Str "nat list" | DateTime int | NaN | NaT

type_synonym name = "nat list"

record frame =
  columns :: "name list"
  rows :: "(nat \<times> cell list) list"

definition nm :: "string \<Rightarrow> name" where
  "nm s = map of_char s"

definition isna :: "cell \<Rightarrow> bool" where
  "isna c = (c = NaN \<or> c = NaT)"

text \<open>\<open>df.rename(columns=rename_map)\<close>.\<close>

definition rename_columns :: "(name \<times> name) list \<Rightarrow> frame \<Rightarrow> frame" where
  "rename_columns m df =
     df\<lparr>columns := map (\<lambda>c. case map_of m c of None \<Rightarrow> c | Some c' \<Rightarrow> c') (columns df)\<rparr>"

text \<open>The position of the first column of a given name.\<close>

fun col_pos :: "name \<Rightarrow> name list \<Rightarrow> nat option" where
  "col_pos c [] = None"
| "col_pos c (x # xs) = (if x = c then Some 0 else map_option Suc (col_pos c xs))"

text \<open>The cells at position \<open>j\<close> of the rows, and the rows with these cells replaced.\<close>

definition col_values :: "nat \<Rightarrow> (nat \<times> cell list) list \<Rightarrow> cell list" where
  "col_values j rs = map (\<lambda>r. snd r ! j) rs"

definition put_values :: "nat \<Rightarrow> cell list \<Rightarrow> (nat \<times> cell list) list \<Rightarrow> (nat \<times> cell list) list" where
  "put_values j vs rs = map2 (\<lambda>r v. (fst r, (snd r)[j := v])) rs vs"

text \<open>
  \<open>df[c]\<close> as a series: a missing column is a \<open>KeyError\<close>; when the name occurs more than
  once pandas hands back a frame, on which the operations applied below raise; \<open>dup\<close> is
  the error of the operation at hand.
\<close>

definition get_col :: "error \<Rightarrow> name \<Rightarrow> frame \<Rightarrow> error + cell list" where
  "get_col dup c df =
     (case col_pos c (columns df) of
        None \<Rightarrow> Inl KeyError
      | Some j \<Rightarrow> if count_list (columns df) c > 1 then Inl dup
                  else Inr (col_values j (rows df)))"

text \<open>\<open>df[c] = values\<close> for an existing column and a series on the same index.\<close>

definition set_col :: "name \<Rightarrow> cell list \<Rightarrow> frame \<Rightarrow> frame" where
  "set_col c vs df =
     (case col_pos c (columns df) of
        None \<Rightarrow> df
      | Some j \<Rightarrow> df\<lparr>rows := put_values j vs (rows df)\<rparr>)"

text \<open>\<open>df[c] = f(df[c])\<close>.\<close>

definition map_col :: "error \<Rightarrow> (cell list \<Rightarrow> cell list) \<Rightarrow> name \<Rightarrow> frame \<Rightarrow> error + frame" where
  "map_col dup f c df =
     (case get_col dup c df of Inl e \<Rightarrow> Inl e | Inr vs \<Rightarrow> Inr (set_col c (f vs) df))"

text \<open>\<open>df.drop_duplicates()\<close> keeps the first of the rows with equal cells, with its label.\<close>

fun drop_dups :: "cell list list \<Rightarrow> (nat \<times> cell list) list \<Rightarrow> (nat \<times> cell list) list" where
  "drop_dups seen [] = []"
| "drop_dups seen (r # rs) =
     (if snd r \<in> set seen then drop_dups seen rs else r # drop_dups (snd r # seen) rs)"

definition drop_duplicates :: "frame \<Rightarrow> frame" where
  "drop_duplicates df = df\<lparr>rows := drop_dups [] (rows df)\<rparr>"

section \<open>data_cleaning: helpers\<close>

text \<open>
  The pandas and Python routines the cleaners call, where their behaviour is not fixed by
  this repository: the number parser behind \<open>pd.to_numeric\<close>, \<open>pd.to_datetime\<close> on a
  column that is not yet of datetime type, the text of a non-string value, and \<open>str.lower\<close>.
\<close>

record pandas =
  parse_num :: "nat list \<Rightarrow> real option"
  parse_dates :: "cell list \<Rightarrow> cell list"
  str_of :: "cell \<Rightarrow> nat list"
  str_lower :: "nat list \<Rightarrow> nat list"

text \<open>\<open>pd.to_numeric(series, errors="coerce")\<close>, cell by cell; a datetime column is read as
  its int64 nanoseconds.\<close>

definition to_numeric :: "pandas \<Rightarrow> cell \<Rightarrow> cell" where
  "to_numeric L c =
     (case c of
        Num r \<Rightarrow> Num r
      | Str s \<Rightarrow> (case parse_num L s of None \<Rightarrow> NaN | Some r \<Rightarrow> Num r)
      | DateTime t \<Rightarrow> Num (real_of_int t)
      | NaN \<Rightarrow> NaN
      | NaT \<Rightarrow> Num (- (2 ^ 63)))"

definition is_datetime :: "cell \<Rightarrow> bool" where
  "is_datetime c = (case c of DateTime t \<Rightarrow> True | NaT \<Rightarrow> True | _ \<Rightarrow> False)"

text \<open>\<open>pd.to_datetime(series, errors="coerce")\<close>: a datetime column is returned as it is.\<close>

definition to_datetime :: "pandas \<Rightarrow> cell list \<Rightarrow> cell list" where
  "to_datetime L col = (if list_all is_datetime col then col else parse_dates L col)"

text \<open>The characters \<open>str.strip()\<close> removes: those for which \<open>str.isspace\<close> holds.\<close>

definition is_space :: "nat \<Rightarrow> bool" where
  "is_space c =
     ((9 \<le> c \<and> c \<le> 13) \<or> (28 \<le> c \<and> c \<le> 32) \<or> c = 133 \<or> c = 160 \<or> c = 5760
      \<or> (8192 \<le> c \<and> c \<le> 8202) \<or> c = 8232 \<or> c = 8233 \<or> c = 8239 \<or> c = 8287 \<or> c = 12288)"

definition strip :: "nat list \<Rightarrow> nat list" where
  "strip s = rev (dropWhile is_space (rev (dropWhile is_space s)))"

definition astype_str :: "pandas \<Rightarrow> cell \<Rightarrow> nat list" where
  "astype_str L c = (case c of Str s \<Rightarrow> s | _ \<Rightarrow> str_of L c)"

text \<open>\<open>_standardize_strings\<close>: \<open>series.astype(str).str.lower().str.strip()\<close>.\<close>

definition standardize_strings :: "pandas \<Rightarrow> cell list \<Rightarrow> cell list" where
  "standardize_strings L series = map (\<lambda>c. Str (strip (str_lower L (astype_str L c)))) series"

text \<open>\<open>Series.median()\<close>: the middle of the sorted numbers, the mean of the two middle ones
  for an even count, NaN when there is none.\<close>

definition nums :: "cell list \<Rightarrow> real list" where
  "nums cs = concat (map (\<lambda>c. case c of Num r \<Rightarrow> [r] | _ \<Rightarrow> []) cs)"

definition median :: "cell list \<Rightarrow> cell" where
  "median cs =
     (let vs = sort (nums cs); n = length vs
      in if n = 0 then NaN
         else if odd n then Num (vs ! (n div 2))
         else Num ((vs ! (n div 2 - 1) + vs ! (n div 2)) / 2))"

text \<open>\<open>Series.fillna(value)\<close>; filling with NaN changes nothing.\<close>

definition fillna_cell :: "cell \<Rightarrow> cell \<Rightarrow> cell" where
  "fillna_cell v c = (if isna c \<and> \<not> isna v then v else c)"

text \<open>
  \<open>df.groupby(group_col)[col].transform(lambda s: s.fillna(s.median()))\<close>: each row gets its
  value, filled with the median of the rows of the same key; rows with a missing key belong to
  no group and get NaN.
\<close>

definition group_median_fill :: "cell list \<Rightarrow> cell list \<Rightarrow> cell list" where
  "group_median_fill keys vals =
     map (\<lambda>(k, v). if isna k then NaN
                    else fillna_cell (median (map snd (filter (\<lambda>p. fst p = k) (zip keys vals)))) v)
       (zip keys vals)"

text \<open>\<open>_fill_numeric_by_group_median\<close>.\<close>

fun fill_numeric_by_group_median :: "name \<Rightarrow> name list \<Rightarrow> frame \<Rightarrow> error + frame" where
  "fill_numeric_by_group_median group_col [] df = Inr df"
| "fill_numeric_by_group_median group_col (col # numeric_cols) df =
     (case get_col ValueError group_col df of
        Inl e \<Rightarrow> Inl e
      | Inr keys \<Rightarrow>
          (case map_col ValueError (group_median_fill keys) col df of
             Inl e \<Rightarrow> Inl e
           | Inr df' \<Rightarrow> fill_numeric_by_group_median group_col numeric_cols df'))"

text \<open>A sequence of statements, each of which may raise.\<close>

fun steps :: "(frame \<Rightarrow> error + frame) list \<Rightarrow> frame \<Rightarrow> error + frame" where
  "steps [] df = Inr df"
| "steps (f # fs) df = (case f df of Inl e \<Rightarrow> Inl e | Inr df' \<Rightarrow> steps fs df')"

section \<open>data_cleaning: the cleaners\<close>

definition shipments_rename_map :: "(name \<times> name) list" where
  "shipments_rename_map =
     [([1076, 1072, 1090, 1072, 32, 1086, 1090, 1087, 1088, 1072, 1074, 1082, 1080], nm ''ship_date''),
      ([1076, 1072, 1090, 1072, 32, 1076, 1086, 1089, 1090, 1072, 1074, 1082, 1080], nm ''delivery_date''),
      ([1074, 1077, 1089], nm ''weight''),
      ([1089, 1090, 1086, 1080, 1084, 1086, 1089, 1090, 1100], nm ''cost''),
      ([1086, 1090, 1087, 1088, 1072, 1074, 1080, 1090, 1077, 1083, 1100], nm ''sender''),
      ([1087, 1086, 1083, 1091, 1095, 1072, 1090, 1077, 1083, 1100], nm ''recipient''),
      ([1084, 1072, 1088, 1096, 1088, 1091, 1090], nm ''route_id''),
      ([1089, 1090, 1072, 1090, 1091, 1089], nm ''status'')]"

definition routes_rename_map :: "(name \<times> name) list" where
  "routes_rename_map =
     [([1084, 1072, 1088, 1096, 1088, 1091, 1090, 95, 105, 100], nm ''route_id''),
      ([1085, 1072, 1095, 1072, 1083, 1100, 1085, 1099, 1081, 32, 1087, 1091, 1085, 1082, 1090], nm ''origin''),
      ([1082, 1086, 1085, 1077, 1095, 1085, 1099, 1081, 32, 1087, 1091, 1085, 1082, 1090], nm ''destination''),
      ([1088, 1072, 1089, 1089, 1090, 1086, 1103, 1085, 1080, 1077], nm ''distance''),
      ([1089, 1088, 1077, 1076, 1085, 1077, 1077, 32, 1074, 1088, 1077, 1084, 1103, 32, 1074, 32, 1087, 1091, 1090, 1080], nm ''avg_time''),
      ([1089, 1088, 1077, 1076, 1085, 1103, 1103, 32, 1089, 1090, 1086, 1080, 1084, 1086, 1089, 1090, 1100], nm ''avg_cost'')]"

definition warehouses_rename_map :: "(name \<times> name) list" where
  "warehouses_rename_map =
     [([1088, 1077, 1075, 1080, 1086, 1085], nm ''region''),
      ([1077, 1084, 1082, 1086, 1089, 1090, 1100], nm ''capacity''),
      ([1090, 1077, 1082, 1091, 1097, 1077, 1077, 32, 1079, 1072, 1087, 1086, 1083, 1085, 1077, 1085, 1080, 1077], nm ''current_fill'')]"

definition carriers_rename_map :: "(name \<times> name) list" where
  "carriers_rename_map =
     [([1085, 1072, 1079, 1074, 1072, 1085, 1080, 1077], nm ''name''),
      ([1089, 1088, 1077, 1076, 1085, 1103, 1103, 32, 1086, 1094, 1077, 1085, 1082, 1072], nm ''rating''),
      ([1082, 1086, 1083, 45, 1074, 1086, 32, 1084, 1072, 1096, 1080, 1085], nm ''fleet_size''),
      ([1085, 1072, 1076, 1077, 1078, 1085, 1086, 1089, 1090, 1100], nm ''reliability'')]"

definition delays_rename_map :: "(name \<times> name) list" where
  "delays_rename_map =
     [([1084, 1072, 1088, 1096, 1088, 1091, 1090, 95, 105, 100], nm ''route_id''),
      ([1076, 1072, 1090, 1072], nm ''date''),
      ([1087, 1088, 1080, 1095, 1080, 1085, 1072], nm ''reason''),
      ([1079, 1072, 1076, 1077, 1088, 1078, 1082, 1072, 95, 1074, 95, 1095, 1072, 1089, 1072, 1093], nm ''delay_hours'')]"

text \<open>
  The statements of each cleaner between \<open>df = df.copy()\<close> and \<open>df = df.drop_duplicates()\<close>;
  all of them assign to, or modify in place, the frame that \<open>df\<close> names.
\<close>

definition rename_inplace :: "(name \<times> name) list \<Rightarrow> frame \<Rightarrow> error + frame" where
  "rename_inplace m df = Inr (rename_columns m df)"

definition shipments_steps :: "pandas \<Rightarrow> (frame \<Rightarrow> error + frame) list" where
  "shipments_steps L =
     [rename_inplace shipments_rename_map,
      map_col ValueError (to_datetime L) (nm ''ship_date''),
      map_col ValueError (to_datetime L) (nm ''delivery_date''),
      map_col TypeError (map (to_numeric L)) (nm ''weight''),
      map_col TypeError (map (to_numeric L)) (nm ''cost''),
      fill_numeric_by_group_median (nm ''route_id'') [nm ''weight'', nm ''cost''],
      map_col AttributeError (standardize_strings L) (nm ''sender''),
      map_col AttributeError (standardize_strings L) (nm ''recipient''),
      map_col AttributeError (standardize_strings L) (nm ''status'')]"

definition routes_steps :: "pandas \<Rightarrow> (frame \<Rightarrow> error + frame) list" where
  "routes_steps L =
     [rename_inplace routes_rename_map,
      map_col TypeError (map (to_numeric L)) (nm ''distance''),
      map_col TypeError (map (to_numeric L)) (nm ''avg_time''),
      map_col TypeError (map (to_numeric L)) (nm ''avg_cost''),
      map_col AttributeError (standardize_strings L) (nm ''origin''),
      map_col AttributeError (standardize_strings L) (nm ''destination'')]"

text \<open>\<open>df["current_fill"].fillna(df["current_fill"].median(), inplace=True)\<close> writes through
  the column into the frame (the behaviour of pandas before copy-on-write).\<close>

definition fill_overall_median :: "cell list \<Rightarrow> cell list" where
  "fill_overall_median vs = map (fillna_cell (median vs)) vs"

definition warehouses_steps :: "pandas \<Rightarrow> (frame \<Rightarrow> error + frame) list" where
  "warehouses_steps L =
     [rename_inplace warehouses_rename_map,
      map_col AttributeError (standardize_strings L) (nm ''region''),
      map_col TypeError (map (to_numeric L)) (nm ''capacity''),
      map_col TypeError (map (to_numeric L)) (nm ''current_fill''),
      map_col ValueError fill_overall_median (nm ''current_fill'')]"

definition carriers_steps :: "pandas \<Rightarrow> (frame \<Rightarrow> error + frame) list" where
  "carriers_steps L =
     [rename_inplace carriers_rename_map,
      map_col AttributeError (standardize_strings L) (nm ''name''),
      map_col TypeError (map (to_numeric L)) (nm ''rating''),
      map_col TypeError (map (to_numeric L)) (nm ''fleet_size''),
      map_col TypeError (map (to_numeric L)) (nm ''reliability'')]"

definition delays_steps :: "pandas \<Rightarrow> (frame \<Rightarrow> error + frame) list" where
  "delays_steps L =
     [rename_inplace delays_rename_map,
      map_col ValueError (to_datetime L) (nm ''date''),
      map_col TypeError (map (\<lambda>c. fillna_cell (Num 0) (to_numeric L c))) (nm ''delay_hours''),
      map_col AttributeError (standardize_strings L) (nm ''reason'')]"

text \<open>A cleaner as a function of the frame it is given.\<close>

definition cleaner :: "(frame \<Rightarrow> error + frame) list \<Rightarrow> frame \<Rightarrow> error + frame" where
  "cleaner body df = (case steps body df of Inl e \<Rightarrow> Inl e | Inr df' \<Rightarrow> Inr (drop_duplicates df'))"

definition clean_shipments :: "pandas \<Rightarrow> frame \<Rightarrow> error + frame" where
  "clean_shipments L = cleaner (shipments_steps L)"

definition clean_routes :: "pandas \<Rightarrow> frame \<Rightarrow> error + frame" where
  "clean_routes L = cleaner (routes_steps L)"

definition clean_warehouses :: "pandas \<Rightarrow> frame \<Rightarrow> error + frame" where
  "clean_warehouses L = cleaner (warehouses_steps L)"

definition clean_carriers :: "pandas \<Rightarrow> frame \<Rightarrow> error + frame" where
  "clean_carriers L = cleaner (carriers_steps L)"

definition clean_delays :: "pandas \<Rightarrow> frame \<Rightarrow> error + frame" where
  "clean_delays L = cleaner (delays_steps L)"

section \<open>data_cleaning: the cleaners on a store of frame objects\<close>

text \<open>
  To say what a cleaner does to the object it is passed, frames live in a store, addressed
  by position.  \<open>df.copy()\<close> and \<open>df.drop_duplicates()\<close> allocate a new object; every other
  statement updates the object that the local name \<open>df\<close> refers to.  A run ends with the
  address of the returned frame or with the exception raised.
\<close>

type_synonym store = "frame list"

definition alloc :: "store \<Rightarrow> frame \<Rightarrow> store \<times> nat" where
  "alloc s df = (s @ [df], length s)"

fun steps_at :: "(frame \<Rightarrow> error + frame) list \<Rightarrow> nat \<Rightarrow> store \<Rightarrow> store \<times> error option" where
  "steps_at [] b s = (s, None)"
| "steps_at (f # fs) b s =
     (case f (s ! b) of Inl e \<Rightarrow> (s, Some e) | Inr df' \<Rightarrow> steps_at fs b (s[b := df']))"

definition cleaner_at :: "(frame \<Rightarrow> error + frame) list \<Rightarrow> store \<Rightarrow> nat \<Rightarrow> store \<times> (error + nat)" where
  "cleaner_at body s a =
     (let (s1, df) = alloc s (s ! a);
          (s2, raised) = steps_at body df s1
      in case raised of
           Some e \<Rightarrow> (s2, Inl e)
         | None \<Rightarrow> (let (s3, df') = alloc s2 (drop_duplicates (s2 ! df)) in (s3, Inr df')))"

definition clean_shipments_at :: "pandas \<Rightarrow> store \<Rightarrow> nat \<Rightarrow> store \<times> (error + nat)" where
  "clean_shipments_at L = cleaner_at (shipments_steps L)"

definition clean_routes_at :: "pandas \<Rightarrow> store \<Rightarrow> nat \<Rightarrow> store \<times> (error + nat)" where
  "clean_routes_at L = cleaner_at (routes_steps L)"

definition clean_warehouses_at :: "pandas \<Rightarrow> store \<Rightarrow> nat \<Rightarrow> store \<times> (error + nat)" where
  "clean_warehouses_at L = cleaner_at (warehouses_steps L)"

definition clean_carriers_at :: "pandas \<Rightarrow> store \<Rightarrow> nat \<Rightarrow> store \<times> (error + nat)" where
  "clean_carriers_at L = cleaner_at (carriers_steps L)"

definition clean_delays_at :: "pandas \<Rightarrow> store \<Rightarrow> nat \<Rightarrow> store \<times> (error + nat)" where
  "clean_delays_at L = cleaner_at (delays_steps L)"

section \<open>data_cleaning: reading a cleaned frame\<close>

text \<open>A frame is rectangular: every row has one cell for each column.\<close>

definition wf_frame :: "frame \<Rightarrow> bool" where
  "wf_frame df = list_all (\<lambda>r. length (snd r) = length (columns df)) (rows df)"


text \<open>A cell of a numeric column.\<close>

definition numeric :: "cell \<Rightarrow> bool" where
  "numeric c = (case c of NaN \<Rightarrow> True | Num x \<Rightarrow> True | _ \<Rightarrow> False)"






section \<open>data_cleaning: sample inputs\<close>

text \<open>A small instance of the library routines: one-digit numbers parse, no date does,
  and lower-casing covers the ASCII letters.\<close>

definition ex_pandas :: pandas where
  "ex_pandas =
     \<lparr>parse_num = (\<lambda>s. case s of [c] \<Rightarrow> (if 48 \<le> c \<and> c \<le> 57 then Some (real (c - 48)) else None)
                              | _ \<Rightarrow> None),
      parse_dates = map (\<lambda>c. case c of DateTime t \<Rightarrow> DateTime t | _ \<Rightarrow> NaT),
      str_of = (\<lambda>c. case c of NaN \<Rightarrow> nm ''nan'' | NaT \<Rightarrow> nm ''NaT'' | _ \<Rightarrow> []),
      str_lower = map (\<lambda>c. if 65 \<le> c \<and> c \<le> 90 then c + 32 else c)\<rparr>"

text \<open>Warehouses under their Russian headers; both fill levels are missing.\<close>

definition ex_warehouses :: frame where
  "ex_warehouses =
     \<lparr>columns = [[1088, 1077, 1075, 1080, 1086, 1085], [1077, 1084, 1082, 1086, 1089, 1090, 1100], [1090, 1077, 1082, 1091, 1097, 1077, 1077, 32, 1079, 1072, 1087, 1086, 1083, 1085, 1077, 1085, 1080, 1077]],
      rows = [(0, [Str (nm '' Ufa ''), Str (nm ''7''), NaN]),
              (1, [Str (nm ''PERM''), Num 900, Str (nm ''n/a'')]),
              (2, [Str (nm ''ufa''), Num 7, NaN])]\<rparr>"

text \<open>Shipments: route 1 has one known weight, route 2 has none, and one shipment has no
  route.\<close>

definition ex_raw_shipments :: frame where
  "ex_raw_shipments =
     \<lparr>columns = [nm ''ship_date'', nm ''delivery_date'', nm ''weight'', nm ''cost'',
                 nm ''sender'', nm ''recipient'', nm ''route_id'', nm ''status''],
      rows = [(0, [NaN, NaN, Str (nm ''4''), Num 10, Str (nm ''A''), Str (nm ''B''), Num 1, Str (nm ''ok'')]),
              (1, [NaN, NaN, NaN, Num 20, Str (nm ''A''), Str (nm ''B''), Num 1, Str (nm ''ok'')]),
              (2, [NaN, NaN, NaN, Num 30, Str (nm ''A''), Str (nm ''B''), Num 2, Str (nm ''ok'')]),
              (3, [NaN, NaN, Num 8, Num 40, Str (nm ''A''), Str (nm ''B''), NaN, Str (nm ''ok'')])]\<rparr>"


text \<open>The cleaned sample frames.\<close>

definition ex_clean_shipments :: frame where
  "ex_clean_shipments =
     \<lparr>columns = [nm ''ship_date'', nm ''delivery_date'', nm ''weight'', nm ''cost'',
                 nm ''sender'', nm ''recipient'', nm ''route_id'', nm ''status''],
      rows = [(0, [NaT, NaT, Num 4, Num 10, Str (nm ''a''), Str (nm ''b''), Num 1, Str (nm ''ok'')]),
              (1, [NaT, NaT, Num 4, Num 20, Str (nm ''a''), Str (nm ''b''), Num 1, Str (nm ''ok'')]),
              (2, [NaT, NaT, NaN, Num 30, Str (nm ''a''), Str (nm ''b''), Num 2, Str (nm ''ok'')]),
              (3, [NaT, NaT, NaN, NaN, Str (nm ''a''), Str (nm ''b''), NaN, Str (nm ''ok'')])]\<rparr>"

definition ex_clean_warehouses :: frame where
  "ex_clean_warehouses =
     \<lparr>columns = [nm ''region'', nm ''capacity'', nm ''current_fill''],
      rows = [(0, [Str (nm ''ufa''), Num 7, NaN]),
              (1, [Str (nm ''perm''), Num 900, NaN])]\<rparr>"


section \<open>data_cleaning: what a statement leaves behind\<close>

text \<open>The cells that the standardisation of strings and the filling with zero produce.\<close>

definition is_standard :: "pandas \<Rightarrow> cell \<Rightarrow> bool" where
  "is_standard L c = (case c of Str s \<Rightarrow> strip (str_lower L s) = s | _ \<Rightarrow> False)"

definition is_num :: "cell \<Rightarrow> bool" where
  "is_num c = (case c of Num x \<Rightarrow> True | _ \<Rightarrow> False)"

text \<open>What running a cleaner twice needs of the library: \<open>pd.to_datetime\<close> with
  \<open>errors="coerce"\<close> returns a datetime column of the same length, and \<open>str.lower\<close> is
  idempotent and commutes with \<open>str.strip\<close>.\<close>

definition coerces_dates :: "pandas \<Rightarrow> bool" where
  "coerces_dates L =
     (\<forall>col. length (parse_dates L col) = length col \<and> list_all is_datetime (parse_dates L col))"

definition lower_stable :: "pandas \<Rightarrow> bool" where
  "lower_stable L =
     ((\<forall>s. str_lower L (str_lower L s) = str_lower L s)
      \<and> (\<forall>s. str_lower L (strip s) = strip (str_lower L s)))"

text \<open>The series \<open>df[c]\<close> (empty when there is no such column), and a column name that
  occurs exactly once.\<close>

definition column :: "name \<Rightarrow> frame \<Rightarrow> cell list" where
  "column c df = (case col_pos c (columns df) of None \<Rightarrow> [] | Some j \<Rightarrow> col_values j (rows df))"

definition has_col :: "name \<Rightarrow> frame \<Rightarrow> bool" where
  "has_col c df = (count_list (columns df) c = 1)"

text \<open>One round of the loop of \<open>_fill_numeric_by_group_median\<close>.\<close>

definition fill_one :: "name \<Rightarrow> name \<Rightarrow> frame \<Rightarrow> error + frame" where
  "fill_one group_col col df =
     (case get_col ValueError group_col df of
        Inl e \<Rightarrow> Inl e
      | Inr keys \<Rightarrow> map_col ValueError (group_median_fill keys) col df)"

text \<open>
  A statement of a cleaner after the renaming, described for the proofs: the statement
  itself, the one column it assigns to, a property of the frame that it brings about, and
  the columns that this property is about.
\<close>

record stmt =
  run :: "frame \<Rightarrow> error + frame"
  target :: name
  post :: "frame \<Rightarrow> bool"
  reads :: "name list"

text \<open>
  The statement \<open>f\<close> changes nothing but column \<open>c\<close>; it brings about \<open>I\<close>; on a frame with
  \<open>I\<close> it changes nothing; it keeps \<open>I\<close>; \<open>I\<close> is about the columns \<open>cs\<close> only; and
  \<open>drop_duplicates\<close> keeps \<open>I\<close>.
\<close>

definition writes_only :: "(frame \<Rightarrow> error + frame) \<Rightarrow> name \<Rightarrow> bool" where
  "writes_only f c =
     (\<forall>x y. wf_frame x \<and> f x = Inr y \<longrightarrow>
        wf_frame y \<and> columns y = columns x \<and> (\<forall>c'. c' \<noteq> c \<longrightarrow> column c' y = column c' x))"

definition establishes :: "(frame \<Rightarrow> error + frame) \<Rightarrow> (frame \<Rightarrow> bool) \<Rightarrow> bool" where
  "establishes f I = (\<forall>x y. wf_frame x \<and> f x = Inr y \<longrightarrow> I y)"

definition fixed_by :: "(frame \<Rightarrow> error + frame) \<Rightarrow> (frame \<Rightarrow> bool) \<Rightarrow> bool" where
  "fixed_by f I = (\<forall>x. wf_frame x \<and> I x \<longrightarrow> f x = Inr x)"

definition preserves :: "(frame \<Rightarrow> error + frame) \<Rightarrow> (frame \<Rightarrow> bool) \<Rightarrow> bool" where
  "preserves f I = (\<forall>x y. wf_frame x \<and> I x \<and> f x = Inr y \<longrightarrow> I y)"

definition depends_on :: "(frame \<Rightarrow> bool) \<Rightarrow> name list \<Rightarrow> bool" where
  "depends_on I cs =
     (\<forall>x y. columns y = columns x \<and> (\<forall>c \<in> set cs. column c y = column c x) \<and> I x \<longrightarrow> I y)"

definition survives_dedup :: "(frame \<Rightarrow> bool) \<Rightarrow> bool" where
  "survives_dedup I = (\<forall>x. wf_frame x \<and> I x \<longrightarrow> I (drop_duplicates x))"

definition sound :: "stmt \<Rightarrow> bool" where
  "sound d =
     (writes_only (run d) (target d) \<and> establishes (run d) (post d) \<and> fixed_by (run d) (post d)
      \<and> depends_on (post d) (reads d) \<and> survives_dedup (post d))"

text \<open>In a sequence of statements, a later statement either assigns to a column that the
  property of an earlier one is not about, or keeps that property.\<close>

fun ordered :: "stmt list \<Rightarrow> bool" where
  "ordered [] = True"
| "ordered (d # ds) =
     (list_all (\<lambda>e. target e \<notin> set (reads d) \<or> preserves (run e) (post d)) ds \<and> ordered ds)"

text \<open>\<open>df[c] = F(df[c])\<close>, after which every cell of the column has the property \<open>P\<close>.\<close>

definition cells :: "(cell \<Rightarrow> bool) \<Rightarrow> name \<Rightarrow> frame \<Rightarrow> bool" where
  "cells P c df = (has_col c df \<and> list_all P (column c df))"

definition cell_stmt :: "error \<Rightarrow> (cell list \<Rightarrow> cell list) \<Rightarrow> (cell \<Rightarrow> bool) \<Rightarrow> name \<Rightarrow> stmt" where
  "cell_stmt dup F P c = \<lparr>run = map_col dup F c, target = c, post = cells P c, reads = [c]\<rparr>"

text \<open>The filling with the overall median, after which a column with a missing cell has
  no number at all.\<close>

definition settled :: "name \<Rightarrow> frame \<Rightarrow> bool" where
  "settled c df =
     (has_col c df
      \<and> (\<forall>v \<in> set (column c df). isna v \<longrightarrow> (\<forall>v' \<in> set (column c df). \<not> is_num v')))"

definition median_stmt :: "name \<Rightarrow> stmt" where
  "median_stmt c =
     \<lparr>run = map_col ValueError fill_overall_median c, target = c, post = settled c, reads = [c]\<rparr>"

text \<open>The filling with the median of the group, after which a row without a key has NaN,
  and a row with a key has a missing cell only if no row of that key has a number.\<close>

definition settled_pairs :: "(cell \<times> cell) set \<Rightarrow> bool" where
  "settled_pairs S =
     (\<forall>p \<in> S. (isna (fst p) \<longrightarrow> snd p = NaN)
        \<and> (\<not> isna (fst p) \<and> isna (snd p) \<longrightarrow> (\<forall>q \<in> S. fst q = fst p \<longrightarrow> \<not> is_num (snd q))))"

definition group_settled :: "name \<Rightarrow> name \<Rightarrow> frame \<Rightarrow> bool" where
  "group_settled g c df =
     (has_col g df \<and> has_col c df \<and> settled_pairs (set (zip (column g df) (column c df))))"

definition group_stmt :: "name \<Rightarrow> name \<Rightarrow> stmt" where
  "group_stmt g c = \<lparr>run = fill_one g c, target = c, post = group_settled g c, reads = [g, c]\<rparr>"

text \<open>Routes under their Russian headers, carriers and delays, each with the frame that
  its cleaner makes of it; the second route and the second carrier repeat the first.\<close>

definition ex_routes_frame :: frame where
  "ex_routes_frame =
     \<lparr>columns = map fst routes_rename_map,
      rows = [(0, [Num 1, Str (nm '' Ufa''), Str (nm ''PERM ''), Str (nm ''7''), Num 2, Str (nm ''x'')]),
              (1, [Num 1, Str (nm ''UFA''), Str (nm ''perm''), Num 7, Num 2, NaN])]\<rparr>"

definition ex_routes_cleaned :: frame where
  "ex_routes_cleaned =
     \<lparr>columns = [nm ''route_id'', nm ''origin'', nm ''destination'', nm ''distance'',
                 nm ''avg_time'', nm ''avg_cost''],
      rows = [(0, [Num 1, Str (nm ''ufa''), Str (nm ''perm''), Num 7, Num 2, NaN])]\<rparr>"

definition ex_carriers_frame :: frame where
  "ex_carriers_frame =
     \<lparr>columns = [nm ''name'', nm ''rating'', nm ''fleet_size'', nm ''reliability''],
      rows = [(0, [Str (nm '' DHL ''), Str (nm ''4''), Num 20, NaN]),
              (1, [Str (nm ''dhl''), Num 4, Num 20, NaN])]\<rparr>"

definition ex_carriers_cleaned :: frame where
  "ex_carriers_cleaned =
     \<lparr>columns = [nm ''name'', nm ''rating'', nm ''fleet_size'', nm ''reliability''],
      rows = [(0, [Str (nm ''dhl''), Num 4, Num 20, NaN])]\<rparr>"

definition ex_delays_frame :: frame where
  "ex_delays_frame =
     \<lparr>columns = [nm ''route_id'', nm ''date'', nm ''reason'', nm ''delay_hours''],
      rows = [(0, [Num 1, Str (nm ''soon''), Str (nm '' Storm''), NaN]),
              (1, [Num 2, DateTime 5, Str (nm ''strike''), Str (nm ''3'')])]\<rparr>"

definition ex_delays_cleaned :: frame where
  "ex_delays_cleaned =
     \<lparr>columns = [nm ''route_id'', nm ''date'', nm ''reason'', nm ''delay_hours''],
      rows = [(0, [Num 1, NaT, Str (nm ''storm''), Num 0]),
              (1, [Num 2, DateTime 5, Str (nm ''strike''), Num 3])]\<rparr>"

section \<open>Loading the input files\<close>

text \<open>
  The file system maps a path to the frame that \<open>pd.read_csv\<close> reads from the file there,
  and to nothing when there is no such file.  (How cell values are written to and parsed
  from text is not modelled.)
\<close>

type_synonym filesystem = "string \<Rightarrow> frame option"

text \<open>Sequencing of statements that may raise: the first exception ends the run.\<close>

definition and_then :: "error + 'a \<Rightarrow> ('a \<Rightarrow> error + 'b) \<Rightarrow> error + 'b" where
  "and_then r f = (case r of Inl e \<Rightarrow> Inl e | Inr x \<Rightarrow> f x)"

text \<open>\<open>pd.read_csv(path)\<close> raises \<open>FileNotFoundError\<close> on a missing file.\<close>

definition read_csv :: "filesystem \<Rightarrow> string \<Rightarrow> error + frame" where
  "read_csv fs path = (case fs path of None \<Rightarrow> Inl FileNotFoundError | Some df \<Rightarrow> Inr df)"

text \<open>\<open>data_cleaning._load_csv\<close>.\<close>

definition load_csv :: "filesystem \<Rightarrow> string \<Rightarrow> error + frame" where
  "load_csv fs filename =
     (let path = ''data/'' @ filename
      in if fs path = None then Inl FileNotFoundError else read_csv fs path)"

text \<open>\<open>_load_clean\<close> of \<open>advanced_analysis\<close> and of \<open>analysis_visuals\<close>.\<close>

definition load_clean :: "filesystem \<Rightarrow> string \<Rightarrow> error + frame" where
  "load_clean fs name =
     (let path = ''cleaned_data/'' @ name
      in if fs path = None then Inl FileNotFoundError else read_csv fs path)"

text \<open>\<open>df.to_csv(path, index=False)\<close>: the index is not written, so the file reads back with
  a fresh one.\<close>

definition to_csv :: "frame \<Rightarrow> string \<Rightarrow> filesystem \<Rightarrow> filesystem" where
  "to_csv df path fs = fs(path \<mapsto> df\<lparr>rows := zip [0..<length (rows df)] (map snd (rows df))\<rparr>)"

text \<open>\<open>data_cleaning.main\<close>: the result is the file system with the cleaned files written,
  or the exception that ended the run.\<close>

definition data_cleaning_main :: "pandas \<Rightarrow> filesystem \<Rightarrow> error + filesystem" where
  "data_cleaning_main L fs =
     and_then (load_csv fs ''shipments.csv'') (\<lambda>raw1.
      and_then (clean_shipments L raw1) (\<lambda>shipments_df.
      and_then (load_csv fs ''routes.csv'') (\<lambda>raw2.
      and_then (clean_routes L raw2) (\<lambda>routes_df.
      and_then (load_csv fs ''warehouses.csv'') (\<lambda>raw3.
      and_then (clean_warehouses L raw3) (\<lambda>warehouses_df.
      and_then (load_csv fs ''carriers.csv'') (\<lambda>raw4.
      and_then (clean_carriers L raw4) (\<lambda>carriers_df.
      and_then (load_csv fs ''delays.csv'') (\<lambda>raw5.
      and_then (clean_delays L raw5) (\<lambda>delays_df.
        Inr (to_csv delays_df ''cleaned_data/delays_clean.csv''
            (to_csv carriers_df ''cleaned_data/carriers_clean.csv''
            (to_csv warehouses_df ''cleaned_data/warehouses_clean.csv''
            (to_csv routes_df ''cleaned_data/routes_clean.csv''
            (to_csv shipments_df ''cleaned_data/shipments_clean.csv'' fs)))))))))))))))"

text \<open>\<open>advanced_analysis.main\<close> and \<open>analysis_visuals.main\<close>: everything after the loads is
  the parameter \<open>analyses\<close>.\<close>

definition advanced_analysis_main ::
  "(frame \<Rightarrow> frame \<Rightarrow> frame \<Rightarrow> error + 'a) \<Rightarrow> filesystem \<Rightarrow> error + 'a" where
  "advanced_analysis_main analyses fs =
     and_then (load_clean fs ''shipments_clean.csv'') (\<lambda>shipments_df.
      and_then (load_clean fs ''delays_clean.csv'') (\<lambda>delays_df.
      and_then (load_clean fs ''routes_clean.csv'') (\<lambda>routes_df.
        analyses shipments_df delays_df routes_df)))"

definition analysis_visuals_main ::
  "(frame \<Rightarrow> frame \<Rightarrow> error + 'a) \<Rightarrow> filesystem \<Rightarrow> error + 'a" where
  "analysis_visuals_main plots fs =
     and_then (load_clean fs ''shipments_clean.csv'') (\<lambda>shipments_df.
      and_then (load_clean fs ''delays_clean.csv'') (\<lambda>delays_df.
        plots shipments_df delays_df))"

text \<open>The script \<open>route_clustering\<close>: the check of \<open>routes_path\<close>, then the rest.\<close>

definition route_clustering_script :: "(frame \<Rightarrow> error + 'a) \<Rightarrow> filesystem \<Rightarrow> error + 'a" where
  "route_clustering_script rest fs =
     (let routes_path = ''cleaned_data/routes_clean.csv''
      in if fs routes_path = None then Inl FileNotFoundError
         else and_then (read_csv fs routes_path) rest)"

text \<open>\<open>final_analysis_report.load_and_prepare_data\<close>: five reads, then the date and delay
  columns (the parameter \<open>prepare\<close>).\<close>

definition load_and_prepare_data ::
  "(frame \<Rightarrow> error + frame) \<Rightarrow> filesystem \<Rightarrow> error + frame \<times> frame \<times> frame \<times> frame \<times> frame" where
  "load_and_prepare_data prepare fs =
     and_then (read_csv fs ''./data/shipments.csv'') (\<lambda>shipments.
      and_then (read_csv fs ''./data/routes.csv'') (\<lambda>routes.
      and_then (read_csv fs ''./data/carriers.csv'') (\<lambda>carriers.
      and_then (read_csv fs ''./data/warehouses.csv'') (\<lambda>warehouses.
      and_then (read_csv fs ''./data/delays.csv'') (\<lambda>delays.
      and_then (prepare shipments) (\<lambda>shipments'.
        Inr (shipments', routes, carriers, warehouses, delays)))))))"

text \<open>The class \<open>LogisticsAnalyzer\<close>.\<close>

record analyzer =
  data_path :: string
  an_shipments :: "frame option"
  an_routes :: "frame option"
  an_carriers :: "frame option"
  an_warehouses :: "frame option"
  an_delays :: "frame option"

definition new_analyzer :: "string \<Rightarrow> analyzer" where
  "new_analyzer path =
     \<lparr>data_path = path, an_shipments = None, an_routes = None, an_carriers = None,
      an_warehouses = None, an_delays = None\<rparr>"

text \<open>
  \<open>load_data\<close>: the whole body is inside \<open>try ... except Exception\<close>, so any exception ends
  it with the attributes assigned so far and the result \<open>False\<close>.  \<open>dates\<close> stands for the
  four \<open>pd.to_datetime\<close> assignments, which may raise.
\<close>

definition load_data ::
  "(frame \<Rightarrow> frame \<Rightarrow> error + frame \<times> frame) \<Rightarrow> filesystem \<Rightarrow> analyzer \<Rightarrow> analyzer \<times> bool" where
  "load_data dates fs self =
     (case read_csv fs (data_path self @ ''shipments.csv'') of Inl e \<Rightarrow> (self, False) | Inr d1 \<Rightarrow>
     (let self1 = self\<lparr>an_shipments := Some d1\<rparr> in
     (case read_csv fs (data_path self @ ''routes.csv'') of Inl e \<Rightarrow> (self1, False) | Inr d2 \<Rightarrow>
     (let self2 = self1\<lparr>an_routes := Some d2\<rparr> in
     (case read_csv fs (data_path self @ ''carriers.csv'') of Inl e \<Rightarrow> (self2, False) | Inr d3 \<Rightarrow>
     (let self3 = self2\<lparr>an_carriers := Some d3\<rparr> in
     (case read_csv fs (data_path self @ ''warehouses.csv'') of Inl e \<Rightarrow> (self3, False) | Inr d4 \<Rightarrow>
     (let self4 = self3\<lparr>an_warehouses := Some d4\<rparr> in
     (case read_csv fs (data_path self @ ''delays.csv'') of Inl e \<Rightarrow> (self4, False) | Inr d5 \<Rightarrow>
     (let self5 = self4\<lparr>an_delays := Some d5\<rparr> in
     (case dates d1 d5 of
        Inl e \<Rightarrow> (self5, False)
      | Inr (d1', d5') \<Rightarrow> (self5\<lparr>an_shipments := Some d1', an_delays := Some d5'\<rparr>, True))))))))))))"

text \<open>\<open>get_data_summary\<close>: without shipments it prints a hint and returns \<open>None\<close>.\<close>

definition get_data_summary :: "(analyzer \<Rightarrow> 's) \<Rightarrow> analyzer \<Rightarrow> 's option" where
  "get_data_summary summarize self =
     (if an_shipments self = None then None else Some (summarize self))"

definition no_files :: filesystem where
  "no_files = (\<lambda>path. None)"

definition raw_files :: "string list" where
  "raw_files = [''shipments.csv'', ''routes.csv'', ''warehouses.csv'', ''carriers.csv'', ''delays.csv'']"
section \<open>Theorems\<close>

lemma delay_hours_column_length:
  "delay_hours_column ss = Inr vs \<Longrightarrow> length vs = length ss"
  by (induction ss arbitrary: vs) (auto split: sum.splits)

lemma delay_hours_column_nth:
  "delay_hours_column ss = Inr vs \<Longrightarrow> i < length ss \<Longrightarrow> delay_hours_of (ss ! i) = Inr (vs ! i)"
proof (induction ss arbitrary: vs i)
  case Nil
  then show ?case by simp
next
  case (Cons s ss)
  then show ?case by (cases i) (auto split: sum.splits)
qed

lemma delay_hours_of_value:
  assumes "delay_hours_of s = Inr v"
  shows "(\<forall>a p. actual_delivery s = Some a \<and> planned_delivery s = Some p \<longrightarrow>
            v = Some (max 0 (real_of_int (a - p) / 1000000000 / 3600)))
       \<and> (actual_delivery s = None \<or> planned_delivery s = None \<longrightarrow> v = None)"
  using assms
  by (auto simp: delay_hours_of_def sub_datetime_def clip_lower_def total_hours_def
      split: option.splits if_splits sum.splits)

lemma delay_hours_column_total:
  assumes "\<forall>s \<in> set ss. \<forall>a p. actual_delivery s = Some a \<and> planned_delivery s = Some p
             \<longrightarrow> - (2 ^ 63) < a - p \<and> a - p < 2 ^ 63"
  shows "\<exists>vs. delay_hours_column ss = Inr vs"
  using assms
proof (induction ss)
  case Nil
  then show ?case by simp
next
  case (Cons s ss)
  then obtain vs where vs: "delay_hours_column ss = Inr vs" by auto
  from Cons.prems have "\<exists>v. delay_hours_of s = Inr v"
    by (auto simp: delay_hours_of_def sub_datetime_def split: option.splits)
  with vs show ?case by auto
qed

lemma delay_row:
  assumes dv: "delay_hours_of s = Inr v"
  shows "(\<forall>a p. actual_delivery s = Some a \<and> planned_delivery s = Some p \<longrightarrow>
                 v = Some (max 0 (real_of_int (a - p) / 1000000000 / 3600))) \<and>
              (actual_delivery s = None \<or> planned_delivery s = None \<longrightarrow> v = None) \<and>
              \<not> lt_num v (Some 0) \<and>
              (\<forall>a p. actual_delivery s = Some a \<and> planned_delivery s = Some p \<and> a \<le> p \<longrightarrow>
                 v = Some 0)"
proof -
  note val = delay_hours_of_value [OF dv]
  have nonneg: "\<not> lt_num v (Some 0)"
    using val by (cases "actual_delivery s"; cases "planned_delivery s") (auto simp: lt_num_def)
  have early: "v = Some 0" if h: "actual_delivery s = Some a" "planned_delivery s = Some p" "a \<le> p" for a p
  proof -
    from h have "real_of_int (a - p) / 1000000000 / 3600 \<le> 0"
      by (simp add: divide_le_0_iff)
    moreover from val h have "v = Some (max 0 (real_of_int (a - p) / 1000000000 / 3600))" by blast
    ultimately show "v = Some 0" by (simp add: max_def)
  qed
  show ?thesis
    apply (intro conjI)
    using val apply blast
    using val apply blast
    using nonneg apply assumption
    using early apply blast
    done
qed


text \<open>
  C6.  Whenever the timestamp differences fit the timedelta range, the delay step returns a
  column with one entry per shipment; the entry is the difference between actual and planned
  delivery in hours clipped at zero (missing when either timestamp is missing), it is never
  negative, and it is zero for every shipment delivered on time or early.
\<close>

theorem delay_hours_clipped_at_zero:
  assumes "\<forall>s \<in> set ss. \<forall>a p. actual_delivery s = Some a \<and> planned_delivery s = Some p
             \<longrightarrow> - (2 ^ 63) < a - p \<and> a - p < 2 ^ 63"
  shows "\<exists>vs. delay_hours_column ss = Inr vs \<and> length vs = length ss \<and>
           (\<forall>i < length ss.
              (\<forall>a p. actual_delivery (ss ! i) = Some a \<and> planned_delivery (ss ! i) = Some p \<longrightarrow>
                 vs ! i = Some (max 0 (real_of_int (a - p) / 1000000000 / 3600))) \<and>
              (actual_delivery (ss ! i) = None \<or> planned_delivery (ss ! i) = None \<longrightarrow> vs ! i = None) \<and>
              \<not> lt_num (vs ! i) (Some 0) \<and>
              (\<forall>a p. actual_delivery (ss ! i) = Some a \<and> planned_delivery (ss ! i) = Some p \<and> a \<le> p \<longrightarrow>
                 vs ! i = Some 0))"
proof -
  from delay_hours_column_total [OF assms] obtain vs where vs: "delay_hours_column ss = Inr vs" ..
  have len: "length vs = length ss" by (rule delay_hours_column_length [OF vs])
  show ?thesis
    apply (rule exI [of _ vs])
    apply (rule conjI, rule vs)
    apply (rule conjI, rule len)
    apply (rule allI, rule impI)
    apply (rule delay_row [OF delay_hours_column_nth [OF vs]])
    apply assumption
    done
qed

theorem delay_hours_clipped_at_zero_witness:
  "\<exists>vs. delay_hours_column example_shipments = Inr vs \<and> vs ! 0 = Some 0 \<and> vs ! 1 = Some 2 \<and> vs ! 2 = None"
proof -
  have h: "\<forall>s \<in> set example_shipments. \<forall>a p. actual_delivery s = Some a \<and> planned_delivery s = Some p
             \<longrightarrow> - (2 ^ 63) < a - p \<and> a - p < 2 ^ 63"
    by (simp add: example_shipments_def)
  from delay_hours_clipped_at_zero [OF h] obtain vs where
    vs: "delay_hours_column example_shipments = Inr vs" and
    all: "\<forall>i < length example_shipments.
              (\<forall>a p. actual_delivery (example_shipments ! i) = Some a \<and> planned_delivery (example_shipments ! i) = Some p \<longrightarrow>
                 vs ! i = Some (max 0 (real_of_int (a - p) / 1000000000 / 3600))) \<and>
              (actual_delivery (example_shipments ! i) = None \<or> planned_delivery (example_shipments ! i) = None \<longrightarrow> vs ! i = None) \<and>
              \<not> lt_num (vs ! i) (Some 0) \<and>
              (\<forall>a p. actual_delivery (example_shipments ! i) = Some a \<and> planned_delivery (example_shipments ! i) = Some p \<and> a \<le> p \<longrightarrow>
                 vs ! i = Some 0)"
    by blast
  from all [rule_format, of 0] have v0: "vs ! 0 = Some 0" by (simp add: example_shipments_def)
  from all [rule_format, of 1] have v1: "vs ! 1 = Some 2" by (simp add: example_shipments_def)
  from all [rule_format, of 2] have v2: "vs ! 2 = None" by (simp add: example_shipments_def)
  from vs v0 v1 v2 show ?thesis by blast
qed

lemma present_simps:
  "present [] = []"
  "present (None # xs) = present xs"
  "present (Some x # xs) = x # present xs"
  by (simp_all add: present_def List.map_filter_def)

lemmas eval_defs = group_keys_def present_simps group_rows_def mean_skipna_def
  count_notna_def first_skipna_def round2_def round_half_even_def div_num_def quantile_def
  gt_num_def ge_num_def lt_num_def desc_key_def Let_def

lemma ex_route_metrics:
  "route_metrics ex_shipments ex_routes =
     [\<lparr>rm_route_id = 1, rm_avg_delay = Some 10, rm_shipment_count = 1,
      rm_avg_cost = Some 100, rm_distance = Some 100,
      rm_cost_per_km = Some 1, rm_efficiency_score = Some (1 / 11)\<rparr>,
   \<lparr>rm_route_id = 2, rm_avg_delay = Some 0, rm_shipment_count = 1,
      rm_avg_cost = Some 200, rm_distance = Some 100,
      rm_cost_per_km = Some 2, rm_efficiency_score = Some 1\<rparr>]"
  by (simp add: route_metrics_def ex_shipments_def ex_routes_def merge_on_def eval_defs)

lemma ex_combined:
  "combined ex_costs ex_delays =
     [\<lparr>route_id = 1, avg_cost = Some 10, avg_delay = Some 1\<rparr>,
      \<lparr>route_id = 2, avg_cost = Some 20, avg_delay = Some 5\<rparr>,
      \<lparr>route_id = 3, avg_cost = Some 30, avg_delay = Some 9\<rparr>]"
  by (simp add: combined_def dropna_agg_def concat_axis1_def groupby_mean_def lookup_agg_def
      ex_costs_def ex_delays_def eval_defs)

lemma ex_inefficient:
  "inefficient_routes ex_costs ex_delays = [\<lparr>route_id = 3, avg_cost = Some 30, avg_delay = Some 9\<rparr>]"
  by (simp add: inefficient_routes_def ex_combined eval_defs)

text \<open>
  C2, as stated, fails for \<open>analyze_route_efficiency\<close>: its filter joins the two
  conditions with \<open>|\<close>, so route 1 below is reported although its cost per kilometre (1)
  does not exceed the 80th percentile (1.8).
\<close>

theorem problematic_routes_counterexample:
  "\<lparr>rm_route_id = 1, rm_avg_delay = Some 10, rm_shipment_count = 1,
      rm_avg_cost = Some 100, rm_distance = Some 100,
      rm_cost_per_km = Some 1, rm_efficiency_score = Some (1 / 11)\<rparr>
     \<in> set (snd (analyze_route_efficiency ex_shipments ex_routes))
   \<and> \<not> gt_num (Some 1)
          (quantile (4 / 5) (map rm_cost_per_km (fst (analyze_route_efficiency ex_shipments ex_routes))))"
  by (simp add: analyze_route_efficiency_def problematic_routes_def ex_route_metrics eval_defs)

text \<open>
  C2, amended.  Every route returned by \<open>inefficient_routes\<close> is a row of the aggregated
  table whose average cost and average delay both strictly exceed the 75th percentiles of
  that table; every route returned as problematic by \<open>analyze_route_efficiency\<close> is a row
  of \<open>route_metrics\<close> that strictly exceeds the 80th percentile in at least one of
  average delay and cost per kilometre.
\<close>

theorem quantile_filters_exceed_thresholds:
  "(\<forall>r \<in> set (inefficient_routes shipments_df delays_df).
      r \<in> set (combined shipments_df delays_df)
      \<and> gt_num (avg_cost r) (quantile (3 / 4) (map avg_cost (combined shipments_df delays_df)))
      \<and> gt_num (avg_delay r) (quantile (3 / 4) (map avg_delay (combined shipments_df delays_df))))
   \<and> (\<forall>r \<in> set (snd (analyze_route_efficiency shipments routes)).
      r \<in> set (fst (analyze_route_efficiency shipments routes))
      \<and> (gt_num (rm_avg_delay r)
            (quantile (4 / 5) (map rm_avg_delay (fst (analyze_route_efficiency shipments routes))))
         \<or> gt_num (rm_cost_per_km r)
            (quantile (4 / 5) (map rm_cost_per_km (fst (analyze_route_efficiency shipments routes))))))"
proof (rule conjI)
  show "\<forall>r \<in> set (inefficient_routes shipments_df delays_df).
      r \<in> set (combined shipments_df delays_df)
      \<and> gt_num (avg_cost r) (quantile (3 / 4) (map avg_cost (combined shipments_df delays_df)))
      \<and> gt_num (avg_delay r) (quantile (3 / 4) (map avg_delay (combined shipments_df delays_df)))"
    by (simp add: inefficient_routes_def Let_def)
next
  show "\<forall>r \<in> set (snd (analyze_route_efficiency shipments routes)).
      r \<in> set (fst (analyze_route_efficiency shipments routes))
      \<and> (gt_num (rm_avg_delay r)
            (quantile (4 / 5) (map rm_avg_delay (fst (analyze_route_efficiency shipments routes))))
         \<or> gt_num (rm_cost_per_km r)
            (quantile (4 / 5) (map rm_cost_per_km (fst (analyze_route_efficiency shipments routes)))))"
    by (simp add: analyze_route_efficiency_def problematic_routes_def Let_def)
qed

theorem quantile_filters_exceed_thresholds_witness:
  "gt_num (Some 30) (quantile (3 / 4) (map avg_cost (combined ex_costs ex_delays)))
   \<and> gt_num (Some 9) (quantile (3 / 4) (map avg_delay (combined ex_costs ex_delays)))
   \<and> (gt_num (Some 10)
         (quantile (4 / 5) (map rm_avg_delay (fst (analyze_route_efficiency ex_shipments ex_routes))))
      \<or> gt_num (Some 1)
         (quantile (4 / 5) (map rm_cost_per_km (fst (analyze_route_efficiency ex_shipments ex_routes)))))"
proof -
  let ?r = "\<lparr>route_id = 3, avg_cost = Some 30, avg_delay = Some 9\<rparr>"
  let ?m = "\<lparr>rm_route_id = 1, rm_avg_delay = Some 10, rm_shipment_count = 1,
      rm_avg_cost = Some 100, rm_distance = Some 100,
      rm_cost_per_km = Some 1, rm_efficiency_score = Some (1 / 11)\<rparr>"
  have a: "?r \<in> set (inefficient_routes ex_costs ex_delays)"
    by (simp add: ex_inefficient)
  have b: "?m \<in> set (snd (analyze_route_efficiency ex_shipments ex_routes))"
    by (simp add: analyze_route_efficiency_def problematic_routes_def ex_route_metrics eval_defs)
  note t = quantile_filters_exceed_thresholds [of ex_costs ex_delays ex_shipments ex_routes]
  from t a have "gt_num (avg_cost ?r) (quantile (3 / 4) (map avg_cost (combined ex_costs ex_delays)))
      \<and> gt_num (avg_delay ?r) (quantile (3 / 4) (map avg_delay (combined ex_costs ex_delays)))"
    by blast
  moreover from t b have "gt_num (rm_avg_delay ?m)
            (quantile (4 / 5) (map rm_avg_delay (fst (analyze_route_efficiency ex_shipments ex_routes))))
         \<or> gt_num (rm_cost_per_km ?m)
            (quantile (4 / 5) (map rm_cost_per_km (fst (analyze_route_efficiency ex_shipments ex_routes))))"
    by blast
  ultimately show ?thesis by simp
qed

lemma quantile_present:
  assumes "Some x \<in> set xs"
  shows "\<exists>t. quantile q xs = Some t"
proof -
  from assms have "x \<in> set (present xs)"
    by (auto simp: present_def List.map_filter_def intro!: image_eqI [where x = "Some x"])
  then have "x \<in> set (sort (present xs))" by simp
  then have "sort (present xs) \<noteq> []" by force
  then show ?thesis by (simp add: quantile_def Let_def)
qed

lemma cluster_of_present:
  "cluster_of (Some ct) (Some dt) r \<in> set cluster_choices"
  if "rm_avg_cost r = Some c" "rm_avg_delay r = Some d"
  using that by (auto simp: cluster_of_def cluster_choices_def ge_num_def lt_num_def)

lemma zip_snd_all:
  assumes "\<forall>l \<in> set ls. P l"
  shows "\<forall>p \<in> set (zip rs ls). P (snd p)"
proof
  fix p assume "p \<in> set (zip rs ls)"
  then have "(fst p, snd p) \<in> set (zip rs ls)" by simp
  then have "snd p \<in> set ls" by (rule set_zip_rightD)
  with assms show "P (snd p)" by blast
qed

lemma nearest_lt:
  "centers \<noteq> [] \<Longrightarrow> nearest centers x < length centers"
proof -
  assume a: "centers \<noteq> []"
  then have "[0..<length centers] \<noteq> []" by simp
  from arg_min_list_in [OF this, of "\<lambda>i. sqdist x (centers ! i)"]
  show ?thesis using a by (simp add: nearest_def)
qed

lemma ex_undelivered_metrics:
  "route_metrics ex_undelivered ex_routes =
     [\<lparr>rm_route_id = 1, rm_avg_delay = None, rm_shipment_count = 0,
      rm_avg_cost = Some 100, rm_distance = Some 100,
      rm_cost_per_km = Some 1, rm_efficiency_score = None\<rparr>,
   \<lparr>rm_route_id = 2, rm_avg_delay = Some 0, rm_shipment_count = 1,
      rm_avg_cost = Some 200, rm_distance = Some 100,
      rm_cost_per_km = Some 2, rm_efficiency_score = Some 1\<rparr>]"
  by (simp add: route_metrics_def ex_undelivered_def ex_routes_def merge_on_def eval_defs)

lemma ex_route_clustering:
  "route_clustering (\<lambda>X. X) (\<lambda>X. ex_centers) ex_clean_routes =
     Inr [(\<lparr>distance = Some 0, avg_time = Some 0, cr_avg_cost = Some 1\<rparr>, 0),
          (\<lparr>distance = Some 1, avg_time = Some 1, cr_avg_cost = Some 2\<rparr>, 1),
          (\<lparr>distance = Some 5, avg_time = Some 6, cr_avg_cost = Some 5\<rparr>, 2)]"
  by (simp add: route_clustering_def kmeans_fit_predict_def N_CLUSTERS_def ex_clean_routes_def
      ex_centers_def nearest_def sqdist_def present_simps upt_rec numeral_2_eq_2 numeral_3_eq_3 Let_def)

lemma cluster_of_missing:
  "rm_avg_cost r = None \<or> rm_avg_delay r = None \<Longrightarrow> cluster_of ct dt r = ''Other''"
  by (auto simp: cluster_of_def cluster_choices_def ge_num_def lt_num_def)

text \<open>
  C8, as stated, fails in both scripts.  In the report, a route whose shipments have no
  recorded delay has a missing \<open>avg_delay\<close>, every comparison with it is false, and
  \<open>np.select\<close> gives the default \<open>Other\<close>.  In the clustering script, \<open>dropna\<close> removes the
  routes with a missing feature before the clustering: of the four sample routes the third
  has no \<open>avg_time\<close> and receives no label at all.
\<close>

theorem cluster_other_counterexample:
  "cluster_column (route_metrics ex_undelivered ex_routes) = [''Other'', ''High Cost + High Delay'']
   \<and> length ex_clean_routes = 4
   \<and> route_clustering (\<lambda>X. X) (\<lambda>X. ex_centers) ex_clean_routes =
       Inr [(\<lparr>distance = Some 0, avg_time = Some 0, cr_avg_cost = Some 1\<rparr>, 0),
            (\<lparr>distance = Some 1, avg_time = Some 1, cr_avg_cost = Some 2\<rparr>, 1),
            (\<lparr>distance = Some 5, avg_time = Some 6, cr_avg_cost = Some 5\<rparr>, 2)]"
proof (intro conjI)
  show "cluster_column (route_metrics ex_undelivered ex_routes) = [''Other'', ''High Cost + High Delay'']"
    by (simp add: ex_undelivered_metrics cluster_column_def cluster_of_def cluster_choices_def eval_defs)
  show "length ex_clean_routes = 4" by (simp add: ex_clean_routes_def)
  show "route_clustering (\<lambda>X. X) (\<lambda>X. ex_centers) ex_clean_routes =
       Inr [(\<lparr>distance = Some 0, avg_time = Some 0, cr_avg_cost = Some 1\<rparr>, 0),
            (\<lparr>distance = Some 1, avg_time = Some 1, cr_avg_cost = Some 2\<rparr>, 1),
            (\<lparr>distance = Some 5, avg_time = Some 6, cr_avg_cost = Some 5\<rparr>, 2)]"
    by (rule ex_route_clustering)
qed

text \<open>
  C8, amended.  \<open>generate_clustering_insights\<close> labels every route: a route whose average
  cost and average delay are both present receives one of the four quartile labels and not
  \<open>Other\<close>, and a route with a missing average cost or average delay receives \<open>Other\<close>.
  In the clustering script, provided the scaler returns one row for each row it is given and
  the fitted model has three centres: with fewer than three routes that have all three
  features the run ends in \<open>ValueError\<close>; otherwise exactly the routes that have all three
  features are labelled, in their order, each with a label in \<open>{0, 1, 2}\<close>.
\<close>

theorem cluster_labels_exist:
  "(length (fst (generate_clustering_insights has_id rms)) = length rms
    \<and> (\<forall>i < length rms.
         fst (fst (generate_clustering_insights has_id rms) ! i) = rms ! i
         \<and> (rm_avg_cost (rms ! i) \<noteq> None \<and> rm_avg_delay (rms ! i) \<noteq> None \<longrightarrow>
              snd (fst (generate_clustering_insights has_id rms) ! i) \<in> set cluster_choices
              \<and> snd (fst (generate_clustering_insights has_id rms) ! i) \<noteq> ''Other'')
         \<and> (rm_avg_cost (rms ! i) = None \<or> rm_avg_delay (rms ! i) = None \<longrightarrow>
              snd (fst (generate_clustering_insights has_id rms) ! i) = ''Other'')))
   \<and> ((\<forall>X. length (fit X) = N_CLUSTERS) \<and> (\<forall>X. length (scale X) = length X)
       \<longrightarrow> (length (filter (\<lambda>r. distance r \<noteq> None \<and> avg_time r \<noteq> None \<and> cr_avg_cost r \<noteq> None) routes_df) < N_CLUSTERS
              \<longrightarrow> route_clustering scale fit routes_df = Inl ValueError)
           \<and> (N_CLUSTERS \<le> length (filter (\<lambda>r. distance r \<noteq> None \<and> avg_time r \<noteq> None \<and> cr_avg_cost r \<noteq> None) routes_df)
              \<longrightarrow> (\<exists>labelled. route_clustering scale fit routes_df = Inr labelled
                    \<and> map fst labelled = filter (\<lambda>r. distance r \<noteq> None \<and> avg_time r \<noteq> None \<and> cr_avg_cost r \<noteq> None) routes_df
                    \<and> (\<forall>p \<in> set labelled. snd p \<in> {0, 1, 2}))))"
proof (intro conjI allI impI)
  show "length (fst (generate_clustering_insights has_id rms)) = length rms"
    by (simp add: generate_clustering_insights_def cluster_column_def Let_def)
next
  fix i assume "i < length rms"
  then show "fst (fst (generate_clustering_insights has_id rms) ! i) = rms ! i"
    by (simp add: generate_clustering_insights_def cluster_column_def Let_def)
next
  fix i assume i: "i < length rms"
    and p: "rm_avg_cost (rms ! i) \<noteq> None \<and> rm_avg_delay (rms ! i) \<noteq> None"
  then obtain c d where c: "rm_avg_cost (rms ! i) = Some c" and d: "rm_avg_delay (rms ! i) = Some d"
    by auto
  from c i have "Some c \<in> set (map rm_avg_cost rms)" by (metis length_map nth_map nth_mem)
  then obtain ct where ct: "quantile (3 / 4) (map rm_avg_cost rms) = Some ct"
    using quantile_present by blast
  from d i have "Some d \<in> set (map rm_avg_delay rms)" by (metis length_map nth_map nth_mem)
  then obtain dt where dt: "quantile (3 / 4) (map rm_avg_delay rms) = Some dt"
    using quantile_present by blast
  have lab: "snd (fst (generate_clustering_insights has_id rms) ! i) = cluster_of (Some ct) (Some dt) (rms ! i)"
    using i by (simp add: generate_clustering_insights_def cluster_column_def Let_def ct dt)
  from cluster_of_present [OF c d, of ct dt]
  show "snd (fst (generate_clustering_insights has_id rms) ! i) \<in> set cluster_choices"
    by (simp add: lab)
  from cluster_of_present [OF c d, of ct dt]
  show "snd (fst (generate_clustering_insights has_id rms) ! i) \<noteq> ''Other''"
    by (auto simp: lab cluster_choices_def)
next
  fix i assume i: "i < length rms"
    and m: "rm_avg_cost (rms ! i) = None \<or> rm_avg_delay (rms ! i) = None"
  have "snd (fst (generate_clustering_insights has_id rms) ! i)
          = cluster_of (quantile (3 / 4) (map rm_avg_cost rms)) (quantile (3 / 4) (map rm_avg_delay rms)) (rms ! i)"
    using i by (simp add: generate_clustering_insights_def cluster_column_def Let_def)
  also have "\<dots> = ''Other''" by (rule cluster_of_missing [OF m])
  finally show "snd (fst (generate_clustering_insights has_id rms) ! i) = ''Other''" .
next
  let ?rows = "filter (\<lambda>r. distance r \<noteq> None \<and> avg_time r \<noteq> None \<and> cr_avg_cost r \<noteq> None) routes_df"
  let ?X = "scale (map (\<lambda>r. present [distance r, avg_time r, cr_avg_cost r]) ?rows)"
  assume h: "(\<forall>X. length (fit X) = N_CLUSTERS) \<and> (\<forall>X. length (scale X) = length X)"
    and few: "length ?rows < N_CLUSTERS"
  from h have lenX: "length ?X = length ?rows" by simp
  with few have "length ?X < N_CLUSTERS" by simp
  then show "route_clustering scale fit routes_df = Inl ValueError"
    by (simp add: route_clustering_def kmeans_fit_predict_def Let_def)
next
  let ?rows = "filter (\<lambda>r. distance r \<noteq> None \<and> avg_time r \<noteq> None \<and> cr_avg_cost r \<noteq> None) routes_df"
  let ?X = "scale (map (\<lambda>r. present [distance r, avg_time r, cr_avg_cost r]) ?rows)"
  assume h: "(\<forall>X. length (fit X) = N_CLUSTERS) \<and> (\<forall>X. length (scale X) = length X)"
    and enough: "N_CLUSTERS \<le> length ?rows"
  from h have lenX: "length ?X = length ?rows" by simp
  with enough have nolt: "\<not> length ?X < N_CLUSTERS" by simp
  let ?labels = "map (nearest (fit ?X)) ?X"
  have rc: "route_clustering scale fit routes_df = Inr (zip ?rows ?labels)"
    using nolt by (simp add: route_clustering_def kmeans_fit_predict_def Let_def)
  have m: "map fst (zip ?rows ?labels) = ?rows"
    using lenX by (simp add: map_fst_zip)
  from h have lf: "length (fit ?X) = 3" by (simp add: N_CLUSTERS_def)
  then have ne: "fit ?X \<noteq> []" by auto
  have "\<forall>l \<in> set ?labels. l < 3"
    using nearest_lt [OF ne] lf by auto
  then have "\<forall>l \<in> set ?labels. l \<in> {0, 1, 2}" by auto
  then have "\<forall>p \<in> set (zip ?rows ?labels). snd p \<in> {0, 1, 2}"
    by (rule zip_snd_all)
  with rc m
  show "\<exists>labelled. route_clustering scale fit routes_df = Inr labelled
             \<and> map fst labelled = ?rows \<and> (\<forall>p \<in> set labelled. snd p \<in> {0, 1, 2})"
    by blast
qed

theorem cluster_labels_exist_witness:
  "snd (fst (generate_clustering_insights False (route_metrics ex_shipments ex_routes)) ! 0)
     \<in> set cluster_choices
   \<and> snd (fst (generate_clustering_insights False (route_metrics ex_undelivered ex_routes)) ! 0)
     = ''Other''
   \<and> route_clustering (\<lambda>X. X) (\<lambda>X. ex_centers) (take 2 ex_clean_routes) = Inl ValueError
   \<and> (\<exists>labelled. route_clustering (\<lambda>X. X) (\<lambda>X. ex_centers) ex_clean_routes = Inr labelled
        \<and> map fst labelled =
            [\<lparr>distance = Some 0, avg_time = Some 0, cr_avg_cost = Some 1\<rparr>,
             \<lparr>distance = Some 1, avg_time = Some 1, cr_avg_cost = Some 2\<rparr>,
             \<lparr>distance = Some 5, avg_time = Some 6, cr_avg_cost = Some 5\<rparr>])"
proof -
  let ?rms = "route_metrics ex_shipments ex_routes"
  let ?und = "route_metrics ex_undelivered ex_routes"
  note t = cluster_labels_exist [of False ?rms "\<lambda>X. ex_centers" "\<lambda>X. X" ex_clean_routes]
  note u = cluster_labels_exist [of False ?und "\<lambda>X. ex_centers" "\<lambda>X. X" "take 2 ex_clean_routes"]
  have i: "0 < length ?rms" by (simp add: ex_route_metrics)
  have p: "rm_avg_cost (?rms ! 0) \<noteq> None \<and> rm_avg_delay (?rms ! 0) \<noteq> None"
    by (simp add: ex_route_metrics)
  from t i p have a: "snd (fst (generate_clustering_insights False ?rms) ! 0) \<in> set cluster_choices"
    by blast
  have i': "0 < length ?und" by (simp add: ex_undelivered_metrics)
  have p': "rm_avg_cost (?und ! 0) = None \<or> rm_avg_delay (?und ! 0) = None"
    by (simp add: ex_undelivered_metrics)
  from u i' p' have a': "snd (fst (generate_clustering_insights False ?und) ! 0) = ''Other''"
    by blast
  have f: "filter (\<lambda>r. distance r \<noteq> None \<and> avg_time r \<noteq> None \<and> cr_avg_cost r \<noteq> None) ex_clean_routes
      = [\<lparr>distance = Some 0, avg_time = Some 0, cr_avg_cost = Some 1\<rparr>,
             \<lparr>distance = Some 1, avg_time = Some 1, cr_avg_cost = Some 2\<rparr>,
             \<lparr>distance = Some 5, avg_time = Some 6, cr_avg_cost = Some 5\<rparr>]"
    by (simp add: ex_clean_routes_def)
  have h: "(\<forall>X::real list list. length ((\<lambda>X. ex_centers) X) = N_CLUSTERS)
       \<and> (\<forall>X::real list list. length ((\<lambda>X. X) X) = length X)"
    by (simp add: ex_centers_def N_CLUSTERS_def)
  have enough: "N_CLUSTERS \<le> length (filter (\<lambda>r. distance r \<noteq> None \<and> avg_time r \<noteq> None \<and> cr_avg_cost r \<noteq> None) ex_clean_routes)"
    unfolding f by (simp add: N_CLUSTERS_def)
  have few: "length (filter (\<lambda>r. distance r \<noteq> None \<and> avg_time r \<noteq> None \<and> cr_avg_cost r \<noteq> None) (take 2 ex_clean_routes)) < N_CLUSTERS"
    by (simp add: ex_clean_routes_def N_CLUSTERS_def)
  from u h few have c: "route_clustering (\<lambda>X. X) (\<lambda>X. ex_centers) (take 2 ex_clean_routes) = Inl ValueError"
    by blast
  from t h enough have "\<exists>labelled. route_clustering (\<lambda>X. X) (\<lambda>X. ex_centers) ex_clean_routes = Inr labelled
             \<and> map fst labelled = filter (\<lambda>r. distance r \<noteq> None \<and> avg_time r \<noteq> None \<and> cr_avg_cost r \<noteq> None) ex_clean_routes
             \<and> (\<forall>p \<in> set labelled. snd p \<in> {0, 1, 2})"
    by blast
  then have "\<exists>labelled. route_clustering (\<lambda>X. X) (\<lambda>X. ex_centers) ex_clean_routes = Inr labelled
             \<and> map fst labelled = filter (\<lambda>r. distance r \<noteq> None \<and> avg_time r \<noteq> None \<and> cr_avg_cost r \<noteq> None) ex_clean_routes"
    by blast
  then have b: "\<exists>labelled. route_clustering (\<lambda>X. X) (\<lambda>X. ex_centers) ex_clean_routes = Inr labelled
        \<and> map fst labelled =
            [\<lparr>distance = Some 0, avg_time = Some 0, cr_avg_cost = Some 1\<rparr>,
             \<lparr>distance = Some 1, avg_time = Some 1, cr_avg_cost = Some 2\<rparr>,
             \<lparr>distance = Some 5, avg_time = Some 6, cr_avg_cost = Some 5\<rparr>]"
    unfolding f .
  from a a' c b show ?thesis by (intro conjI)
qed










lemma set_present: "set (present xs) = {x. Some x \<in> set xs}"
proof (induction xs)
  case Nil
  show ?case by (simp add: present_simps)
next
  case (Cons a xs)
  then show ?case by (cases a) (auto simp: present_simps)
qed

lemma set_unique: "set (unique xs) = set xs"
  by (simp add: unique_def)

lemma set_valid_carriers:
  "set (valid_carriers df) = {k. 30 \<le> count_list (map h_carrier_id df) (Some k)}"
proof -
  let ?ks = "map h_carrier_id df"
  have "set (valid_carriers df) = {k \<in> set (present ?ks). 30 \<le> count_list ?ks (Some k)}"
    by (auto simp: valid_carriers_def value_counts_def set_unique image_iff)
  also have "\<dots> = {k. 30 \<le> count_list ?ks (Some k)}"
  proof -
    have "Some k \<in> set ?ks" if "30 \<le> count_list ?ks (Some k)" for k
    proof (rule ccontr)
      assume "Some k \<notin> set ?ks"
      then have "count_list ?ks (Some k) = 0" by (rule count_notin)
      with that show False by simp
    qed
    then show ?thesis by (auto simp: set_present)
  qed
  finally show ?thesis .
qed

lemma count_list_filter_le:
  "count_list (map f (filter P xs)) x \<le> count_list (map f xs) x"
  by (induction xs) auto

lemma transit_hours_total:
  assumes "\<forall>r \<in> set df. \<forall>a b. h_ship_date r = Some a \<and> h_delivery_date r = Some b
             \<longrightarrow> - (2 ^ 63) < b - a \<and> b - a < 2 ^ 63"
  shows "\<exists>ts. transit_hours df = Inr ts"
  using assms
proof (induction df)
  case Nil
  then show ?case by simp
next
  case (Cons r df)
  then obtain ts where ts: "transit_hours df = Inr ts" by auto
  from Cons.prems have "\<exists>d. sub_datetime (h_delivery_date r) (h_ship_date r) = Inr d"
    by (auto simp: sub_datetime_def split: option.splits)
  with ts show ?case by auto
qed


text \<open>
  C5.  Provided the date differences fit the timedelta range: without a \<open>carrier_id\<close> column
  the step only prints a message; a carrier is among the tested groups exactly when at least
  30 of its shipments have all three fields, so only if it has at least 30 shipments; with
  fewer than two such carriers the step prints a message, returns normally and writes no
  summary; otherwise its outcome is that of the Kruskal-Wallis test, and when that returns a
  p-value the written decision is \<open>Reject H0\<close> exactly when the p-value is below 0.05.
\<close>

theorem hypothesis_testing_cutoff_and_decision:
  assumes "\<forall>r \<in> set shipments_df. \<forall>a b. h_ship_date r = Some a \<and> h_delivery_date r = Some b
             \<longrightarrow> - (2 ^ 63) < b - a \<and> b - a < 2 ^ 63"
  shows "hypothesis_testing kruskal False shipments_df
           = Inr \<lparr>printed = [CarrierColumnMissing], summary_file = None\<rparr>
       \<and> (\<forall>cid. cid \<in> set (valid_carriers (dropna_dates shipments_df))
              \<longleftrightarrow> 30 \<le> count_list (map h_carrier_id (dropna_dates shipments_df)) (Some cid))
       \<and> (\<forall>cid \<in> set (valid_carriers (dropna_dates shipments_df)).
              30 \<le> count_list (map h_carrier_id shipments_df) (Some cid))
       \<and> (length (valid_carriers (dropna_dates shipments_df)) < 2 \<longrightarrow>
            hypothesis_testing kruskal True shipments_df
              = Inr \<lparr>printed = [NotEnoughCarriers], summary_file = None\<rparr>)
       \<and> (2 \<le> length (valid_carriers (dropna_dates shipments_df)) \<longrightarrow>
            (\<exists>ts. transit_hours (dropna_dates shipments_df) = Inr ts
               \<and> (case kruskal (carrier_samples (dropna_dates shipments_df) ts
                                  (valid_carriers (dropna_dates shipments_df))) of
                    Inl e \<Rightarrow> hypothesis_testing kruskal True shipments_df = Inl e
                  | Inr (stat, pval) \<Rightarrow>
                      (\<exists>out s. hypothesis_testing kruskal True shipments_df = Inr out
                         \<and> summary_file out = Some s \<and> statistic s = stat \<and> p_value s = pval
                         \<and> (decision s = ''Reject H0'' \<longleftrightarrow> lt_num pval (Some (5 / 100)))
                         \<and> (decision s = ''Fail to reject H0'' \<longleftrightarrow> \<not> lt_num pval (Some (5 / 100)))))))"
proof -
  let ?df = "dropna_dates shipments_df"
  have sub: "set ?df \<subseteq> set shipments_df" by (auto simp: dropna_dates_def)
  with assms have "\<forall>r \<in> set ?df. \<forall>a b. h_ship_date r = Some a \<and> h_delivery_date r = Some b
             \<longrightarrow> - (2 ^ 63) < b - a \<and> b - a < 2 ^ 63"
    by blast
  from transit_hours_total [OF this] obtain ts where ts: "transit_hours ?df = Inr ts" ..
  have p1: "hypothesis_testing kruskal False shipments_df
           = Inr \<lparr>printed = [CarrierColumnMissing], summary_file = None\<rparr>"
    by (simp add: hypothesis_testing_def)
  have p2: "\<forall>cid. cid \<in> set (valid_carriers ?df) \<longleftrightarrow> 30 \<le> count_list (map h_carrier_id ?df) (Some cid)"
    by (simp add: set_valid_carriers)
  have p3: "\<forall>cid \<in> set (valid_carriers ?df). 30 \<le> count_list (map h_carrier_id shipments_df) (Some cid)"
  proof
    fix cid assume "cid \<in> set (valid_carriers ?df)"
    with p2 have "30 \<le> count_list (map h_carrier_id ?df) (Some cid)" by simp
    also have "\<dots> \<le> count_list (map h_carrier_id shipments_df) (Some cid)"
      unfolding dropna_dates_def by (rule count_list_filter_le)
    finally show "30 \<le> count_list (map h_carrier_id shipments_df) (Some cid)" .
  qed
  have len: "length (carrier_samples ?df ts (valid_carriers ?df)) = length (valid_carriers ?df)"
    by (simp add: carrier_samples_def)
  have p4: "length (valid_carriers ?df) < 2 \<longrightarrow>
            hypothesis_testing kruskal True shipments_df
              = Inr \<lparr>printed = [NotEnoughCarriers], summary_file = None\<rparr>"
    by (simp add: hypothesis_testing_def Let_def ts len)
  have p5: "2 \<le> length (valid_carriers ?df) \<longrightarrow>
            (\<exists>ts. transit_hours ?df = Inr ts
               \<and> (case kruskal (carrier_samples ?df ts (valid_carriers ?df)) of
                    Inl e \<Rightarrow> hypothesis_testing kruskal True shipments_df = Inl e
                  | Inr (stat, pval) \<Rightarrow>
                      (\<exists>out s. hypothesis_testing kruskal True shipments_df = Inr out
                         \<and> summary_file out = Some s \<and> statistic s = stat \<and> p_value s = pval
                         \<and> (decision s = ''Reject H0'' \<longleftrightarrow> lt_num pval (Some (5 / 100)))
                         \<and> (decision s = ''Fail to reject H0'' \<longleftrightarrow> \<not> lt_num pval (Some (5 / 100))))))"
  proof
    assume two: "2 \<le> length (valid_carriers ?df)"
    have "case kruskal (carrier_samples ?df ts (valid_carriers ?df)) of
                    Inl e \<Rightarrow> hypothesis_testing kruskal True shipments_df = Inl e
                  | Inr (stat, pval) \<Rightarrow>
                      (\<exists>out s. hypothesis_testing kruskal True shipments_df = Inr out
                         \<and> summary_file out = Some s \<and> statistic s = stat \<and> p_value s = pval
                         \<and> (decision s = ''Reject H0'' \<longleftrightarrow> lt_num pval (Some (5 / 100)))
                         \<and> (decision s = ''Fail to reject H0'' \<longleftrightarrow> \<not> lt_num pval (Some (5 / 100))))"
      using two by (auto simp: hypothesis_testing_def Let_def ts len split: sum.splits)
    with ts show "\<exists>ts. transit_hours ?df = Inr ts
               \<and> (case kruskal (carrier_samples ?df ts (valid_carriers ?df)) of
                    Inl e \<Rightarrow> hypothesis_testing kruskal True shipments_df = Inl e
                  | Inr (stat, pval) \<Rightarrow>
                      (\<exists>out s. hypothesis_testing kruskal True shipments_df = Inr out
                         \<and> summary_file out = Some s \<and> statistic s = stat \<and> p_value s = pval
                         \<and> (decision s = ''Reject H0'' \<longleftrightarrow> lt_num pval (Some (5 / 100)))
                         \<and> (decision s = ''Fail to reject H0'' \<longleftrightarrow> \<not> lt_num pval (Some (5 / 100)))))"
      by blast
  qed
  from p1 p2 p3 p4 p5 show ?thesis by (intro conjI)
qed


lemma ex_valid_few:
  "valid_carriers (dropna_dates (carrier_rows 1 30 5 @ carrier_rows 2 29 6)) = [1]"
  by code_simp

lemma ex_valid_two:
  "valid_carriers (dropna_dates (carrier_rows 1 30 5 @ carrier_rows 2 29 6 @ carrier_rows 3 31 7)) = [3, 1]"
  by code_simp

lemma ex_no_overflow:
  "\<forall>r \<in> set (carrier_rows c n h @ carrier_rows c' n' h' @ carrier_rows c'' n'' h'').
     \<forall>a b. h_ship_date r = Some a \<and> h_delivery_date r = Some b
       \<longrightarrow> - (2 ^ 63) < b - a \<and> b - a < 2 ^ 63"
  if "0 \<le> h" "h < 1000" "0 \<le> h'" "h' < 1000" "0 \<le> h''" "h'' < 1000"
  using that by (auto simp: carrier_rows_def)

theorem hypothesis_testing_cutoff_and_decision_witness:
  "hypothesis_testing ex_kruskal True (carrier_rows 1 30 5 @ carrier_rows 2 29 6 @ carrier_rows 3 0 7)
     = Inr \<lparr>printed = [NotEnoughCarriers], summary_file = None\<rparr>
   \<and> (\<exists>out s. hypothesis_testing ex_kruskal True (carrier_rows 1 30 5 @ carrier_rows 2 29 6 @ carrier_rows 3 31 7) = Inr out
         \<and> summary_file out = Some s \<and> decision s = ''Reject H0'')"
proof -
  let ?few = "carrier_rows 1 30 5 @ carrier_rows 2 29 6 @ carrier_rows 3 0 7"
  let ?two = "carrier_rows 1 30 5 @ carrier_rows 2 29 6 @ carrier_rows 3 31 7"
  have few_eq: "?few = carrier_rows 1 30 5 @ carrier_rows 2 29 6" by (simp add: carrier_rows_def)
  have h1: "\<forall>r \<in> set ?few. \<forall>a b. h_ship_date r = Some a \<and> h_delivery_date r = Some b
             \<longrightarrow> - (2 ^ 63) < b - a \<and> b - a < 2 ^ 63"
    by (rule ex_no_overflow) simp_all
  have h2: "\<forall>r \<in> set ?two. \<forall>a b. h_ship_date r = Some a \<and> h_delivery_date r = Some b
             \<longrightarrow> - (2 ^ 63) < b - a \<and> b - a < 2 ^ 63"
    by (rule ex_no_overflow) simp_all
  have l1: "length (valid_carriers (dropna_dates ?few)) < 2"
    unfolding few_eq ex_valid_few by simp
  have l2: "2 \<le> length (valid_carriers (dropna_dates ?two))"
    unfolding ex_valid_two by simp
  from hypothesis_testing_cutoff_and_decision [OF h1, of ex_kruskal] l1
  have a: "hypothesis_testing ex_kruskal True ?few
     = Inr \<lparr>printed = [NotEnoughCarriers], summary_file = None\<rparr>"
    by blast
  from hypothesis_testing_cutoff_and_decision [OF h2, of ex_kruskal] l2
  obtain ts where "case ex_kruskal (carrier_samples (dropna_dates ?two) ts (valid_carriers (dropna_dates ?two))) of
                    Inl e \<Rightarrow> hypothesis_testing ex_kruskal True ?two = Inl e
                  | Inr (stat, pval) \<Rightarrow>
                      (\<exists>out s. hypothesis_testing ex_kruskal True ?two = Inr out
                         \<and> summary_file out = Some s \<and> statistic s = stat \<and> p_value s = pval
                         \<and> (decision s = ''Reject H0'' \<longleftrightarrow> lt_num pval (Some (5 / 100)))
                         \<and> (decision s = ''Fail to reject H0'' \<longleftrightarrow> \<not> lt_num pval (Some (5 / 100))))"
    by blast
  then have "\<exists>out s. hypothesis_testing ex_kruskal True ?two = Inr out
                         \<and> summary_file out = Some s
                         \<and> (decision s = ''Reject H0'' \<longleftrightarrow> lt_num (Some (1 / 100)) (Some (5 / 100)))"
    by (auto simp: ex_kruskal_def)
  then have b: "\<exists>out s. hypothesis_testing ex_kruskal True ?two = Inr out
         \<and> summary_file out = Some s \<and> decision s = ''Reject H0''"
    by (simp add: lt_num_def)
  from a b show ?thesis by (rule conjI)
qed













lemmas clean_defs = rename_inplace_def rename_columns_def map_col_def get_col_def set_col_def
  col_values_def put_values_def
  drop_duplicates_def to_numeric_def to_datetime_def is_datetime_def is_space_def strip_def
  astype_str_def standardize_strings_def nums_def median_def fillna_cell_def isna_def
  group_median_fill_def fill_overall_median_def cleaner_def nm_def
  shipments_rename_map_def routes_rename_map_def warehouses_rename_map_def
  carriers_rename_map_def delays_rename_map_def

lemma steps_at_frame:
  assumes "steps_at body b s = (s', r)" "b < length s"
  shows "length s' = length s \<and> (\<forall>i. i \<noteq> b \<longrightarrow> s' ! i = s ! i)
       \<and> (case r of None \<Rightarrow> steps body (s ! b) = Inr (s' ! b) | Some e \<Rightarrow> steps body (s ! b) = Inl e)"
  using assms
proof (induction body arbitrary: s)
  case Nil
  then show ?case by simp
next
  case (Cons f fs)
  show ?case
  proof (cases "f (s ! b)")
    case (Inl e)
    with Cons.prems show ?thesis by auto
  next
    case (Inr df')
    with Cons.prems have st: "steps_at fs b (s[b := df']) = (s', r)" by simp
    from Cons.prems have b: "b < length (s[b := df'])" by simp
    from Cons.IH [OF st b] Inr Cons.prems(2) show ?thesis
      by (auto split: option.splits)
  qed
qed

lemma cleaner_at_frame:
  assumes a: "a < length s"
  shows "length s < length (fst (cleaner_at body s a))
       \<and> (\<forall>i < length s. fst (cleaner_at body s a) ! i = s ! i)
       \<and> (case snd (cleaner_at body s a) of
            Inl e \<Rightarrow> cleaner body (s ! a) = Inl e
          | Inr c \<Rightarrow> length s < c \<and> c < length (fst (cleaner_at body s a))
                     \<and> cleaner body (s ! a) = Inr (fst (cleaner_at body s a) ! c))"
proof -
  let ?s1 = "s @ [s ! a]" and ?b = "length s"
  obtain s2 r where st: "steps_at body ?b ?s1 = (s2, r)" by (cases "steps_at body ?b ?s1")
  have b: "?b < length ?s1" by simp
  note fr = steps_at_frame [OF st b]
  from fr have len2: "length s2 = Suc (length s)" by simp
  from fr have same: "\<forall>i < length s. s2 ! i = s ! i" by (auto simp: nth_append)
  show ?thesis
  proof (cases r)
    case (Some e)
    then have c: "cleaner_at body s a = (s2, Inl e)"
      by (simp add: cleaner_at_def alloc_def st)
    from fr Some have "steps body (s ! a) = Inl e" by simp
    then have "cleaner body (s ! a) = Inl e" by (simp add: cleaner_def)
    with c len2 same show ?thesis by simp
  next
    case None
    then have c: "cleaner_at body s a = (s2 @ [drop_duplicates (s2 ! ?b)], Inr (length s2))"
      by (simp add: cleaner_at_def alloc_def st)
    from fr None have "steps body (s ! a) = Inr (s2 ! ?b)" by simp
    then have "cleaner body (s ! a) = Inr (drop_duplicates (s2 ! ?b))" by (simp add: cleaner_def)
    with c len2 same show ?thesis by (simp add: nth_append)
  qed
qed


text \<open>
  C10.  Each of the five cleaners, run on a frame object of the store, leaves that object
  and every other object that existed before the call as it was, whether it returns or
  raises; what it returns is a new object, holding the cleaned frame.
\<close>

theorem cleaners_leave_input_unchanged:
  assumes "a < length s"
  shows "((\<forall>i < length s. fst (clean_shipments_at L s a) ! i = s ! i)
     \<and> (case snd (clean_shipments_at L s a) of
           Inl e \<Rightarrow> clean_shipments L (s ! a) = Inl e
         | Inr c \<Rightarrow> length s < c \<and> c < length (fst (clean_shipments_at L s a))
                    \<and> clean_shipments L (s ! a) = Inr (fst (clean_shipments_at L s a) ! c)))
   \<and> ((\<forall>i < length s. fst (clean_routes_at L s a) ! i = s ! i)
     \<and> (case snd (clean_routes_at L s a) of
           Inl e \<Rightarrow> clean_routes L (s ! a) = Inl e
         | Inr c \<Rightarrow> length s < c \<and> c < length (fst (clean_routes_at L s a))
                    \<and> clean_routes L (s ! a) = Inr (fst (clean_routes_at L s a) ! c)))
   \<and> ((\<forall>i < length s. fst (clean_warehouses_at L s a) ! i = s ! i)
     \<and> (case snd (clean_warehouses_at L s a) of
           Inl e \<Rightarrow> clean_warehouses L (s ! a) = Inl e
         | Inr c \<Rightarrow> length s < c \<and> c < length (fst (clean_warehouses_at L s a))
                    \<and> clean_warehouses L (s ! a) = Inr (fst (clean_warehouses_at L s a) ! c)))
   \<and> ((\<forall>i < length s. fst (clean_carriers_at L s a) ! i = s ! i)
     \<and> (case snd (clean_carriers_at L s a) of
           Inl e \<Rightarrow> clean_carriers L (s ! a) = Inl e
         | Inr c \<Rightarrow> length s < c \<and> c < length (fst (clean_carriers_at L s a))
                    \<and> clean_carriers L (s ! a) = Inr (fst (clean_carriers_at L s a) ! c)))
   \<and> ((\<forall>i < length s. fst (clean_delays_at L s a) ! i = s ! i)
     \<and> (case snd (clean_delays_at L s a) of
           Inl e \<Rightarrow> clean_delays L (s ! a) = Inl e
         | Inr c \<Rightarrow> length s < c \<and> c < length (fst (clean_delays_at L s a))
                    \<and> clean_delays L (s ! a) = Inr (fst (clean_delays_at L s a) ! c)))"
  unfolding clean_shipments_at_def clean_routes_at_def clean_warehouses_at_def
    clean_carriers_at_def clean_delays_at_def clean_shipments_def clean_routes_def
    clean_warehouses_def clean_carriers_def clean_delays_def
  using cleaner_at_frame [OF assms, of "shipments_steps L"]
    cleaner_at_frame [OF assms, of "routes_steps L"]
    cleaner_at_frame [OF assms, of "warehouses_steps L"]
    cleaner_at_frame [OF assms, of "carriers_steps L"]
    cleaner_at_frame [OF assms, of "delays_steps L"]
  by (intro conjI) (rule conjunct1 [OF conjunct2] conjunct2 [OF conjunct2], assumption)+

lemma ex_clean_warehouses_at:
  "snd (clean_warehouses_at ex_pandas [ex_warehouses] 0) = Inr 2"
  by (simp add: clean_warehouses_at_def cleaner_at_def alloc_def warehouses_steps_def
      ex_warehouses_def ex_pandas_def clean_defs)

theorem cleaners_leave_input_unchanged_witness:
  "fst (clean_warehouses_at ex_pandas [ex_warehouses] 0) ! 0 = ex_warehouses
   \<and> clean_warehouses ex_pandas ex_warehouses
       = Inr (fst (clean_warehouses_at ex_pandas [ex_warehouses] 0) ! 2)"
proof -
  have a: "0 < length [ex_warehouses]" by simp
  note t = cleaners_leave_input_unchanged [OF a, of ex_pandas]
  from t have u: "\<forall>i < length [ex_warehouses]. fst (clean_warehouses_at ex_pandas [ex_warehouses] 0) ! i = [ex_warehouses] ! i"
    by blast
  from t have "case snd (clean_warehouses_at ex_pandas [ex_warehouses] 0) of
           Inl e \<Rightarrow> clean_warehouses ex_pandas ([ex_warehouses] ! 0) = Inl e
         | Inr c \<Rightarrow> length [ex_warehouses] < c \<and> c < length (fst (clean_warehouses_at ex_pandas [ex_warehouses] 0))
                    \<and> clean_warehouses ex_pandas ([ex_warehouses] ! 0) = Inr (fst (clean_warehouses_at ex_pandas [ex_warehouses] 0) ! c)"
    by blast
  then have "clean_warehouses ex_pandas ex_warehouses
       = Inr (fst (clean_warehouses_at ex_pandas [ex_warehouses] 0) ! 2)"
    by (simp add: ex_clean_warehouses_at)
  with u show ?thesis by simp
qed

subsection \<open>Columns and positions\<close>

lemma col_pos_Some:
  "col_pos c cs = Some j \<Longrightarrow> j < length cs \<and> cs ! j = c"
  by (induction cs arbitrary: j) (auto split: if_splits)

lemma col_pos_None: "col_pos c cs = None \<longleftrightarrow> c \<notin> set cs"
  by (induction cs) auto

lemma col_pos_neq:
  "col_pos c cs = Some j \<Longrightarrow> col_pos c' cs = Some j' \<Longrightarrow> c \<noteq> c' \<Longrightarrow> j \<noteq> j'"
  using col_pos_Some by blast

lemma length_put_values: "length (put_values j vs rs) = min (length rs) (length vs)"
  by (simp add: put_values_def)

lemma put_values_nth:
  "i < length rs \<Longrightarrow> i < length vs \<Longrightarrow>
     put_values j vs rs ! i = (fst (rs ! i), (snd (rs ! i))[j := vs ! i])"
  by (simp add: put_values_def)

lemma col_values_put_same:
  assumes "length vs = length rs" "\<forall>r \<in> set rs. j < length (snd r)"
  shows "col_values j (put_values j vs rs) = vs"
proof (rule nth_equalityI)
  show "length (col_values j (put_values j vs rs)) = length vs"
    using assms by (simp add: col_values_def length_put_values)
next
  fix i assume "i < length (col_values j (put_values j vs rs))"
  then have i: "i < length rs" "i < length vs" using assms by (simp_all add: col_values_def length_put_values)
  with assms have "j < length (snd (rs ! i))" by simp
  with i show "col_values j (put_values j vs rs) ! i = vs ! i"
    by (simp add: col_values_def length_put_values put_values_nth)
qed

lemma col_values_put_other:
  assumes "length vs = length rs" "j' \<noteq> j"
  shows "col_values j' (put_values j vs rs) = col_values j' rs"
proof (rule nth_equalityI)
  show "length (col_values j' (put_values j vs rs)) = length (col_values j' rs)"
    using assms by (simp add: col_values_def length_put_values)
next
  fix i assume "i < length (col_values j' (put_values j vs rs))"
  then have i: "i < length rs" "i < length vs" using assms by (simp_all add: col_values_def length_put_values)
  with assms show "col_values j' (put_values j vs rs) ! i = col_values j' rs ! i"
    by (simp add: col_values_def length_put_values put_values_nth)
qed

lemma put_values_row_lengths:
  assumes "\<forall>r \<in> set rs. length (snd r) = n"
  shows "\<forall>r \<in> set (put_values j vs rs). length (snd r) = n"
proof
  fix r assume "r \<in> set (put_values j vs rs)"
  then obtain i where i: "i < length (put_values j vs rs)" and r: "r = put_values j vs rs ! i"
    by (auto simp: in_set_conv_nth)
  from i have il: "i < length rs" "i < length vs" by (simp_all add: length_put_values)
  with assms have "length (snd (rs ! i)) = n" by simp
  with r il show "length (snd r) = n" by (simp add: put_values_nth)
qed

lemma put_values_labels:
  "length vs = length rs \<Longrightarrow> map fst (put_values j vs rs) = map fst rs"
  by (rule nth_equalityI) (simp_all add: length_put_values put_values_nth)

lemma put_values_id:
  assumes "col_values j rs = vs"
  shows "put_values j vs rs = rs"
proof (rule nth_equalityI)
  from assms have l: "length vs = length rs" by (auto simp: col_values_def)
  then show "length (put_values j vs rs) = length rs" by (simp add: length_put_values)
  fix i assume "i < length (put_values j vs rs)"
  with l have i: "i < length rs" "i < length vs" by (simp_all add: length_put_values)
  from assms i have "vs ! i = snd (rs ! i) ! j" by (auto simp: col_values_def)
  with i show "put_values j vs rs ! i = rs ! i" by (simp add: put_values_nth)
qed

subsection \<open>One assignment to a column\<close>

lemma wf_frame_iff: "wf_frame df \<longleftrightarrow> (\<forall>r \<in> set (rows df). length (snd r) = length (columns df))"
  by (simp add: wf_frame_def list_all_iff)

lemma map_col_Inr:
  assumes "map_col dup F c df = Inr df'"
  shows "\<exists>j. col_pos c (columns df) = Some j
           \<and> df' = df\<lparr>rows := put_values j (F (col_values j (rows df))) (rows df)\<rparr>"
  using assms
  by (auto simp: map_col_def get_col_def set_col_def split: option.splits if_splits sum.splits)

lemma map_col_wf:
  assumes "map_col dup F c df = Inr df'" "wf_frame df"
  shows "columns df' = columns df" "wf_frame df'"
proof -
  from map_col_Inr [OF assms(1)] obtain j where
    df': "df' = df\<lparr>rows := put_values j (F (col_values j (rows df))) (rows df)\<rparr>" by blast
  show "columns df' = columns df" by (simp add: df')
  from assms(2) have "\<forall>r \<in> set (rows df). length (snd r) = length (columns df)"
    by (simp add: wf_frame_iff)
  from put_values_row_lengths [OF this]
  show "wf_frame df'" by (simp add: df' wf_frame_iff)
qed

lemma map_col_values:
  assumes m: "map_col dup F c df = Inr df'" and wf: "wf_frame df"
    and len: "length (F (col_values j (rows df))) = length (rows df)"
    and j: "col_pos c (columns df) = Some j"
  shows "col_values j (rows df') = F (col_values j (rows df))"
    and "\<And>j'. j' \<noteq> j \<Longrightarrow> col_values j' (rows df') = col_values j' (rows df)"
    and "map fst (rows df') = map fst (rows df)"
proof -
  from map_col_Inr [OF m] j have
    df': "df' = df\<lparr>rows := put_values j (F (col_values j (rows df))) (rows df)\<rparr>" by auto
  from col_pos_Some [OF j] have "j < length (columns df)" by simp
  with wf have inb: "\<forall>r \<in> set (rows df). j < length (snd r)" by (simp add: wf_frame_iff)
  show "col_values j (rows df') = F (col_values j (rows df))"
    unfolding df' using col_values_put_same [OF len inb] by simp
  show "\<And>j'. j' \<noteq> j \<Longrightarrow> col_values j' (rows df') = col_values j' (rows df)"
    unfolding df' using col_values_put_other [OF len] by simp
  show "map fst (rows df') = map fst (rows df)"
    unfolding df' using put_values_labels [OF len] by simp
qed

lemma map_col_id:
  assumes j: "col_pos c (columns df) = Some j" and one: "count_list (columns df) c \<le> 1"
    and fx: "F (col_values j (rows df)) = col_values j (rows df)"
  shows "map_col dup F c df = Inr df"
proof -
  have "put_values j (col_values j (rows df)) (rows df) = rows df"
    by (rule put_values_id) simp
  with j one fx show ?thesis
    by (simp add: map_col_def get_col_def set_col_def)
qed

lemma map_col_count:
  "map_col dup F c df = Inr df' \<Longrightarrow> count_list (columns df) c \<le> 1"
  by (auto simp: map_col_def get_col_def split: option.splits if_splits sum.splits)

subsection \<open>Dropping duplicates\<close>

lemma set_drop_dups: "set (drop_dups seen rs) \<subseteq> set rs"
proof (induction rs arbitrary: seen)
  case Nil
  show ?case by simp
next
  case (Cons r rs)
  from Cons [of seen] Cons [of "snd r # seen"] show ?case by auto
qed

lemma drop_dups_idem_gen:
  "set seen' \<subseteq> set seen \<Longrightarrow> drop_dups seen' (drop_dups seen rs) = drop_dups seen rs"
proof (induction rs arbitrary: seen seen')
  case Nil
  show ?case by simp
next
  case (Cons r rs)
  show ?case
  proof (cases "snd r \<in> set seen")
    case True
    then have "drop_dups seen (r # rs) = drop_dups seen rs" by simp
    with Cons.IH [OF Cons.prems] show ?thesis by simp
  next
    case False
    then have e: "drop_dups seen (r # rs) = r # drop_dups (snd r # seen) rs" by simp
    from False Cons.prems have n: "snd r \<notin> set seen'" by blast
    from Cons.prems have "set (snd r # seen') \<subseteq> set (snd r # seen)" by auto
    from Cons.IH [OF this]
    have "drop_dups (snd r # seen') (drop_dups (snd r # seen) rs) = drop_dups (snd r # seen) rs" .
    with n show ?thesis unfolding e by simp
  qed
qed

lemma drop_duplicates_idem: "drop_duplicates (drop_duplicates df) = drop_duplicates df"
proof -
  have "drop_dups [] (drop_dups [] (rows df)) = drop_dups [] (rows df)"
    by (rule drop_dups_idem_gen) simp
  then show ?thesis by (simp add: drop_duplicates_def)
qed

lemma drop_duplicates_wf: "wf_frame df \<Longrightarrow> wf_frame (drop_duplicates df)"
proof -
  assume wf: "wf_frame df"
  have "set (rows (drop_duplicates df)) \<subseteq> set (rows df)"
    by (simp add: drop_duplicates_def set_drop_dups)
  moreover have "columns (drop_duplicates df) = columns df" by (simp add: drop_duplicates_def)
  ultimately show ?thesis using wf unfolding wf_frame_iff by (metis subsetD)
qed

subsection \<open>Sequences of statements\<close>

lemma steps_Cons_Inr:
  "steps (f # fs) df = Inr out \<Longrightarrow> \<exists>df'. f df = Inr df' \<and> steps fs df' = Inr out"
  by (cases "f df") auto

lemma rename_inplace_Inr:
  assumes "rename_inplace m df = Inr df'" "wf_frame df"
  shows "wf_frame df'" "rows df' = rows df"
    "columns df' = map (\<lambda>c. case map_of m c of None \<Rightarrow> c | Some c' \<Rightarrow> c') (columns df)"
proof -
  from assms(1) have e: "df' = rename_columns m df" by (simp add: rename_inplace_def)
  show "rows df' = rows df" by (simp add: e rename_columns_def)
  show "columns df' = map (\<lambda>c. case map_of m c of None \<Rightarrow> c | Some c' \<Rightarrow> c') (columns df)"
    by (simp add: e rename_columns_def)
  from assms(2) show "wf_frame df'" by (simp add: e rename_columns_def wf_frame_iff)
qed

subsection \<open>Medians and filling\<close>

lemma numeric_iff: "numeric c \<longleftrightarrow> c = NaN \<or> (\<exists>x. c = Num x)"
  by (cases c) (simp_all add: numeric_def)

lemma to_numeric_numeric: "numeric (to_numeric L c)"
  by (cases c) (auto simp: to_numeric_def numeric_iff split: option.splits)

lemma nums_nonempty: "Num x \<in> set cs \<Longrightarrow> nums cs \<noteq> []"
  by (induction cs) (auto simp: nums_def)

lemma median_cases: "(nums cs = [] \<and> median cs = NaN) \<or> (nums cs \<noteq> [] \<and> (\<exists>m. median cs = Num m))"
proof (cases "nums cs = []")
  case True
  then show ?thesis by (simp add: median_def)
next
  case False
  then have n: "length (sort (nums cs)) \<noteq> 0" by simp
  have "\<exists>m. median cs = Num m"
  proof (cases "odd (length (sort (nums cs)))")
    case True
    with n have "median cs = Num (sort (nums cs) ! (length (sort (nums cs)) div 2))"
      unfolding median_def Let_def by (simp only: if_False if_True not_False_eq_True not_True_eq_False)
    then show ?thesis by blast
  next
    case False
    with n have "median cs = Num ((sort (nums cs) ! (length (sort (nums cs)) div 2 - 1)
                  + sort (nums cs) ! (length (sort (nums cs)) div 2)) / 2)"
      unfolding median_def Let_def by (simp only: if_False if_True not_False_eq_True not_True_eq_False)
    then show ?thesis by blast
  qed
  with False show ?thesis by simp
qed

lemma median_numeric: "numeric (median cs)"
  using median_cases [of cs] by (auto simp: numeric_iff)

lemma fillna_cell_numeric: "numeric v \<Longrightarrow> numeric c \<Longrightarrow> numeric (fillna_cell v c)"
  by (auto simp: fillna_cell_def)

lemma isna_numeric: "numeric c \<Longrightarrow> isna c \<longleftrightarrow> c = NaN"
  by (auto simp: numeric_iff isna_def)

lemma length_group_median_fill:
  "length (group_median_fill keys vals) = min (length keys) (length vals)"
  by (simp add: group_median_fill_def)

lemma group_median_fill_nth:
  assumes "i < length keys" "i < length vals"
  shows "group_median_fill keys vals ! i =
           (if isna (keys ! i) then NaN
            else fillna_cell (median (map snd (filter (\<lambda>p. fst p = keys ! i) (zip keys vals)))) (vals ! i))"
  using assms by (simp add: group_median_fill_def)




subsection \<open>Reading cells through column positions\<close>


lemma length_col_values: "length (col_values j rs) = length rs"
  by (simp add: col_values_def)







subsection \<open>One statement on one column\<close>

lemma map_col_step:
  assumes m: "map_col dup F c df = Inr df'" and wf: "wf_frame df"
    and len: "\<forall>j. col_pos c (columns df) = Some j \<longrightarrow> length (F (col_values j (rows df))) = length (rows df)"
  shows "columns df' = columns df" "wf_frame df'"
    "\<exists>j. col_pos c (columns df) = Some j \<and> col_values j (rows df') = F (col_values j (rows df))"
    "\<forall>c' j'. c' \<noteq> c \<and> col_pos c' (columns df) = Some j' \<longrightarrow>
        col_values j' (rows df') = col_values j' (rows df)"
proof -
  from map_col_Inr [OF m] obtain j where j: "col_pos c (columns df) = Some j" by blast
  from len j have l: "length (F (col_values j (rows df))) = length (rows df)" by blast
  note v = map_col_values [OF m wf l j]
  show "columns df' = columns df" "wf_frame df'" by (rule map_col_wf [OF m wf])+
  from j v(1) show "\<exists>j. col_pos c (columns df) = Some j \<and> col_values j (rows df') = F (col_values j (rows df))"
    by blast
  show "\<forall>c' j'. c' \<noteq> c \<and> col_pos c' (columns df) = Some j' \<longrightarrow>
        col_values j' (rows df') = col_values j' (rows df)"
  proof (intro allI impI)
    fix c' j' assume h: "c' \<noteq> c \<and> col_pos c' (columns df) = Some j'"
    with j have "j' \<noteq> j" using col_pos_neq by blast
    then show "col_values j' (rows df') = col_values j' (rows df)" by (rule v(2))
  qed
qed

lemma length_standardize_strings: "length (standardize_strings L vs) = length vs"
  by (simp add: standardize_strings_def)

lemma length_fill_overall_median: "length (fill_overall_median vs) = length vs"
  by (simp add: fill_overall_median_def)

lemma names_distinct:
  "nm ''weight'' \<noteq> nm ''cost''" "nm ''route_id'' \<noteq> nm ''weight''" "nm ''route_id'' \<noteq> nm ''cost''"
  "nm ''weight'' \<noteq> nm ''sender''" "nm ''weight'' \<noteq> nm ''recipient''" "nm ''weight'' \<noteq> nm ''status''"
  "nm ''cost'' \<noteq> nm ''sender''" "nm ''cost'' \<noteq> nm ''recipient''" "nm ''cost'' \<noteq> nm ''status''"
  "nm ''route_id'' \<noteq> nm ''sender''" "nm ''route_id'' \<noteq> nm ''recipient''" "nm ''route_id'' \<noteq> nm ''status''"
  by (simp_all add: nm_def)





lemma cleaner_Inr:
  "cleaner body df = Inr out \<Longrightarrow> \<exists>df'. steps body df = Inr df' \<and> out = drop_duplicates df'"
  by (auto simp: cleaner_def split: sum.splits)



lemma col_pos_mem: "col_pos c cs = Some j \<Longrightarrow> c \<in> set cs"
  using col_pos_None [of c cs] by auto





lemma ex_clean_shipments_eq: "clean_shipments ex_pandas ex_raw_shipments = Inr ex_clean_shipments"
  by (simp add: clean_shipments_def shipments_steps_def ex_raw_shipments_def ex_pandas_def
      ex_clean_shipments_def clean_defs)

lemma ex_clean_warehouses_eq: "clean_warehouses ex_pandas ex_warehouses = Inr ex_clean_warehouses"
  by (simp add: clean_warehouses_def warehouses_steps_def ex_warehouses_def ex_pandas_def
      ex_clean_warehouses_def clean_defs)






lemma and_then_Inl [simp]: "and_then (Inl e) f = Inl e"
  by (simp add: and_then_def)

lemma and_then_Inr [simp]: "and_then (Inr x) f = f x"
  by (simp add: and_then_def)

lemma load_csv_missing: "fs (''data/'' @ f) = None \<Longrightarrow> load_csv fs f = Inl FileNotFoundError"
  by (simp add: load_csv_def)

lemma load_csv_cases: "load_csv fs f = Inl FileNotFoundError \<or> (\<exists>df. load_csv fs f = Inr df)"
  by (auto simp: load_csv_def read_csv_def Let_def split: option.splits)

lemma load_clean_missing: "fs (''cleaned_data/'' @ f) = None \<Longrightarrow> load_clean fs f = Inl FileNotFoundError"
  by (simp add: load_clean_def)

lemma load_clean_cases: "load_clean fs f = Inl FileNotFoundError \<or> (\<exists>df. load_clean fs f = Inr df)"
  by (auto simp: load_clean_def read_csv_def Let_def split: option.splits)

lemma read_csv_missing: "fs p = None \<Longrightarrow> read_csv fs p = Inl FileNotFoundError"
  by (simp add: read_csv_def)

lemma read_csv_cases: "read_csv fs p = Inl FileNotFoundError \<or> (\<exists>df. read_csv fs p = Inr df)"
  by (auto simp: read_csv_def split: option.splits)

lemma and_then_raises:
  "(\<exists>e. r = Inl e) \<or> (\<forall>x. \<exists>e. f x = Inl e) \<Longrightarrow> \<exists>e. and_then r f = Inl e"
  by (cases r) auto

lemma data_cleaning_main_missing:
  assumes "\<exists>f \<in> set raw_files. fs (''data/'' @ f) = None"
  shows "\<exists>e. data_cleaning_main L fs = Inl e"
proof -
  from assms have m: "load_csv fs ''shipments.csv'' = Inl FileNotFoundError
      \<or> load_csv fs ''routes.csv'' = Inl FileNotFoundError
      \<or> load_csv fs ''warehouses.csv'' = Inl FileNotFoundError
      \<or> load_csv fs ''carriers.csv'' = Inl FileNotFoundError
      \<or> load_csv fs ''delays.csv'' = Inl FileNotFoundError"
    using load_csv_missing [of fs] by (auto simp: raw_files_def)
  then show ?thesis
    by (auto simp: data_cleaning_main_def and_then_def split: sum.splits)
qed


text \<open>
  C4, as stated, fails for \<open>LogisticsAnalyzer.load_data\<close>: with no input file at all it
  raises nothing, returns \<open>False\<close> and leaves the analyzer as it was, and a following
  \<open>get_data_summary\<close> runs and returns \<open>None\<close>.
\<close>

theorem load_data_swallows_counterexample:
  "load_data (\<lambda>a b. Inr (a, b)) no_files (new_analyzer ''data/'') = (new_analyzer ''data/'', False)
   \<and> get_data_summary (\<lambda>a. True)
         (fst (load_data (\<lambda>a b. Inr (a, b)) no_files (new_analyzer ''data/''))) = None"
  by (simp add: load_data_def read_csv_def no_files_def get_data_summary_def new_analyzer_def)

text \<open>
  C4, amended.  \<open>_load_csv\<close> and \<open>_load_clean\<close> raise \<open>FileNotFoundError\<close> on a missing file;
  a run of \<open>data_cleaning.main\<close> with a raw file missing ends in an exception, nothing
  written; \<open>advanced_analysis.main\<close>, \<open>analysis_visuals.main\<close>, the script
  \<open>route_clustering\<close> and \<open>load_and_prepare_data\<close> end in \<open>FileNotFoundError\<close> when one of
  their input files is missing; \<open>LogisticsAnalyzer.load_data\<close> raises nothing and returns
  \<open>False\<close>.
\<close>

theorem missing_input_file_is_fatal_except_load_data:
  "(fs (''data/'' @ f) = None \<longrightarrow> load_csv fs f = Inl FileNotFoundError)
   \<and> (fs (''cleaned_data/'' @ f) = None \<longrightarrow> load_clean fs f = Inl FileNotFoundError)
   \<and> ((\<exists>f \<in> set raw_files. fs (''data/'' @ f) = None) \<longrightarrow> (\<exists>e. data_cleaning_main L fs = Inl e))
   \<and> ((\<exists>f \<in> set [''shipments_clean.csv'', ''delays_clean.csv'', ''routes_clean.csv''].
          fs (''cleaned_data/'' @ f) = None)
        \<longrightarrow> advanced_analysis_main analyses fs = Inl FileNotFoundError)
   \<and> ((\<exists>f \<in> set [''shipments_clean.csv'', ''delays_clean.csv'']. fs (''cleaned_data/'' @ f) = None)
        \<longrightarrow> analysis_visuals_main plots fs = Inl FileNotFoundError)
   \<and> (fs ''cleaned_data/routes_clean.csv'' = None
        \<longrightarrow> route_clustering_script rest fs = Inl FileNotFoundError)
   \<and> ((\<exists>f \<in> set raw_files. fs (''./data/'' @ f) = None)
        \<longrightarrow> load_and_prepare_data prepare fs = Inl FileNotFoundError)
   \<and> ((\<exists>f \<in> set raw_files. fs (data_path self @ f) = None)
        \<longrightarrow> snd (load_data dates fs self) = False)"
proof (intro conjI impI)
  show "load_csv fs f = Inl FileNotFoundError" if "fs (''data/'' @ f) = None"
    using that by (rule load_csv_missing)
  show "load_clean fs f = Inl FileNotFoundError" if "fs (''cleaned_data/'' @ f) = None"
    using that by (rule load_clean_missing)
  show "\<exists>e. data_cleaning_main L fs = Inl e" if "\<exists>f \<in> set raw_files. fs (''data/'' @ f) = None"
    using that by (rule data_cleaning_main_missing)
  show "advanced_analysis_main analyses fs = Inl FileNotFoundError"
    if "\<exists>f \<in> set [''shipments_clean.csv'', ''delays_clean.csv'', ''routes_clean.csv''].
          fs (''cleaned_data/'' @ f) = None"
    using that load_clean_cases [of fs "''shipments_clean.csv''"]
      load_clean_cases [of fs "''delays_clean.csv''"] load_clean_cases [of fs "''routes_clean.csv''"]
      load_clean_missing [of fs]
    by (auto simp: advanced_analysis_main_def)
  show "analysis_visuals_main plots fs = Inl FileNotFoundError"
    if "\<exists>f \<in> set [''shipments_clean.csv'', ''delays_clean.csv'']. fs (''cleaned_data/'' @ f) = None"
    using that load_clean_cases [of fs "''shipments_clean.csv''"]
      load_clean_cases [of fs "''delays_clean.csv''"] load_clean_missing [of fs]
    by (auto simp: analysis_visuals_main_def)
  show "route_clustering_script rest fs = Inl FileNotFoundError"
    if "fs ''cleaned_data/routes_clean.csv'' = None"
    using that by (simp add: route_clustering_script_def)
  show "load_and_prepare_data prepare fs = Inl FileNotFoundError"
    if "\<exists>f \<in> set raw_files. fs (''./data/'' @ f) = None"
    using that read_csv_cases [of fs "''./data/shipments.csv''"]
      read_csv_cases [of fs "''./data/routes.csv''"] read_csv_cases [of fs "''./data/carriers.csv''"]
      read_csv_cases [of fs "''./data/warehouses.csv''"] read_csv_cases [of fs "''./data/delays.csv''"]
      read_csv_missing [of fs]
    by (auto simp: load_and_prepare_data_def raw_files_def)
  show "snd (load_data dates fs self) = False"
    if "\<exists>f \<in> set raw_files. fs (data_path self @ f) = None"
    using that read_csv_missing [of fs]
    by (auto simp: load_data_def raw_files_def Let_def split: sum.splits)
qed

theorem missing_input_file_is_fatal_except_load_data_witness:
  "load_csv no_files ''routes.csv'' = Inl FileNotFoundError
   \<and> load_clean no_files ''routes_clean.csv'' = Inl FileNotFoundError
   \<and> (\<exists>e. data_cleaning_main ex_pandas no_files = Inl e)
   \<and> advanced_analysis_main (\<lambda>a b c. Inr True) no_files = Inl FileNotFoundError
   \<and> analysis_visuals_main (\<lambda>a b. Inr True) no_files = Inl FileNotFoundError
   \<and> route_clustering_script (\<lambda>a. Inr True) no_files = Inl FileNotFoundError
   \<and> load_and_prepare_data Inr no_files = Inl FileNotFoundError
   \<and> snd (load_data (\<lambda>a b. Inr (a, b)) no_files (new_analyzer ''data/'')) = False"
proof -
  note t = missing_input_file_is_fatal_except_load_data [of no_files "''routes.csv''" ex_pandas
      "\<lambda>a b c. Inr True" "\<lambda>a b. Inr True" "\<lambda>a. Inr True" Inr "new_analyzer ''data/''"
      "\<lambda>a b. Inr (a, b)"]
  have h: "no_files (''data/'' @ ''routes.csv'') = None"
    "no_files (''cleaned_data/'' @ ''routes.csv'') = None"
    "\<exists>f \<in> set raw_files. no_files (''data/'' @ f) = None"
    "\<exists>f \<in> set [''shipments_clean.csv'', ''delays_clean.csv'', ''routes_clean.csv''].
          no_files (''cleaned_data/'' @ f) = None"
    "\<exists>f \<in> set [''shipments_clean.csv'', ''delays_clean.csv'']. no_files (''cleaned_data/'' @ f) = None"
    "no_files ''cleaned_data/routes_clean.csv'' = None"
    "\<exists>f \<in> set raw_files. no_files (''./data/'' @ f) = None"
    "\<exists>f \<in> set raw_files. no_files (data_path (new_analyzer ''data/'') @ f) = None"
    by (auto simp: no_files_def raw_files_def)
  have hc: "no_files (''cleaned_data/'' @ ''routes_clean.csv'') = None" by (simp add: no_files_def)
  from missing_input_file_is_fatal_except_load_data [of no_files "''routes_clean.csv''"] hc
  have c: "load_clean no_files ''routes_clean.csv'' = Inl FileNotFoundError"
    by blast
  from t h c show ?thesis by blast
qed


section \<open>Running a cleaner on its own result\<close>

subsection \<open>Statements and what they leave behind\<close>

lemma steps_wf:
  assumes "list_all (\<lambda>d. writes_only (run d) (target d)) ds" "wf_frame x"
    "steps (map run ds) x = Inr y"
  shows "wf_frame y \<and> columns y = columns x"
  using assms
proof (induction ds arbitrary: x)
  case Nil
  then show ?case by simp
next
  case (Cons d ds)
  from Cons.prems(3) have "steps (run d # map run ds) x = Inr y" by simp
  from steps_Cons_Inr [OF this] obtain x1 where r: "run d x = Inr x1"
    and rest: "steps (map run ds) x1 = Inr y" by blast
  from Cons.prems(1) have w: "writes_only (run d) (target d)"
    and ws: "list_all (\<lambda>d. writes_only (run d) (target d)) ds" by simp_all
  from w Cons.prems(2) r have x1: "wf_frame x1" "columns x1 = columns x"
    unfolding writes_only_def by blast+
  from Cons.IH [OF ws x1(1) rest] x1(2) show ?case by simp
qed

lemma steps_keep:
  assumes "list_all (\<lambda>e. writes_only (run e) (target e)) ds"
    "list_all (\<lambda>e. target e \<notin> set (reads d) \<or> preserves (run e) (post d)) ds"
    "depends_on (post d) (reads d)" "wf_frame x" "post d x" "steps (map run ds) x = Inr y"
  shows "post d y"
  using assms
proof (induction ds arbitrary: x)
  case Nil
  then show ?case by simp
next
  case (Cons e es)
  from Cons.prems(6) have "steps (run e # map run es) x = Inr y" by simp
  from steps_Cons_Inr [OF this] obtain x1 where r: "run e x = Inr x1"
    and rest: "steps (map run es) x1 = Inr y" by blast
  from Cons.prems(1) have w: "writes_only (run e) (target e)"
    and ws: "list_all (\<lambda>e. writes_only (run e) (target e)) es" by simp_all
  from Cons.prems(2) have o: "target e \<notin> set (reads d) \<or> preserves (run e) (post d)"
    and os: "list_all (\<lambda>e. target e \<notin> set (reads d) \<or> preserves (run e) (post d)) es" by simp_all
  from w Cons.prems(4) r have x1: "wf_frame x1" "columns x1 = columns x"
    and oth: "\<forall>c'. c' \<noteq> target e \<longrightarrow> column c' x1 = column c' x"
    unfolding writes_only_def by blast+
  have p1: "post d x1"
  proof (cases "target e \<in> set (reads d)")
    case True
    with o have "preserves (run e) (post d)" by simp
    with Cons.prems(4,5) r show ?thesis unfolding preserves_def by blast
  next
    case False
    have "\<forall>c \<in> set (reads d). column c x1 = column c x"
    proof
      fix c assume "c \<in> set (reads d)"
      with False have "c \<noteq> target e" by auto
      with oth show "column c x1 = column c x" by simp
    qed
    with Cons.prems(3,5) x1(2) show ?thesis unfolding depends_on_def by blast
  qed
  from Cons.IH [OF ws os Cons.prems(3) x1(1) p1 rest] show ?case .
qed

lemma sound_writes: "list_all sound ds \<Longrightarrow> list_all (\<lambda>d. writes_only (run d) (target d)) ds"
  by (induction ds) (simp_all add: sound_def)

lemma steps_posts:
  assumes "list_all sound ds" "ordered ds" "wf_frame x" "steps (map run ds) x = Inr y"
  shows "list_all (\<lambda>d. post d y) ds"
  using assms
proof (induction ds arbitrary: x)
  case Nil
  then show ?case by simp
next
  case (Cons d ds)
  from Cons.prems(4) have "steps (run d # map run ds) x = Inr y" by simp
  from steps_Cons_Inr [OF this] obtain x1 where r: "run d x = Inr x1"
    and rest: "steps (map run ds) x1 = Inr y" by blast
  from Cons.prems(1) have s: "sound d" and ss: "list_all sound ds" by simp_all
  from Cons.prems(2) have o: "list_all (\<lambda>e. target e \<notin> set (reads d) \<or> preserves (run e) (post d)) ds"
    and os: "ordered ds" by simp_all
  from s Cons.prems(3) r have x1: "wf_frame x1" unfolding sound_def writes_only_def by blast
  from s Cons.prems(3) r have p1: "post d x1" unfolding sound_def establishes_def by blast
  from s have dep: "depends_on (post d) (reads d)" by (simp add: sound_def)
  have "post d y" by (rule steps_keep [OF sound_writes [OF ss] o dep x1 p1 rest])
  with Cons.IH [OF ss os x1 rest] show ?case by simp
qed

lemma steps_fixed:
  assumes "list_all (\<lambda>d. fixed_by (run d) (post d)) ds" "list_all (\<lambda>d. post d z) ds" "wf_frame z"
  shows "steps (map run ds) z = Inr z"
  using assms
proof (induction ds)
  case Nil
  then show ?case by simp
next
  case (Cons d ds)
  from Cons.prems have "run d z = Inr z" unfolding fixed_by_def by simp
  moreover from Cons have "steps (map run ds) z = Inr z" by simp
  ultimately show ?case by simp
qed

lemma sound_fixed: "list_all sound ds \<Longrightarrow> list_all (\<lambda>d. fixed_by (run d) (post d)) ds"
  by (induction ds) (simp_all add: sound_def)

lemma posts_dedup:
  "list_all sound ds \<Longrightarrow> wf_frame y \<Longrightarrow> list_all (\<lambda>d. post d y) ds
     \<Longrightarrow> list_all (\<lambda>d. post d (drop_duplicates y)) ds"
  by (induction ds) (auto simp: sound_def survives_dedup_def)

lemma steps_idem:
  assumes s: "list_all sound ds" and o: "ordered ds" and wf: "wf_frame x"
    and st: "steps (map run ds) x = Inr y"
  shows "steps (map run ds) (drop_duplicates y) = Inr (drop_duplicates y)"
proof -
  from steps_wf [OF sound_writes [OF s] wf st] have wy: "wf_frame y" by simp
  note p = steps_posts [OF s o wf st]
  note q = posts_dedup [OF s wy p]
  show ?thesis by (rule steps_fixed [OF sound_fixed [OF s] q drop_duplicates_wf [OF wy]])
qed

subsection \<open>Columns by name\<close>

lemma has_col_pos: "has_col c df \<Longrightarrow> \<exists>j. col_pos c (columns df) = Some j"
proof -
  assume "has_col c df"
  then have "count_list (columns df) c \<noteq> 0" by (simp add: has_col_def)
  then have "c \<in> set (columns df)" by (simp add: count_list_0_iff)
  then have "col_pos c (columns df) \<noteq> None" by (simp add: col_pos_None)
  then show ?thesis by blast
qed

lemma pos_count: "col_pos c cs = Some j \<Longrightarrow> count_list cs c \<noteq> 0"
proof -
  assume "col_pos c cs = Some j"
  then have "c \<in> set cs" by (rule col_pos_mem)
  then show ?thesis by (simp add: count_list_0_iff)
qed

lemma get_col_has:
  assumes "get_col dup c df = Inr vs"
  shows "has_col c df" "vs = column c df"
proof -
  from assms obtain j where j: "col_pos c (columns df) = Some j"
    and n: "\<not> count_list (columns df) c > 1" and v: "vs = col_values j (rows df)"
    by (auto simp: get_col_def split: option.splits if_splits)
  from pos_count [OF j] n show "has_col c df" by (simp add: has_col_def)
  from j v show "vs = column c df" by (simp add: column_def)
qed

lemma has_get_col: "has_col c df \<Longrightarrow> get_col dup c df = Inr (column c df)"
proof -
  assume h: "has_col c df"
  from has_col_pos [OF h] obtain j where j: "col_pos c (columns df) = Some j" by blast
  from h have "\<not> count_list (columns df) c > 1" by (simp add: has_col_def)
  with j show ?thesis by (simp add: get_col_def column_def)
qed

lemma map_col_has: "map_col dup F c x = Inr y \<Longrightarrow> has_col c x"
proof -
  assume "map_col dup F c x = Inr y"
  then obtain vs where "get_col dup c x = Inr vs"
    by (auto simp: map_col_def split: sum.splits)
  then show ?thesis by (rule get_col_has)
qed

lemma length_column: "has_col c df \<Longrightarrow> length (column c df) = length (rows df)"
proof -
  assume h: "has_col c df"
  from has_col_pos [OF h] obtain j where j: "col_pos c (columns df) = Some j" by blast
  then show ?thesis by (simp add: column_def length_col_values)
qed

lemma has_col_columns: "columns y = columns x \<Longrightarrow> has_col c y = has_col c x"
  by (simp add: has_col_def)

lemma map_col_column:
  assumes m: "map_col dup F c x = Inr y" and wf: "wf_frame x"
    and len: "length (F (column c x)) = length (column c x)"
  shows "wf_frame y" "columns y = columns x" "column c y = F (column c x)"
    "\<forall>c'. c' \<noteq> c \<longrightarrow> column c' y = column c' x"
proof -
  note h = map_col_has [OF m]
  from has_col_pos [OF h] obtain j where j: "col_pos c (columns x) = Some j" by blast
  then have cx: "column c x = col_values j (rows x)" by (simp add: column_def)
  from len have l: "\<forall>j. col_pos c (columns x) = Some j \<longrightarrow>
      length (F (col_values j (rows x))) = length (rows x)"
    using j cx by (simp add: length_col_values)
  note s = map_col_step [OF m wf l]
  show "wf_frame y" by (rule s(2))
  show cols: "columns y = columns x" by (rule s(1))
  from s(3) j have "col_values j (rows y) = F (col_values j (rows x))" by simp
  with j cols cx show "column c y = F (column c x)" by (simp add: column_def)
  show "\<forall>c'. c' \<noteq> c \<longrightarrow> column c' y = column c' x"
  proof (intro allI impI)
    fix c' assume ne: "c' \<noteq> c"
    show "column c' y = column c' x"
    proof (cases "col_pos c' (columns x)")
      case None
      with cols show ?thesis by (simp add: column_def)
    next
      case (Some j')
      have "col_values j' (rows y) = col_values j' (rows x)"
        by (rule s(4) [rule_format, OF conjI, OF ne Some])
      with Some cols show ?thesis by (simp add: column_def)
    qed
  qed
qed

lemma map_col_fixed:
  assumes h: "has_col c z" and fx: "F (column c z) = column c z"
  shows "map_col dup F c z = Inr z"
proof -
  from has_col_pos [OF h] obtain j where j: "col_pos c (columns z) = Some j" by blast
  then have cz: "column c z = col_values j (rows z)" by (simp add: column_def)
  from h have one: "count_list (columns z) c \<le> 1" by (simp add: has_col_def)
  from fx have "F (col_values j (rows z)) = col_values j (rows z)" by (simp only: cz)
  then show ?thesis by (rule map_col_id [where F = F, OF j one])
qed

lemma zip_map_same: "zip (map f xs) (map g xs) = map (\<lambda>x. (f x, g x)) xs"
  by (induction xs) simp_all

lemma column_dedup_subset: "set (column c (drop_duplicates x)) \<subseteq> set (column c x)"
proof (cases "col_pos c (columns x)")
  case None
  then show ?thesis by (simp add: column_def drop_duplicates_def)
next
  case (Some j)
  then have "column c (drop_duplicates x) = map (\<lambda>r. snd r ! j) (drop_dups [] (rows x))"
    "column c x = map (\<lambda>r. snd r ! j) (rows x)"
    by (simp_all add: column_def drop_duplicates_def col_values_def)
  with set_drop_dups [of "[]" "rows x"] show ?thesis by auto
qed

lemma zip_column_dedup_subset:
  "set (zip (column g (drop_duplicates x)) (column c (drop_duplicates x)))
     \<subseteq> set (zip (column g x) (column c x))"
proof (cases "col_pos g (columns x)")
  case None
  then show ?thesis by (simp add: column_def drop_duplicates_def)
next
  case g: (Some jg)
  show ?thesis
  proof (cases "col_pos c (columns x)")
    case None
    then show ?thesis by (simp add: column_def drop_duplicates_def)
  next
    case (Some j)
    from g have a: "column g (drop_duplicates x) = map (\<lambda>r. snd r ! jg) (drop_dups [] (rows x))"
      "column g x = map (\<lambda>r. snd r ! jg) (rows x)"
      by (simp_all add: column_def drop_duplicates_def col_values_def)
    from Some have b: "column c (drop_duplicates x) = map (\<lambda>r. snd r ! j) (drop_dups [] (rows x))"
      "column c x = map (\<lambda>r. snd r ! j) (rows x)"
      by (simp_all add: column_def drop_duplicates_def col_values_def)
    from set_drop_dups [of "[]" "rows x"] show ?thesis
      unfolding a b zip_map_same by auto
  qed
qed

lemma has_col_dedup: "has_col c (drop_duplicates x) = has_col c x"
  by (simp add: has_col_def drop_duplicates_def)

subsection \<open>A statement on the cells of one column\<close>

lemma writes_only_map_col:
  assumes len: "\<forall>vs. length (F vs) = length vs"
  shows "writes_only (map_col dup F c) c"
  unfolding writes_only_def
proof (intro allI impI)
  fix x y assume h: "wf_frame x \<and> map_col dup F c x = Inr y"
  then have wf: "wf_frame x" and m: "map_col dup F c x = Inr y" by simp_all
  from len have l: "length (F (column c x)) = length (column c x)" by simp
  note s = map_col_column [OF m wf l]
  from s(1) s(2) s(4)
  show "wf_frame y \<and> columns y = columns x \<and> (\<forall>c'. c' \<noteq> c \<longrightarrow> column c' y = column c' x)"
    by (intro conjI)
qed

lemma establishes_cells:
  assumes len: "\<forall>vs. length (F vs) = length vs" and est: "\<forall>vs. list_all P (F vs)"
  shows "establishes (map_col dup F c) (cells P c)"
  unfolding establishes_def
proof (intro allI impI)
  fix x y assume h: "wf_frame x \<and> map_col dup F c x = Inr y"
  then have wf: "wf_frame x" and m: "map_col dup F c x = Inr y" by simp_all
  from len have l: "length (F (column c x)) = length (column c x)" by simp
  note s = map_col_column [OF m wf l]
  from map_col_has [OF m] s(2) have "has_col c y" by (simp add: has_col_def)
  moreover from est have "list_all P (column c y)" unfolding s(3) by simp
  ultimately show "cells P c y" by (simp add: cells_def)
qed

lemma fixed_by_cells:
  assumes fx: "\<forall>vs. list_all P vs \<longrightarrow> F vs = vs"
  shows "fixed_by (map_col dup F c) (cells P c)"
  unfolding fixed_by_def
proof (intro allI impI)
  fix x assume h: "wf_frame x \<and> cells P c x"
  then have hc: "has_col c x" and p: "list_all P (column c x)" by (simp_all add: cells_def)
  from fx p have "F (column c x) = column c x" by simp
  then show "map_col dup F c x = Inr x" by (rule map_col_fixed [where F = F, OF hc])
qed

lemma depends_on_cells: "depends_on (cells P c) [c]"
  unfolding depends_on_def cells_def has_col_def by simp

lemma survives_dedup_cells: "survives_dedup (cells P c)"
  unfolding survives_dedup_def
proof (intro allI impI)
  fix x assume h: "wf_frame x \<and> cells P c x"
  then have hc: "has_col c x" and p: "list_all P (column c x)" by (simp_all add: cells_def)
  from p column_dedup_subset [of c x] have "list_all P (column c (drop_duplicates x))"
    unfolding list_all_iff by blast
  with hc show "cells P c (drop_duplicates x)" by (simp add: cells_def has_col_dedup)
qed

lemma sound_cell_stmt:
  assumes "\<forall>vs. length (F vs) = length vs" "\<forall>vs. list_all P (F vs)"
    "\<forall>vs. list_all P vs \<longrightarrow> F vs = vs"
  shows "sound (cell_stmt dup F P c)"
  unfolding sound_def cell_stmt_def
  using writes_only_map_col [OF assms(1)] establishes_cells [OF assms(1) assms(2)]
    fixed_by_cells [OF assms(3)] depends_on_cells survives_dedup_cells
  by simp

lemma preserves_cells:
  assumes len: "\<forall>vs. length (F vs) = length vs" and keep: "\<forall>vs. list_all P vs \<longrightarrow> list_all P (F vs)"
  shows "preserves (map_col dup F c) (cells P c)"
  unfolding preserves_def
proof (intro allI impI)
  fix x y assume h: "wf_frame x \<and> cells P c x \<and> map_col dup F c x = Inr y"
  then have wf: "wf_frame x" and m: "map_col dup F c x = Inr y"
    and hc: "has_col c x" and p: "list_all P (column c x)" by (simp_all add: cells_def)
  from len have l: "length (F (column c x)) = length (column c x)" by simp
  note s = map_col_column [OF m wf l]
  from hc s(2) have "has_col c y" by (simp add: has_col_def)
  moreover from keep p have "list_all P (column c y)" unfolding s(3) by simp
  ultimately show "cells P c y" by (simp add: cells_def)
qed

subsection \<open>The conversions of the cleaners\<close>

lemma to_numeric_fixed: "numeric c \<Longrightarrow> to_numeric L c = c"
  by (auto simp: numeric_iff to_numeric_def)

lemma sound_to_numeric: "sound (cell_stmt dup (map (to_numeric L)) numeric c)"
proof (rule sound_cell_stmt)
  show "\<forall>vs. length (map (to_numeric L) vs) = length vs" by simp
  show "\<forall>vs. list_all numeric (map (to_numeric L) vs)"
    by (simp add: list_all_iff to_numeric_numeric)
  show "\<forall>vs. list_all numeric vs \<longrightarrow> map (to_numeric L) vs = vs"
    by (simp add: list_all_iff map_idI to_numeric_fixed)
qed

lemma sound_to_datetime:
  assumes "coerces_dates L"
  shows "sound (cell_stmt dup (to_datetime L) is_datetime c)"
proof (rule sound_cell_stmt)
  from assms show "\<forall>vs. length (to_datetime L vs) = length vs"
    by (simp add: to_datetime_def coerces_dates_def)
  from assms show "\<forall>vs. list_all is_datetime (to_datetime L vs)"
    by (simp add: to_datetime_def coerces_dates_def)
  show "\<forall>vs. list_all is_datetime vs \<longrightarrow> to_datetime L vs = vs"
    by (simp add: to_datetime_def)
qed

lemma is_num_iff: "is_num c \<longleftrightarrow> (\<exists>x. c = Num x)"
  by (cases c) (simp_all add: is_num_def)

lemma fill_zero_is_num: "is_num (fillna_cell (Num 0) (to_numeric L c))"
proof -
  from to_numeric_numeric [of L c] have "to_numeric L c = NaN \<or> (\<exists>x. to_numeric L c = Num x)"
    by (simp add: numeric_iff)
  then show ?thesis by (auto simp: fillna_cell_def isna_def is_num_iff)
qed

lemma fill_zero_fixed: "is_num c \<Longrightarrow> fillna_cell (Num 0) (to_numeric L c) = c"
  by (auto simp: is_num_iff to_numeric_def fillna_cell_def isna_def)

lemma sound_fill_zero:
  "sound (cell_stmt dup (map (\<lambda>c. fillna_cell (Num 0) (to_numeric L c))) is_num c)"
proof (rule sound_cell_stmt)
  show "\<forall>vs. length (map (\<lambda>c. fillna_cell (Num 0) (to_numeric L c)) vs) = length vs" by simp
  show "\<forall>vs. list_all is_num (map (\<lambda>c. fillna_cell (Num 0) (to_numeric L c)) vs)"
    by (simp add: list_all_iff fill_zero_is_num)
  show "\<forall>vs. list_all is_num vs \<longrightarrow> map (\<lambda>c. fillna_cell (Num 0) (to_numeric L c)) vs = vs"
    by (simp add: list_all_iff map_idI fill_zero_fixed)
qed

lemma dropWhile_fixed: "xs = [] \<or> \<not> P (hd xs) \<Longrightarrow> dropWhile P xs = xs"
  by (cases xs) auto

lemma last_dropWhile: "dropWhile P xs \<noteq> [] \<Longrightarrow> last (dropWhile P xs) = last xs"
proof -
  assume n: "dropWhile P xs \<noteq> []"
  have "last xs = last (takeWhile P xs @ dropWhile P xs)" by simp
  also from n have "\<dots> = last (dropWhile P xs)" by (rule last_appendR)
  finally show ?thesis by simp
qed

lemma strip_strip: "strip (strip s) = strip s"
proof -
  define a where "a = dropWhile is_space s"
  define b where "b = dropWhile is_space (rev a)"
  have s: "strip s = rev b" by (simp add: strip_def a_def b_def)
  have hd_rev: "rev b = [] \<or> \<not> is_space (hd (rev b))"
  proof (cases "b = []")
    case True
    then show ?thesis by simp
  next
    case False
    then have n: "dropWhile is_space (rev a) \<noteq> []" by (simp add: b_def)
    then have an: "a \<noteq> []" by auto
    from False have "hd (rev b) = last b" by (simp add: hd_rev)
    also from n have "\<dots> = last (rev a)" unfolding b_def by (rule last_dropWhile)
    also from an have "\<dots> = hd a" by (simp add: last_rev)
    finally have h: "hd (rev b) = hd a" .
    from an have "\<not> is_space (hd a)" unfolding a_def by (rule hd_dropWhile)
    with h show ?thesis by simp
  qed
  then have e: "dropWhile is_space (rev b) = rev b" by (rule dropWhile_fixed)
  have "dropWhile is_space b = b" unfolding b_def by (rule dropWhile_idem)
  with e have "strip (rev b) = rev b" by (simp add: strip_def)
  then show ?thesis by (simp only: s)
qed

lemma standardize_is_standard:
  assumes "lower_stable L"
  shows "is_standard L (Str (strip (str_lower L s)))"
proof -
  from assms have "str_lower L (strip (str_lower L s)) = strip (str_lower L (str_lower L s))"
    unfolding lower_stable_def by blast
  also from assms have "\<dots> = strip (str_lower L s)" unfolding lower_stable_def by simp
  finally have "strip (str_lower L (strip (str_lower L s))) = strip (strip (str_lower L s))"
    by simp
  then show ?thesis by (simp add: is_standard_def strip_strip)
qed

lemma standardize_fixed: "is_standard L c \<Longrightarrow> Str (strip (str_lower L (astype_str L c))) = c"
  by (cases c) (simp_all add: is_standard_def astype_str_def)

lemma sound_standardize:
  assumes "lower_stable L"
  shows "sound (cell_stmt dup (standardize_strings L) (is_standard L) c)"
proof (rule sound_cell_stmt)
  show "\<forall>vs. length (standardize_strings L vs) = length vs"
    by (simp add: length_standardize_strings)
  show "\<forall>vs. list_all (is_standard L) (standardize_strings L vs)"
    by (simp add: standardize_strings_def list_all_iff standardize_is_standard [OF assms])
  show "\<forall>vs. list_all (is_standard L) vs \<longrightarrow> standardize_strings L vs = vs"
    by (simp add: standardize_strings_def list_all_iff map_idI standardize_fixed)
qed

subsection \<open>Filling with a median\<close>

lemma fillna_isna: "isna (fillna_cell m c) \<Longrightarrow> isna m \<and> isna c"
  by (auto simp: fillna_cell_def split: if_splits)

lemma fillna_NaN: "fillna_cell NaN c = c"
  by (simp add: fillna_cell_def isna_def)

lemma fillna_present: "\<not> isna c \<Longrightarrow> fillna_cell m c = c"
  by (simp add: fillna_cell_def)

lemma nums_empty: "(\<forall>c \<in> set cs. \<not> is_num c) \<Longrightarrow> nums cs = []"
proof (induction cs)
  case Nil
  show ?case by (simp add: nums_def)
next
  case (Cons c cs)
  then have "nums cs = []" by simp
  moreover from Cons.prems have "\<not> is_num c" by simp
  then have "(case c of Num r \<Rightarrow> [r] | _ \<Rightarrow> []) = []" by (cases c) (simp_all add: is_num_def)
  ultimately show ?case by (simp add: nums_def)
qed

lemma median_no_num: "(\<forall>c \<in> set cs. \<not> is_num c) \<Longrightarrow> median cs = NaN"
  using nums_empty [of cs] median_cases [of cs] by auto

lemma median_isna:
  assumes "isna (median cs)"
  shows "median cs = NaN" "\<forall>c \<in> set cs. \<not> is_num c"
proof -
  from assms median_cases [of cs] have n: "nums cs = []" and m: "median cs = NaN"
    by (auto simp: isna_def)
  from m show "median cs = NaN" .
  show "\<forall>c \<in> set cs. \<not> is_num c"
  proof
    fix c assume c: "c \<in> set cs"
    show "\<not> is_num c"
    proof
      assume "is_num c"
      then obtain x where "c = Num x" by (auto simp: is_num_iff)
      with c have "Num x \<in> set cs" by simp
      from nums_nonempty [OF this] n show False by simp
    qed
  qed
qed

lemma fill_overall_median_settles:
  "\<forall>v \<in> set (fill_overall_median vs). isna v \<longrightarrow> (\<forall>v' \<in> set (fill_overall_median vs). \<not> is_num v')"
proof (intro ballI impI)
  fix v v' assume v: "v \<in> set (fill_overall_median vs)" and na: "isna v"
    and v': "v' \<in> set (fill_overall_median vs)"
  from v obtain c where "c \<in> set vs" "v = fillna_cell (median vs) c"
    by (auto simp: fill_overall_median_def)
  with na fillna_isna have "isna (median vs)" by blast
  note m = median_isna [OF this]
  from v' obtain c' where c': "c' \<in> set vs" "v' = fillna_cell (median vs) c'"
    by (auto simp: fill_overall_median_def)
  then have "v' = c'" by (simp add: m(1) fillna_NaN)
  with c'(1) m(2) show "\<not> is_num v'" by simp
qed

lemma fill_overall_median_fixed:
  assumes "\<forall>v \<in> set vs. isna v \<longrightarrow> (\<forall>v' \<in> set vs. \<not> is_num v')"
  shows "fill_overall_median vs = vs"
  unfolding fill_overall_median_def
proof (rule map_idI)
  fix c assume c: "c \<in> set vs"
  show "fillna_cell (median vs) c = c"
  proof (cases "isna c")
    case False
    then show ?thesis by (rule fillna_present)
  next
    case True
    with assms c have "\<forall>v' \<in> set vs. \<not> is_num v'" by blast
    from median_no_num [OF this] show ?thesis by (simp add: fillna_NaN)
  qed
qed

lemma sound_median_stmt: "sound (median_stmt c)"
proof -
  have len: "\<forall>vs. length (fill_overall_median vs) = length vs"
    by (simp add: length_fill_overall_median)
  have w: "writes_only (map_col ValueError fill_overall_median c) c"
    by (rule writes_only_map_col [OF len])
  have e: "establishes (map_col ValueError fill_overall_median c) (settled c)"
    unfolding establishes_def
  proof (intro allI impI)
    fix x y assume h: "wf_frame x \<and> map_col ValueError fill_overall_median c x = Inr y"
    then have wf: "wf_frame x" and m: "map_col ValueError fill_overall_median c x = Inr y" by simp_all
    from len have l: "length (fill_overall_median (column c x)) = length (column c x)" by simp
    note s = map_col_column [OF m wf l]
    from map_col_has [OF m] s(2) have "has_col c y" by (simp add: has_col_def)
    with fill_overall_median_settles [of "column c x"] show "settled c y"
      unfolding settled_def s(3) by simp
  qed
  have f: "fixed_by (map_col ValueError fill_overall_median c) (settled c)"
    unfolding fixed_by_def
  proof (intro allI impI)
    fix x assume h: "wf_frame x \<and> settled c x"
    then have hc: "has_col c x"
      and p: "\<forall>v \<in> set (column c x). isna v \<longrightarrow> (\<forall>v' \<in> set (column c x). \<not> is_num v')"
      by (simp_all add: settled_def)
    from fill_overall_median_fixed [OF p]
    show "map_col ValueError fill_overall_median c x = Inr x"
      by (rule map_col_fixed [where F = fill_overall_median, OF hc])
  qed
  have d: "depends_on (settled c) [c]"
    unfolding depends_on_def settled_def has_col_def by simp
  have sv: "survives_dedup (settled c)"
    unfolding survives_dedup_def
  proof (intro allI impI)
    fix x assume h: "wf_frame x \<and> settled c x"
    then have hc: "has_col c x"
      and p: "\<forall>v \<in> set (column c x). isna v \<longrightarrow> (\<forall>v' \<in> set (column c x). \<not> is_num v')"
      by (simp_all add: settled_def)
    from p column_dedup_subset [of c x]
    have "\<forall>v \<in> set (column c (drop_duplicates x)). isna v
            \<longrightarrow> (\<forall>v' \<in> set (column c (drop_duplicates x)). \<not> is_num v')" by blast
    with hc show "settled c (drop_duplicates x)" by (simp add: settled_def has_col_dedup)
  qed
  from w e f d sv show ?thesis by (simp add: sound_def median_stmt_def)
qed

lemma fill_overall_median_keeps_numeric:
  "list_all numeric vs \<Longrightarrow> list_all numeric (fill_overall_median vs)"
  by (simp add: fill_overall_median_def list_all_iff fillna_cell_numeric median_numeric)

lemma preserves_numeric_median:
  "preserves (run (median_stmt c)) (post (cell_stmt dup (map (to_numeric L)) numeric c))"
proof -
  have "preserves (map_col ValueError fill_overall_median c) (cells numeric c)"
    by (rule preserves_cells) (simp_all add: length_fill_overall_median fill_overall_median_keeps_numeric)
  then show ?thesis by (simp add: median_stmt_def cell_stmt_def)
qed

subsection \<open>Filling with the median of the group\<close>

lemma group_member:
  assumes "i < length keys" "length keys = length vals"
  shows "vals ! i \<in> set (map snd (filter (\<lambda>p. fst p = keys ! i) (zip keys vals)))"
proof -
  from assms have "(keys ! i, vals ! i) \<in> set (zip keys vals)"
    by (metis in_set_zip fst_conv snd_conv)
  then have "(keys ! i, vals ! i) \<in> set (filter (\<lambda>p. fst p = keys ! i) (zip keys vals))" by simp
  then show ?thesis by force
qed

lemma group_median_fill_settles:
  assumes len: "length keys = length vals"
  shows "settled_pairs (set (zip keys (group_median_fill keys vals)))"
  unfolding settled_pairs_def
proof (intro ballI conjI impI)
  fix p assume p: "p \<in> set (zip keys (group_median_fill keys vals))" and na: "isna (fst p)"
  from p obtain i where i: "i < length keys" "i < length (group_median_fill keys vals)"
    and e: "p = (keys ! i, group_median_fill keys vals ! i)"
    by (auto simp: in_set_zip)
  from i len have iv: "i < length vals" by simp
  from na e have "isna (keys ! i)" by simp
  with group_median_fill_nth [OF i(1) iv] e show "snd p = NaN" by simp
next
  fix p q assume p: "p \<in> set (zip keys (group_median_fill keys vals))"
    and h: "\<not> isna (fst p) \<and> isna (snd p)"
    and q: "q \<in> set (zip keys (group_median_fill keys vals))" and k: "fst q = fst p"
  from p obtain i where i: "i < length keys"
    and e: "p = (keys ! i, group_median_fill keys vals ! i)"
    by (auto simp: in_set_zip)
  from q obtain i' where i': "i' < length keys"
    and e': "q = (keys ! i', group_median_fill keys vals ! i')"
    by (auto simp: in_set_zip)
  from i i' len have iv: "i < length vals" "i' < length vals" by simp_all
  let ?G = "map snd (filter (\<lambda>p. fst p = keys ! i) (zip keys vals))"
  from h e have nk: "\<not> isna (keys ! i)" and nv: "isna (group_median_fill keys vals ! i)" by simp_all
  from group_median_fill_nth [OF i iv(1)] nk
  have "group_median_fill keys vals ! i = fillna_cell (median ?G) (vals ! i)" by simp
  with nv fillna_isna have "isna (median ?G)" by metis
  note m = median_isna [OF this]
  from k e e' have kk: "keys ! i' = keys ! i" by simp
  with nk have nk': "\<not> isna (keys ! i')" by simp
  from group_median_fill_nth [OF i' iv(2)] nk' kk
  have "group_median_fill keys vals ! i' = fillna_cell (median ?G) (vals ! i')" by simp
  then have o: "group_median_fill keys vals ! i' = vals ! i'" by (simp add: m(1) fillna_NaN)
  from group_member [OF i' len] kk have "vals ! i' \<in> set ?G" by simp
  with m(2) have "\<not> is_num (vals ! i')" by blast
  with o e' show "\<not> is_num (snd q)" by simp
qed

lemma group_median_fill_fixed:
  assumes len: "length keys = length vals" and s: "settled_pairs (set (zip keys vals))"
  shows "group_median_fill keys vals = vals"
proof (rule nth_equalityI)
  from len show "length (group_median_fill keys vals) = length vals"
    by (simp add: length_group_median_fill)
next
  fix i assume "i < length (group_median_fill keys vals)"
  with len have i: "i < length keys" and iv: "i < length vals"
    by (simp_all add: length_group_median_fill)
  let ?G = "map snd (filter (\<lambda>p. fst p = keys ! i) (zip keys vals))"
  from i len have mem: "(keys ! i, vals ! i) \<in> set (zip keys vals)"
    by (metis in_set_zip fst_conv snd_conv)
  note e = group_median_fill_nth [OF i iv]
  show "group_median_fill keys vals ! i = vals ! i"
  proof (cases "isna (keys ! i)")
    case True
    with s mem have "vals ! i = NaN" unfolding settled_pairs_def by force
    with e True show ?thesis by simp
  next
    case nk: False
    show ?thesis
    proof (cases "isna (vals ! i)")
      case False
      with e nk show ?thesis by (simp add: fillna_present)
    next
      case True
      have "\<forall>c \<in> set ?G. \<not> is_num c"
      proof
        fix c assume "c \<in> set ?G"
        then obtain q where q: "q \<in> set (zip keys vals)" "fst q = keys ! i" "c = snd q" by auto
        from s mem nk True have "\<forall>q \<in> set (zip keys vals). fst q = keys ! i \<longrightarrow> \<not> is_num (snd q)"
          unfolding settled_pairs_def by force
        with q show "\<not> is_num c" by simp
      qed
      from median_no_num [OF this] e nk show ?thesis by (simp add: fillna_NaN)
    qed
  qed
qed

lemma group_median_fill_keeps_numeric:
  assumes "list_all numeric vals"
  shows "list_all numeric (group_median_fill keys vals)"
proof -
  have "\<forall>p \<in> set (zip keys vals). numeric (snd p)"
  proof
    fix p assume "p \<in> set (zip keys vals)"
    then have "(fst p, snd p) \<in> set (zip keys vals)" by simp
    then have "snd p \<in> set vals" by (rule set_zip_rightD)
    with assms show "numeric (snd p)" by (simp add: list_all_iff)
  qed
  then have "\<forall>p \<in> set (zip keys vals).
      numeric (case p of (k, v) \<Rightarrow> if isna k then NaN
          else fillna_cell (median (map snd (filter (\<lambda>p. fst p = k) (zip keys vals)))) v)"
  proof (intro ballI)
    fix p assume a: "\<forall>p \<in> set (zip keys vals). numeric (snd p)" and p: "p \<in> set (zip keys vals)"
    obtain k v where e: "p = (k, v)" by (cases p)
    from a p e have nv: "numeric v" by auto
    have "numeric NaN" by (simp add: numeric_def)
    with fillna_cell_numeric [OF median_numeric nv]
    show "numeric (case p of (k, v) \<Rightarrow> if isna k then NaN
          else fillna_cell (median (map snd (filter (\<lambda>p. fst p = k) (zip keys vals)))) v)"
      unfolding e by simp
  qed
  then show ?thesis
    unfolding group_median_fill_def list_all_iff by simp
qed

lemma fill_one_Inr:
  assumes "fill_one g c x = Inr y"
  shows "has_col g x" "has_col c x" "map_col ValueError (group_median_fill (column g x)) c x = Inr y"
proof -
  from assms obtain keys where k: "get_col ValueError g x = Inr keys"
    and m: "map_col ValueError (group_median_fill keys) c x = Inr y"
    by (auto simp: fill_one_def split: sum.splits)
  from get_col_has [OF k] show "has_col g x" by simp
  from map_col_has [OF m] show "has_col c x" .
  from get_col_has(2) [OF k] m
  show "map_col ValueError (group_median_fill (column g x)) c x = Inr y" by simp
qed

lemma fill_one_column:
  assumes f: "fill_one g c x = Inr y" and wf: "wf_frame x"
  shows "wf_frame y" "columns y = columns x"
    "column c y = group_median_fill (column g x) (column c x)"
    "\<forall>c'. c' \<noteq> c \<longrightarrow> column c' y = column c' x"
    "length (column g x) = length (column c x)"
proof -
  note h = fill_one_Inr [OF f]
  from length_column [OF h(1)] length_column [OF h(2)]
  show l: "length (column g x) = length (column c x)" by simp
  then have len: "length (group_median_fill (column g x) (column c x)) = length (column c x)"
    by (simp add: length_group_median_fill)
  note s = map_col_column [where F = "group_median_fill (column g x)", OF h(3) wf len]
  show "wf_frame y" by (rule s(1))
  show "columns y = columns x" by (rule s(2))
  show "column c y = group_median_fill (column g x) (column c x)" by (rule s(3))
  show "\<forall>c'. c' \<noteq> c \<longrightarrow> column c' y = column c' x" by (rule s(4))
qed

lemma settled_pairs_subset: "S' \<subseteq> S \<Longrightarrow> settled_pairs S \<Longrightarrow> settled_pairs S'"
  unfolding settled_pairs_def by blast

lemma sound_group_stmt:
  assumes ne: "g \<noteq> c"
  shows "sound (group_stmt g c)"
proof -
  have w: "writes_only (fill_one g c) c"
    unfolding writes_only_def
  proof (intro allI impI)
    fix x y assume h: "wf_frame x \<and> fill_one g c x = Inr y"
    then have wf: "wf_frame x" and f: "fill_one g c x = Inr y" by simp_all
    note s = fill_one_column [OF f wf]
    from s(1) s(2) s(4)
    show "wf_frame y \<and> columns y = columns x \<and> (\<forall>c'. c' \<noteq> c \<longrightarrow> column c' y = column c' x)"
      by (intro conjI)
  qed
  have e: "establishes (fill_one g c) (group_settled g c)"
    unfolding establishes_def
  proof (intro allI impI)
    fix x y assume h: "wf_frame x \<and> fill_one g c x = Inr y"
    then have wf: "wf_frame x" and f: "fill_one g c x = Inr y" by simp_all
    note s = fill_one_column [OF f wf]
    note hc = fill_one_Inr [OF f]
    from hc(1) hc(2) s(2) have hy: "has_col g y" "has_col c y" by (simp_all add: has_col_def)
    from s(4) ne have gy: "column g y = column g x" by simp
    from group_median_fill_settles [OF s(5)]
    have "settled_pairs (set (zip (column g y) (column c y)))" unfolding gy s(3) .
    with hy show "group_settled g c y" by (simp add: group_settled_def)
  qed
  have f: "fixed_by (fill_one g c) (group_settled g c)"
    unfolding fixed_by_def
  proof (intro allI impI)
    fix x assume h: "wf_frame x \<and> group_settled g c x"
    then have hg: "has_col g x" and hc: "has_col c x"
      and p: "settled_pairs (set (zip (column g x) (column c x)))"
      by (simp_all add: group_settled_def)
    from length_column [OF hg] length_column [OF hc]
    have l: "length (column g x) = length (column c x)" by simp
    from group_median_fill_fixed [OF l p]
    have "map_col ValueError (group_median_fill (column g x)) c x = Inr x"
      by (rule map_col_fixed [where F = "group_median_fill (column g x)", OF hc])
    with has_get_col [OF hg, of ValueError] show "fill_one g c x = Inr x"
      by (simp add: fill_one_def)
  qed
  have d: "depends_on (group_settled g c) [g, c]"
    unfolding depends_on_def group_settled_def has_col_def by simp
  have sv: "survives_dedup (group_settled g c)"
    unfolding survives_dedup_def
  proof (intro allI impI)
    fix x assume h: "wf_frame x \<and> group_settled g c x"
    then have hg: "has_col g x" and hc: "has_col c x"
      and p: "settled_pairs (set (zip (column g x) (column c x)))"
      by (simp_all add: group_settled_def)
    from settled_pairs_subset [OF zip_column_dedup_subset p] hg hc
    show "group_settled g c (drop_duplicates x)" by (simp add: group_settled_def has_col_dedup)
  qed
  from w e f d sv show ?thesis by (simp add: sound_def group_stmt_def)
qed

lemma preserves_numeric_group:
  "preserves (run (group_stmt g c)) (post (cell_stmt dup (map (to_numeric L)) numeric c))"
proof -
  have "preserves (fill_one g c) (cells numeric c)"
    unfolding preserves_def
  proof (intro allI impI)
    fix x y assume h: "wf_frame x \<and> cells numeric c x \<and> fill_one g c x = Inr y"
    then have wf: "wf_frame x" and f: "fill_one g c x = Inr y"
      and hc: "has_col c x" and p: "list_all numeric (column c x)" by (simp_all add: cells_def)
    note s = fill_one_column [OF f wf]
    from hc s(2) have "has_col c y" by (simp add: has_col_def)
    moreover from group_median_fill_keeps_numeric [OF p]
    have "list_all numeric (column c y)" unfolding s(3) .
    ultimately show "cells numeric c y" by (simp add: cells_def)
  qed
  then show ?thesis by (simp add: group_stmt_def cell_stmt_def)
qed

lemma steps_fill_two:
  "steps (fill_numeric_by_group_median g [c1, c2] # fs) x = steps (fill_one g c1 # fill_one g c2 # fs) x"
  by (simp add: fill_one_def split: sum.splits)

lemma steps_cong_tail:
  "(\<And>y. steps fs y = steps gs y) \<Longrightarrow> steps (f # fs) x = steps (f # gs) x"
  by (cases "f x") simp_all

subsection \<open>Renaming and the whole cleaner\<close>

lemma rename_targets:
  assumes t: "\<forall>p \<in> set m. map_of m (snd p) = None"
  shows "\<forall>c \<in> set (columns (rename_columns m df)). map_of m c = None"
proof
  fix c assume "c \<in> set (columns (rename_columns m df))"
  then obtain c0 where c: "c = (case map_of m c0 of None \<Rightarrow> c0 | Some c' \<Rightarrow> c')"
    by (auto simp: rename_columns_def)
  show "map_of m c = None"
  proof (cases "map_of m c0")
    case None
    with c show ?thesis by simp
  next
    case (Some c')
    then have "(c0, c') \<in> set m" by (rule map_of_SomeD)
    with t have "map_of m c' = None" by force
    with c Some show ?thesis by simp
  qed
qed

lemma rename_fixed:
  assumes "\<forall>c \<in> set (columns z). map_of m c = None"
  shows "rename_inplace m z = Inr z"
proof -
  have "map (\<lambda>c. case map_of m c of None \<Rightarrow> c | Some c' \<Rightarrow> c') (columns z) = columns z"
  proof (rule map_idI)
    fix c assume "c \<in> set (columns z)"
    with assms have "map_of m c = None" by simp
    then show "(case map_of m c of None \<Rightarrow> c | Some c' \<Rightarrow> c') = c" by simp
  qed
  then show ?thesis by (simp add: rename_inplace_def rename_columns_def)
qed

lemma cleaner_idem:
  assumes t: "\<forall>p \<in> set m. map_of m (snd p) = None"
    and s: "list_all sound ds" and o: "ordered ds"
    and body: "\<And>y. steps rest y = steps (map run ds) y"
    and wf: "wf_frame x"
    and c: "cleaner (rename_inplace m # rest) x = Inr df"
  shows "cleaner (rename_inplace m # rest) df = Inr df"
proof -
  from cleaner_Inr [OF c] obtain y where st: "steps (rename_inplace m # rest) x = Inr y"
    and df: "df = drop_duplicates y" by blast
  from steps_Cons_Inr [OF st] obtain x1 where r: "rename_inplace m x = Inr x1"
    and st1: "steps rest x1 = Inr y" by blast
  from r have x1: "x1 = rename_columns m x" by (simp add: rename_inplace_def)
  note w1 = rename_inplace_Inr(1) [OF r wf]
  from st1 have st2: "steps (map run ds) x1 = Inr y" by (simp only: body)
  from steps_wf [OF sound_writes [OF s] w1 st2] have cy: "columns y = columns x1" by simp
  have "steps (map run ds) df = Inr df" unfolding df by (rule steps_idem [OF s o w1 st2])
  then have a: "steps rest df = Inr df" by (simp only: body)
  have "columns df = columns x1" by (simp add: df drop_duplicates_def cy)
  with rename_targets [OF t, of x] have "\<forall>c \<in> set (columns df). map_of m c = None"
    by (simp add: x1)
  from rename_fixed [OF this] a have "steps (rename_inplace m # rest) df = Inr df" by simp
  moreover have "drop_duplicates df = df" unfolding df by (rule drop_duplicates_idem)
  ultimately show ?thesis by (simp add: cleaner_def)
qed

lemma rename_maps_targets:
  "\<forall>p \<in> set shipments_rename_map. map_of shipments_rename_map (snd p) = None"
  "\<forall>p \<in> set routes_rename_map. map_of routes_rename_map (snd p) = None"
  "\<forall>p \<in> set warehouses_rename_map. map_of warehouses_rename_map (snd p) = None"
  "\<forall>p \<in> set carriers_rename_map. map_of carriers_rename_map (snd p) = None"
  "\<forall>p \<in> set delays_rename_map. map_of delays_rename_map (snd p) = None"
  by (simp_all add: shipments_rename_map_def routes_rename_map_def warehouses_rename_map_def
      carriers_rename_map_def delays_rename_map_def nm_def)

lemma clean_routes_idem:
  assumes lib: "lower_stable L" and wf: "wf_frame x" and c: "clean_routes L x = Inr df"
  shows "clean_routes L df = Inr df"
proof -
  let ?ds = "[cell_stmt TypeError (map (to_numeric L)) numeric (nm ''distance''),
      cell_stmt TypeError (map (to_numeric L)) numeric (nm ''avg_time''),
      cell_stmt TypeError (map (to_numeric L)) numeric (nm ''avg_cost''),
      cell_stmt AttributeError (standardize_strings L) (is_standard L) (nm ''origin''),
      cell_stmt AttributeError (standardize_strings L) (is_standard L) (nm ''destination'')]"
  let ?rest = "[map_col TypeError (map (to_numeric L)) (nm ''distance''),
      map_col TypeError (map (to_numeric L)) (nm ''avg_time''),
      map_col TypeError (map (to_numeric L)) (nm ''avg_cost''),
      map_col AttributeError (standardize_strings L) (nm ''origin''),
      map_col AttributeError (standardize_strings L) (nm ''destination'')]"
  have s: "list_all sound ?ds" by (simp add: sound_to_numeric sound_standardize [OF lib])
  have o: "ordered ?ds" by (simp add: cell_stmt_def nm_def)
  have body: "\<And>y. steps ?rest y = steps (map run ?ds) y" by (simp add: cell_stmt_def)
  from c have "cleaner (rename_inplace routes_rename_map # ?rest) x = Inr df"
    by (simp add: clean_routes_def routes_steps_def)
  from cleaner_idem [OF rename_maps_targets(2) s o body wf this]
  show ?thesis by (simp add: clean_routes_def routes_steps_def)
qed

lemma clean_carriers_idem:
  assumes lib: "lower_stable L" and wf: "wf_frame x" and c: "clean_carriers L x = Inr df"
  shows "clean_carriers L df = Inr df"
proof -
  let ?ds = "[cell_stmt AttributeError (standardize_strings L) (is_standard L) (nm ''name''),
      cell_stmt TypeError (map (to_numeric L)) numeric (nm ''rating''),
      cell_stmt TypeError (map (to_numeric L)) numeric (nm ''fleet_size''),
      cell_stmt TypeError (map (to_numeric L)) numeric (nm ''reliability'')]"
  let ?rest = "[map_col AttributeError (standardize_strings L) (nm ''name''),
      map_col TypeError (map (to_numeric L)) (nm ''rating''),
      map_col TypeError (map (to_numeric L)) (nm ''fleet_size''),
      map_col TypeError (map (to_numeric L)) (nm ''reliability'')]"
  have s: "list_all sound ?ds" by (simp add: sound_to_numeric sound_standardize [OF lib])
  have o: "ordered ?ds" by (simp add: cell_stmt_def nm_def)
  have body: "\<And>y. steps ?rest y = steps (map run ?ds) y" by (simp add: cell_stmt_def)
  from c have "cleaner (rename_inplace carriers_rename_map # ?rest) x = Inr df"
    by (simp add: clean_carriers_def carriers_steps_def)
  from cleaner_idem [OF rename_maps_targets(4) s o body wf this]
  show ?thesis by (simp add: clean_carriers_def carriers_steps_def)
qed

lemma clean_delays_idem:
  assumes dates: "coerces_dates L" and lib: "lower_stable L" and wf: "wf_frame x"
    and c: "clean_delays L x = Inr df"
  shows "clean_delays L df = Inr df"
proof -
  let ?ds = "[cell_stmt ValueError (to_datetime L) is_datetime (nm ''date''),
      cell_stmt TypeError (map (\<lambda>c. fillna_cell (Num 0) (to_numeric L c))) is_num (nm ''delay_hours''),
      cell_stmt AttributeError (standardize_strings L) (is_standard L) (nm ''reason'')]"
  let ?rest = "[map_col ValueError (to_datetime L) (nm ''date''),
      map_col TypeError (map (\<lambda>c. fillna_cell (Num 0) (to_numeric L c))) (nm ''delay_hours''),
      map_col AttributeError (standardize_strings L) (nm ''reason'')]"
  have s: "list_all sound ?ds"
    by (simp add: sound_to_datetime [OF dates] sound_fill_zero sound_standardize [OF lib])
  have o: "ordered ?ds" by (simp add: cell_stmt_def nm_def)
  have body: "\<And>y. steps ?rest y = steps (map run ?ds) y" by (simp add: cell_stmt_def)
  from c have "cleaner (rename_inplace delays_rename_map # ?rest) x = Inr df"
    by (simp add: clean_delays_def delays_steps_def)
  from cleaner_idem [OF rename_maps_targets(5) s o body wf this]
  show ?thesis by (simp add: clean_delays_def delays_steps_def)
qed

lemma clean_warehouses_idem:
  assumes lib: "lower_stable L" and wf: "wf_frame x" and c: "clean_warehouses L x = Inr df"
  shows "clean_warehouses L df = Inr df"
proof -
  let ?ds = "[cell_stmt AttributeError (standardize_strings L) (is_standard L) (nm ''region''),
      cell_stmt TypeError (map (to_numeric L)) numeric (nm ''capacity''),
      cell_stmt TypeError (map (to_numeric L)) numeric (nm ''current_fill''),
      median_stmt (nm ''current_fill'')]"
  let ?rest = "[map_col AttributeError (standardize_strings L) (nm ''region''),
      map_col TypeError (map (to_numeric L)) (nm ''capacity''),
      map_col TypeError (map (to_numeric L)) (nm ''current_fill''),
      map_col ValueError fill_overall_median (nm ''current_fill'')]"
  have s: "list_all sound ?ds"
    by (simp add: sound_to_numeric sound_standardize [OF lib] sound_median_stmt)
  have t: "target (median_stmt (nm ''current_fill'')) = nm ''current_fill''"
    by (simp add: median_stmt_def)
  have o: "ordered ?ds"
    by (simp add: preserves_numeric_median t) (simp add: cell_stmt_def nm_def)
  have body: "\<And>y. steps ?rest y = steps (map run ?ds) y"
    by (simp add: cell_stmt_def median_stmt_def)
  from c have "cleaner (rename_inplace warehouses_rename_map # ?rest) x = Inr df"
    by (simp add: clean_warehouses_def warehouses_steps_def)
  from cleaner_idem [OF rename_maps_targets(3) s o body wf this]
  show ?thesis by (simp add: clean_warehouses_def warehouses_steps_def)
qed

lemma clean_shipments_idem:
  assumes dates: "coerces_dates L" and lib: "lower_stable L" and wf: "wf_frame x"
    and c: "clean_shipments L x = Inr df"
  shows "clean_shipments L df = Inr df"
proof -
  let ?ds = "[cell_stmt ValueError (to_datetime L) is_datetime (nm ''ship_date''),
      cell_stmt ValueError (to_datetime L) is_datetime (nm ''delivery_date''),
      cell_stmt TypeError (map (to_numeric L)) numeric (nm ''weight''),
      cell_stmt TypeError (map (to_numeric L)) numeric (nm ''cost''),
      group_stmt (nm ''route_id'') (nm ''weight''),
      group_stmt (nm ''route_id'') (nm ''cost''),
      cell_stmt AttributeError (standardize_strings L) (is_standard L) (nm ''sender''),
      cell_stmt AttributeError (standardize_strings L) (is_standard L) (nm ''recipient''),
      cell_stmt AttributeError (standardize_strings L) (is_standard L) (nm ''status'')]"
  let ?rest = "[map_col ValueError (to_datetime L) (nm ''ship_date''),
      map_col ValueError (to_datetime L) (nm ''delivery_date''),
      map_col TypeError (map (to_numeric L)) (nm ''weight''),
      map_col TypeError (map (to_numeric L)) (nm ''cost''),
      fill_numeric_by_group_median (nm ''route_id'') [nm ''weight'', nm ''cost''],
      map_col AttributeError (standardize_strings L) (nm ''sender''),
      map_col AttributeError (standardize_strings L) (nm ''recipient''),
      map_col AttributeError (standardize_strings L) (nm ''status'')]"
  have s: "list_all sound ?ds"
    by (simp add: sound_to_datetime [OF dates] sound_to_numeric sound_standardize [OF lib]
        sound_group_stmt [OF names_distinct(2)] sound_group_stmt [OF names_distinct(3)])
  have t: "target (group_stmt (nm ''route_id'') (nm ''weight'')) = nm ''weight''"
    "target (group_stmt (nm ''route_id'') (nm ''cost'')) = nm ''cost''"
    by (simp_all add: group_stmt_def)
  have o: "ordered ?ds"
    by (simp add: preserves_numeric_group t) (simp add: cell_stmt_def group_stmt_def nm_def)
  have body: "\<And>y. steps ?rest y = steps (map run ?ds) y"
    apply (simp only: list.map cell_stmt_def group_stmt_def stmt.select_convs)
    apply (rule steps_cong_tail)
    apply (rule steps_cong_tail)
    apply (rule steps_cong_tail)
    apply (rule steps_cong_tail)
    apply (rule steps_fill_two)
    done
  from c have "cleaner (rename_inplace shipments_rename_map # ?rest) x = Inr df"
    by (simp add: clean_shipments_def shipments_steps_def)
  from cleaner_idem [OF rename_maps_targets(1) s o body wf this]
  show ?thesis by (simp add: clean_shipments_def shipments_steps_def)
qed

subsection \<open>The sample library and the sample frames\<close>

lemma ex_pandas_coerces_dates: "coerces_dates ex_pandas"
  by (simp add: coerces_dates_def ex_pandas_def list_all_iff is_datetime_def split: cell.splits)

lemma ex_lower_space:
  "is_space (if 65 \<le> c \<and> c \<le> 90 then c + 32 else c) = is_space c"
  by (simp add: is_space_def)

lemma ex_pandas_lower_stable: "lower_stable ex_pandas"
proof -
  let ?f = "\<lambda>c::nat. if 65 \<le> c \<and> c \<le> 90 then c + 32 else c"
  have sp: "is_space \<circ> ?f = is_space" by (rule ext) (simp add: is_space_def)
  have idem: "\<And>s. map ?f (map ?f s) = map ?f s" by simp
  have d: "\<And>xs. dropWhile is_space (map ?f xs) = map ?f (dropWhile is_space xs)"
    by (simp only: dropWhile_map sp)
  have comm: "\<And>s. map ?f (strip s) = strip (map ?f s)"
    unfolding strip_def by (simp only: d rev_map)
  from idem comm show ?thesis by (simp add: lower_stable_def ex_pandas_def)
qed

lemma ex_routes_eq: "clean_routes ex_pandas ex_routes_frame = Inr ex_routes_cleaned"
  by (simp add: clean_routes_def routes_steps_def ex_routes_frame_def ex_pandas_def
      ex_routes_cleaned_def clean_defs)

lemma ex_carriers_eq: "clean_carriers ex_pandas ex_carriers_frame = Inr ex_carriers_cleaned"
  by (simp add: clean_carriers_def carriers_steps_def ex_carriers_frame_def ex_pandas_def
      ex_carriers_cleaned_def clean_defs)

lemma ex_delays_eq: "clean_delays ex_pandas ex_delays_frame = Inr ex_delays_cleaned"
  by (simp add: clean_delays_def delays_steps_def ex_delays_frame_def ex_pandas_def
      ex_delays_cleaned_def clean_defs)

text \<open>
  C3.  Each of the five cleaners, run on its own result, returns that result: whenever a
  cleaner returns a frame \<open>df\<close> on a rectangular frame \<open>raw\<close>, the same cleaner returns \<open>df\<close>
  on \<open>df\<close>.  Of the library this uses that \<open>pd.to_datetime\<close> with \<open>errors="coerce"\<close> yields
  a datetime column of the same length, and that \<open>str.lower\<close> is idempotent and commutes
  with \<open>str.strip\<close>.
\<close>

theorem cleaners_idempotent_on_clean_input:
  assumes "coerces_dates L" "lower_stable L" "wf_frame raw"
  shows "(\<forall>df. clean_shipments L raw = Inr df \<longrightarrow> clean_shipments L df = Inr df)
       \<and> (\<forall>df. clean_routes L raw = Inr df \<longrightarrow> clean_routes L df = Inr df)
       \<and> (\<forall>df. clean_warehouses L raw = Inr df \<longrightarrow> clean_warehouses L df = Inr df)
       \<and> (\<forall>df. clean_carriers L raw = Inr df \<longrightarrow> clean_carriers L df = Inr df)
       \<and> (\<forall>df. clean_delays L raw = Inr df \<longrightarrow> clean_delays L df = Inr df)"
proof (intro conjI allI impI)
  fix df assume "clean_shipments L raw = Inr df"
  then show "clean_shipments L df = Inr df" by (rule clean_shipments_idem [OF assms])
next
  fix df assume "clean_routes L raw = Inr df"
  then show "clean_routes L df = Inr df" by (rule clean_routes_idem [OF assms(2) assms(3)])
next
  fix df assume "clean_warehouses L raw = Inr df"
  then show "clean_warehouses L df = Inr df" by (rule clean_warehouses_idem [OF assms(2) assms(3)])
next
  fix df assume "clean_carriers L raw = Inr df"
  then show "clean_carriers L df = Inr df" by (rule clean_carriers_idem [OF assms(2) assms(3)])
next
  fix df assume "clean_delays L raw = Inr df"
  then show "clean_delays L df = Inr df" by (rule clean_delays_idem [OF assms])
qed

theorem cleaners_idempotent_on_clean_input_witness:
  "coerces_dates ex_pandas \<and> lower_stable ex_pandas
   \<and> wf_frame ex_raw_shipments
   \<and> clean_shipments ex_pandas ex_raw_shipments = Inr ex_clean_shipments
   \<and> clean_shipments ex_pandas ex_clean_shipments = Inr ex_clean_shipments
   \<and> wf_frame ex_routes_frame
   \<and> clean_routes ex_pandas ex_routes_frame = Inr ex_routes_cleaned
   \<and> clean_routes ex_pandas ex_routes_cleaned = Inr ex_routes_cleaned
   \<and> wf_frame ex_warehouses
   \<and> clean_warehouses ex_pandas ex_warehouses = Inr ex_clean_warehouses
   \<and> clean_warehouses ex_pandas ex_clean_warehouses = Inr ex_clean_warehouses
   \<and> wf_frame ex_carriers_frame
   \<and> clean_carriers ex_pandas ex_carriers_frame = Inr ex_carriers_cleaned
   \<and> clean_carriers ex_pandas ex_carriers_cleaned = Inr ex_carriers_cleaned
   \<and> wf_frame ex_delays_frame
   \<and> clean_delays ex_pandas ex_delays_frame = Inr ex_delays_cleaned
   \<and> clean_delays ex_pandas ex_delays_cleaned = Inr ex_delays_cleaned"
proof -
  note t = cleaners_idempotent_on_clean_input [OF ex_pandas_coerces_dates ex_pandas_lower_stable]
  have w1: "wf_frame ex_raw_shipments" by (simp add: wf_frame_def ex_raw_shipments_def)
  have w2: "wf_frame ex_routes_frame"
    by (simp add: wf_frame_def ex_routes_frame_def routes_rename_map_def)
  have w3: "wf_frame ex_warehouses" by (simp add: wf_frame_def ex_warehouses_def)
  have w4: "wf_frame ex_carriers_frame" by (simp add: wf_frame_def ex_carriers_frame_def)
  have w5: "wf_frame ex_delays_frame" by (simp add: wf_frame_def ex_delays_frame_def)
  from t [OF w1] ex_clean_shipments_eq
  have a1: "clean_shipments ex_pandas ex_clean_shipments = Inr ex_clean_shipments" by blast
  from t [OF w2] ex_routes_eq
  have a2: "clean_routes ex_pandas ex_routes_cleaned = Inr ex_routes_cleaned" by blast
  from t [OF w3] ex_clean_warehouses_eq
  have a3: "clean_warehouses ex_pandas ex_clean_warehouses = Inr ex_clean_warehouses" by blast
  from t [OF w4] ex_carriers_eq
  have a4: "clean_carriers ex_pandas ex_carriers_cleaned = Inr ex_carriers_cleaned" by blast
  from t [OF w5] ex_delays_eq
  have a5: "clean_delays ex_pandas ex_delays_cleaned = Inr ex_delays_cleaned" by blast
  from ex_pandas_coerces_dates ex_pandas_lower_stable w1 w2 w3 w4 w5 a1 a2 a3 a4 a5
    ex_clean_shipments_eq ex_routes_eq ex_clean_warehouses_eq ex_carriers_eq ex_delays_eq
  show ?thesis by (intro conjI)
qed

end
